(* ===== verification/Prelude.thy ===== *)
theory Prelude
  imports
    Complex_Main
    "HOL-Library.Word"
    "HOL-Library.List_Lexorder"
    "HOL-Library.Char_ord"
begin

text \<open>
  Shared vocabulary of the development: the machine types of the C++ code, exceptions as
  values, the string helpers of \<^verbatim>\<open>src/common/string_utils.hpp\<close> and
  \<^verbatim>\<open>src/server/sanitize.hpp\<close>, decimal printing (\<open>std::to_string\<close>) and
  the collections of simplification rules the components extend.

  Machine integers keep their width: a signed \<open>int64_t\<close> is a \<open>64 word\<close> that is
  read with \<open>sint\<close>, a \<open>uint64_t\<close> or \<open>size_t\<close> field is a \<open>64 word\<close> read
  with \<open>unat\<close>. Lengths of containers are \<open>nat\<close>. Points in time are nanosecond
  counts of type \<open>int\<close>.
\<close>

named_theorems frame_simps "fields an operation leaves alone"
named_theorems handler_simps "equations that run a handler on a branch"
named_theorems inv_intros "operations that keep an invariant"

type_synonym i64 = "64 word"
type_synonym u64 = "64 word"
type_synonym i32 = "32 word"
type_synonym u32 = "32 word"
type_synonym time_point = int

text \<open>\<open>std::chrono::duration_cast\<close> of nanoseconds to a coarser unit drops the fraction, toward
  zero.\<close>

definition duration_cast :: "int \<Rightarrow> time_point \<Rightarrow> int" where
  "duration_cast unit_ns t = sgn t * (\<bar>t\<bar> div unit_ns)"

subsection \<open>Exceptions as values\<close>

text \<open>
  Every exception the code can see derives from \<open>std::exception\<close>; a handler only
  uses \<open>what()\<close>. Allocation failure (\<open>std::bad_alloc\<close>) is not modelled.
\<close>

datatype exn =
    Json_exception string
  | Invalid_argument string
  | Out_of_range string
  | Runtime_error string
  | Random_device_failure string

fun what :: "exn \<Rightarrow> string" where
  "what (Json_exception s) = s"
| "what (Invalid_argument s) = s"
| "what (Out_of_range s) = s"
| "what (Runtime_error s) = s"
| "what (Random_device_failure s) = s"

definition bindE :: "exn + 'a \<Rightarrow> ('a \<Rightarrow> exn + 'b) \<Rightarrow> exn + 'b" where
  "bindE m f = (case m of Inl e \<Rightarrow> Inl e | Inr x \<Rightarrow> f x)"

lemma bindE_simps [simp]:
  "bindE (Inl e) f = Inl e"
  "bindE (Inr x) f = f x"
  by (simp_all add: bindE_def)

lemma bindE_Inr_iff [simp]:
  "bindE m f = Inr y \<longleftrightarrow> (\<exists>x. m = Inr x \<and> f x = Inr y)"
  by (cases m) simp_all

lemma bindE_Inl_iff:
  "bindE m f = Inl e \<longleftrightarrow> m = Inl e \<or> (\<exists>x. m = Inr x \<and> f x = Inl e)"
  by (cases m) simp_all

text \<open>Two runs of the same chain: what the first returned at each step, the second returns.\<close>

lemma bindE_step:
  assumes "bindE m f = Inr y"
    and "\<And>x. m = Inr x \<Longrightarrow> m' = Inr x"
    and "\<And>x. f x = Inr y \<Longrightarrow> f' x = Inr y"
  shows "bindE m' f' = Inr y"
  using assms by auto

fun mapE :: "('a \<Rightarrow> exn + 'b) \<Rightarrow> 'a list \<Rightarrow> exn + 'b list" where
  "mapE f [] = Inr []"
| "mapE f (x # xs) = bindE (f x) (\<lambda>y. bindE (mapE f xs) (\<lambda>ys. Inr (y # ys)))"

lemma mapE_all_Inr: "(\<And>x. x \<in> set xs \<Longrightarrow> f (g x) = Inr x) \<Longrightarrow> mapE f (map g xs) = Inr xs"
  by (induction xs) auto

lemma mapE_length: "mapE f xs = Inr ys \<Longrightarrow> length ys = length xs"
  by (induction xs arbitrary: ys) auto

subsection \<open>Strings\<close>

definition trunc_field :: "string \<Rightarrow> nat \<Rightarrow> string" where
  "trunc_field s max_len = (if length s \<le> max_len then s else take max_len s @ ''...'')"

definition SESSION_ID_LOG_LENGTH :: nat where
  "SESSION_ID_LOG_LENGTH = 13"

definition sanitize_session_id :: "string \<Rightarrow> string" where
  "sanitize_session_id sid =
     (if length sid \<le> SESSION_ID_LOG_LENGTH then sid
      else take SESSION_ID_LOG_LENGTH sid @ ''...'')"

lemma length_trunc_field: "length (trunc_field s n) \<le> n + 3"
  by (simp add: trunc_field_def)

lemma length_sanitize_session_id: "length (sanitize_session_id s) \<le> SESSION_ID_LOG_LENGTH + 3"
  by (simp add: sanitize_session_id_def)

text \<open>\<open>std::to_string\<close> on integers.\<close>

definition digit :: "nat \<Rightarrow> char" where
  "digit d = char_of (48 + d)"

fun nat_to_string :: "nat \<Rightarrow> string" where
  "nat_to_string n =
     (if n < 10 then [digit n] else nat_to_string (n div 10) @ [digit (n mod 10)])"

declare nat_to_string.simps [simp del]

definition int_to_string :: "int \<Rightarrow> string" where
  "int_to_string i = (if i < 0 then ''-'' @ nat_to_string (nat (- i)) else nat_to_string (nat i))"

definition is_digit :: "char \<Rightarrow> bool" where
  "is_digit c \<longleftrightarrow> CHR ''0'' \<le> c \<and> c \<le> CHR ''9''"

lemma is_digit_of_char: "is_digit c \<longleftrightarrow> 48 \<le> (of_char c :: nat) \<and> (of_char c :: nat) \<le> 57"
  by (simp add: is_digit_def less_eq_char_def)

lemma is_digit_digit: "d < 10 \<Longrightarrow> is_digit (digit d)"
  by (simp add: is_digit_of_char digit_def)

lemma nat_to_string_nonempty: "nat_to_string n \<noteq> []"
  by (subst nat_to_string.simps) simp

lemma nat_to_string_digits: "c \<in> set (nat_to_string n) \<Longrightarrow> is_digit c"
proof (induction n rule: nat_to_string.induct)
  case (1 n)
  show ?case
  proof (cases "n < 10")
    case True
    with "1.prems" show ?thesis
      by (subst (asm) nat_to_string.simps) (simp add: is_digit_digit)
  next
    case False
    with "1.prems" consider "c \<in> set (nat_to_string (n div 10))" | "c = digit (n mod 10)"
      by (subst (asm) nat_to_string.simps) auto
    then show ?thesis
      using False "1.IH" by cases (auto simp: is_digit_digit)
  qed
qed

lemma uint_difference:
  fixes x y :: i64
  assumes "- 1 \<le> sint x" "sint x < sint y"
  shows "uint (y - x) = sint y - sint x"
proof -
  have "uint (y - x) = (sint y - sint x) mod 2 ^ 64"
    unfolding uint_word_ariths by (simp add: uint_sint take_bit_eq_mod mod_diff_eq)
  then show ?thesis using assms sint_lt [of y] by simp
qed

lemma sint_add_small:
  fixes x y :: i64
  assumes "- (2 ^ 63) \<le> sint x + sint y" "sint x + sint y < 2 ^ 63"
  shows "sint (x + y) = sint x + sint y"
  using assms by (simp add: sint_word_ariths signed_take_bit_int_eq_self)

end
