(* ===== verification/Double.thy ===== *)
theory Double
  imports Prelude "HOL-Library.Log_Nat"
begin

text \<open>
  The C++ \<open>double\<close> of the protocol's amount conversion and of the metrics: IEEE 754
  binary64 with rounding to nearest, ties to even. A finite value is the rational number it
  denotes; the sign of a zero is not kept (no operation the code uses distinguishes the
  two zeros). Every arithmetic operation rounds the exact rational result with \<open>fl\<close>.
\<close>

datatype double = NaN | Infinity bool | Fin rat

subsection \<open>Rounding\<close>

definition ilog2 :: "rat \<Rightarrow> int" where
  "ilog2 x =
     (let (n, d) = quotient_of \<bar>x\<bar>; k = bitlen n - bitlen d
      in if 2 powi k \<le> \<bar>x\<bar> then k else k - 1)"

definition round_half_even :: "rat \<Rightarrow> int" where
  "round_half_even x =
     (let f = \<lfloor>x\<rfloor>; r = x - of_int f
      in if r < 1/2 then f else if r > 1/2 then f + 1 else if even f then f else f + 1)"

definition quantum :: "rat \<Rightarrow> int" where
  "quantum x = max (ilog2 x - 52) (-1074)"

definition rnd :: "rat \<Rightarrow> rat" where
  "rnd x = (if x = 0 then 0
            else of_int (round_half_even (x / 2 powi quantum x)) * 2 powi quantum x)"

definition fl :: "rat \<Rightarrow> double" where
  "fl x = (if 2 powi 1024 \<le> \<bar>rnd x\<bar> then Infinity (rnd x < 0) else Fin (rnd x))"

subsection \<open>The operations the code uses\<close>

fun isfinite :: "double \<Rightarrow> bool" where
  "isfinite (Fin x) = True"
| "isfinite _ = False"

text \<open>The factors, divisors and summands of the code are finite; the remaining
  combinations follow IEEE 754.\<close>

fun dmul :: "double \<Rightarrow> double \<Rightarrow> double" where
  "dmul (Fin x) (Fin y) = fl (x * y)"
| "dmul (Infinity s) (Fin y) = (if y = 0 then NaN else Infinity (s \<noteq> (y < 0)))"
| "dmul (Fin x) (Infinity s) = (if x = 0 then NaN else Infinity (s \<noteq> (x < 0)))"
| "dmul (Infinity s) (Infinity t) = Infinity (s \<noteq> t)"
| "dmul _ _ = NaN"

fun ddiv :: "double \<Rightarrow> double \<Rightarrow> double" where
  "ddiv (Fin x) (Fin y) =
     (if y = 0 then (if x = 0 then NaN else Infinity (x < 0)) else fl (x / y))"
| "ddiv (Infinity s) (Fin y) = Infinity (s \<noteq> (y < 0))"
| "ddiv (Fin x) (Infinity s) = Fin 0"
| "ddiv _ _ = NaN"

fun dadd :: "double \<Rightarrow> double \<Rightarrow> double" where
  "dadd (Fin x) (Fin y) = fl (x + y)"
| "dadd (Infinity s) (Fin y) = Infinity s"
| "dadd (Fin x) (Infinity s) = Infinity s"
| "dadd (Infinity s) (Infinity t) = (if s = t then Infinity s else NaN)"
| "dadd _ _ = NaN"

fun dneg :: "double \<Rightarrow> double" where
  "dneg (Fin x) = Fin (- x)"
| "dneg (Infinity s) = Infinity (\<not> s)"
| "dneg NaN = NaN"

definition dsub :: "double \<Rightarrow> double \<Rightarrow> double" where
  "dsub a b = dadd a (dneg b)"

fun dless :: "double \<Rightarrow> double \<Rightarrow> bool" where
  "dless (Fin x) (Fin y) \<longleftrightarrow> x < y"
| "dless (Infinity s) (Infinity t) \<longleftrightarrow> s \<and> \<not> t"
| "dless (Infinity s) (Fin y) \<longleftrightarrow> s"
| "dless (Fin x) (Infinity s) \<longleftrightarrow> \<not> s"
| "dless _ _ \<longleftrightarrow> False"

definition double_of_int :: "int \<Rightarrow> double" where
  "double_of_int i = fl (of_int i)"

text \<open>\<open>std::round\<close>: to the nearest integer, halves away from zero. The result of
  rounding a double is a double again, so no further rounding happens.\<close>

definition round_half_away :: "rat \<Rightarrow> int" where
  "round_half_away x = (if 0 \<le> x then \<lfloor>x + 1/2\<rfloor> else - \<lfloor>1/2 - x\<rfloor>)"

fun std_round :: "double \<Rightarrow> double" where
  "std_round (Fin x) = Fin (of_int (round_half_away x))"
| "std_round d = d"

fun std_floor :: "double \<Rightarrow> double" where
  "std_floor (Fin x) = Fin (of_int \<lfloor>x\<rfloor>)"
| "std_floor d = d"

fun std_ceil :: "double \<Rightarrow> double" where
  "std_ceil (Fin x) = Fin (of_int \<lceil>x\<rceil>)"
| "std_ceil d = d"

text \<open>Truncation of a finite double, the value of a conversion to an integer type that
  can represent it.\<close>

definition trunc_rat :: "rat \<Rightarrow> int" where
  "trunc_rat x = (if 0 \<le> x then \<lfloor>x\<rfloor> else \<lceil>x\<rceil>)"

subsection \<open>The exponent\<close>

lemma powi_two_nat: "(2::rat) powi int n = 2 ^ n"
  by (simp add: power_int_def)

lemma powi_two_pos [simp]: "0 < (2::rat) powi k"
  by simp

lemma powi_two_add: "(2::rat) powi (a + b) = 2 powi a * 2 powi b"
  by (simp add: power_int_add)

lemma powi_two_mono: "a \<le> b \<Longrightarrow> (2::rat) powi a \<le> 2 powi b"
  by (simp add: power_int_increasing)

lemma powi_two_less_imp: "(2::rat) powi a < 2 powi b \<Longrightarrow> a < b"
  using powi_two_mono [of b a] by (cases "a < b") simp_all

lemma bitlen_rat_bounds:
  assumes "0 < n"
  shows "(2::rat) powi (bitlen n - 1) \<le> of_int n" and "of_int n < (2::rat) powi bitlen n"
proof -
  have 1: "1 \<le> bitlen n"
    using assms bitlen_eq_zero_iff [of n] bitlen_nonneg [of n] by linarith
  note b = bitlen_bounds [OF assms]
  have "of_int (2 ^ nat (bitlen n - 1)) \<le> (of_int n :: rat)"
    using b by (subst of_int_le_iff) simp
  moreover have "(2::rat) powi (bitlen n - 1) = 2 ^ nat (bitlen n - 1)"
    using 1 by (simp add: power_int_def)
  ultimately show "(2::rat) powi (bitlen n - 1) \<le> of_int n" by simp
  have "(of_int n :: rat) < of_int (2 ^ nat (bitlen n))"
    using b by (subst of_int_less_iff) simp
  moreover have "(2::rat) powi bitlen n = 2 ^ nat (bitlen n)"
    using 1 by (simp add: power_int_def)
  ultimately show "of_int n < (2::rat) powi bitlen n" by simp
qed

lemma ilog2_bounds:
  assumes "x \<noteq> 0"
  shows "2 powi ilog2 x \<le> \<bar>x\<bar>" and "\<bar>x\<bar> < 2 powi (ilog2 x + 1)"
proof -
  obtain n d where q: "quotient_of \<bar>x\<bar> = (n, d)" by (cases "quotient_of \<bar>x\<bar>")
  have d: "0 < d" using q quotient_of_denom_pos by blast
  have xe: "\<bar>x\<bar> = of_int n / of_int d" using q quotient_of_div by blast
  have n: "0 < n"
  proof -
    have "0 < (of_int n :: rat) / of_int d" using assms xe by simp
    then show ?thesis using d by (simp add: zero_less_divide_iff)
  qed
  let ?k = "bitlen n - bitlen d"
  have up: "\<bar>x\<bar> < 2 powi (?k + 1)"
  proof -
    have "\<bar>x\<bar> * 2 powi (bitlen d - 1) \<le> \<bar>x\<bar> * of_int d"
      using bitlen_rat_bounds(1) [OF d] by (intro mult_left_mono) simp_all
    also have "\<dots> = of_int n" using d xe by simp
    also have "\<dots> < 2 powi bitlen n" using bitlen_rat_bounds(2) [OF n] .
    also have "\<dots> = 2 powi (?k + 1) * 2 powi (bitlen d - 1)"
      by (simp flip: powi_two_add)
    finally show ?thesis by simp
  qed
  have lo: "2 powi (?k - 1) \<le> \<bar>x\<bar>"
  proof -
    have "(2::rat) powi (?k - 1) * of_int d \<le> 2 powi (?k - 1) * 2 powi bitlen d"
      using bitlen_rat_bounds(2) [OF d] by (intro mult_left_mono) simp_all
    also have "\<dots> = 2 powi (bitlen n - 1)"
      by (simp flip: powi_two_add)
    also have "\<dots> \<le> of_int n" using bitlen_rat_bounds(1) [OF n] .
    also have "\<dots> = \<bar>x\<bar> * of_int d" using d xe by simp
    finally show ?thesis using d by simp
  qed
  show "2 powi ilog2 x \<le> \<bar>x\<bar>" using lo by (simp add: ilog2_def q Let_def)
  show "\<bar>x\<bar> < 2 powi (ilog2 x + 1)" using up by (simp add: ilog2_def q not_le Let_def)
qed

subsection \<open>Rounding error\<close>

lemma round_half_even_error: "\<bar>of_int (round_half_even x) - x\<bar> \<le> 1/2"
proof -
  have "0 \<le> x - of_int \<lfloor>x\<rfloor>" "x - of_int \<lfloor>x\<rfloor> < 1" by linarith+
  then show ?thesis by (auto simp: round_half_even_def Let_def abs_le_iff)
qed

lemma round_half_even_of_int [simp]: "round_half_even (of_int i) = i"
  by (simp add: round_half_even_def)

lemma round_half_even_le: "x \<le> of_int i \<Longrightarrow> round_half_even x \<le> i"
proof -
  assume a: "x \<le> of_int i"
  have e: "of_int (round_half_even x) \<le> x + 1/2"
    using round_half_even_error [of x] by linarith
  then have "(of_int (round_half_even x) :: rat) < of_int (i + 1)" using a by simp
  then have "round_half_even x < i + 1" by (subst (asm) of_int_less_iff)
  then show ?thesis by simp
qed

lemma round_half_even_ge: "of_int i \<le> x \<Longrightarrow> i \<le> round_half_even x"
proof -
  assume a: "of_int i \<le> x"
  have e: "x - 1/2 \<le> of_int (round_half_even x)"
    using round_half_even_error [of x] by linarith
  then have "(of_int (i - 1) :: rat) < of_int (round_half_even x)" using a by simp
  then have "i - 1 < round_half_even x" by (subst (asm) of_int_less_iff)
  then show ?thesis by simp
qed

lemma rnd_error: "\<bar>rnd x - x\<bar> \<le> 2 powi (quantum x - 1)"
proof (cases "x = 0")
  case True
  then show ?thesis by (simp add: rnd_def)
next
  case False
  let ?q = "(2::rat) powi quantum x"
  have "rnd x - x = (of_int (round_half_even (x / ?q)) - x / ?q) * ?q"
    using False by (simp add: rnd_def left_diff_distrib)
  then have "\<bar>rnd x - x\<bar> = \<bar>of_int (round_half_even (x / ?q)) - x / ?q\<bar> * ?q"
    by (simp add: abs_mult)
  also have "\<dots> \<le> 1/2 * ?q"
    using round_half_even_error by (intro mult_right_mono) simp_all
  also have "\<dots> = 2 powi (quantum x - 1)"
    by (simp add: power_int_diff)
  finally show ?thesis .
qed

text \<open>In the normal range the relative error is at most half a unit in the last place.\<close>

lemma rnd_relative_error:
  assumes "2 powi (- 1022) \<le> \<bar>x\<bar>"
  shows "\<bar>rnd x - x\<bar> \<le> \<bar>x\<bar> / 2 ^ 53"
proof -
  have x: "x \<noteq> 0" using assms powi_two_pos [of "-1022"] by auto
  have "(2::rat) powi (- 1022) < 2 powi (ilog2 x + 1)"
    using assms ilog2_bounds(2) [OF x] by linarith
  then have "- 1022 < ilog2 x + 1"
    by (rule powi_two_less_imp)
  then have q: "quantum x = ilog2 x - 52" by (simp add: quantum_def)
  have "\<bar>rnd x - x\<bar> \<le> 2 powi (ilog2 x - 53)"
    using rnd_error [of x] by (simp add: q)
  also have "\<dots> = 2 powi ilog2 x / 2 ^ 53"
    by (simp add: power_int_diff)
  also have "\<dots> \<le> \<bar>x\<bar> / 2 ^ 53"
    using ilog2_bounds(1) [OF x] by (intro divide_right_mono) simp_all
  finally show ?thesis .
qed

subsection \<open>Integers up to \<open>2 ^ 53\<close> are exact\<close>

lemma quantum_nonpos:
  assumes "\<bar>x\<bar> < 2 ^ 53"
  shows "quantum x \<le> 0"
proof (cases "x = 0")
  case True
  then show ?thesis
    using bitlen_nonneg [of 1] by (simp add: quantum_def ilog2_def Let_def not_le [symmetric])
next
  case False
  have "(2::rat) powi ilog2 x < 2 powi 53"
    using ilog2_bounds(1) [OF False] assms by simp
  then have "ilog2 x < 53" by (rule powi_two_less_imp)
  then show ?thesis by (simp add: quantum_def)
qed

lemma int_is_multiple:
  assumes "q \<le> 0"
  shows "(of_int i :: rat) / 2 powi q = of_int (i * 2 ^ nat (- q))"
  using assms by (simp add: power_int_def field_simps)

lemma rnd_of_int:
  assumes "\<bar>i\<bar> < 2 ^ 53"
  shows "rnd (of_int i) = of_int i"
proof -
  have "\<bar>of_int i :: rat\<bar> < 2 ^ 53"
    using assms by (metis of_int_abs of_int_less_iff of_int_numeral of_int_power)
  then have q: "quantum (of_int i) \<le> 0" by (rule quantum_nonpos)
  show ?thesis
  proof (cases "i = 0")
    case False
    then have "rnd (of_int i) =
        of_int (round_half_even (of_int (i * 2 ^ nat (- quantum (of_int i))))) * 2 powi quantum (of_int i)"
      by (simp only: rnd_def int_is_multiple [OF q] of_int_eq_0_iff if_False)
    also have "\<dots> = of_int i / 2 powi quantum (of_int i) * 2 powi quantum (of_int i)"
      by (simp only: round_half_even_of_int int_is_multiple [OF q])
    finally show ?thesis by simp
  qed (simp add: rnd_def)
qed

lemma rnd_le_int:
  assumes "x \<le> of_int i" "\<bar>x\<bar> < 2 ^ 53" "0 \<le> i"
  shows "rnd x \<le> of_int i"
proof (cases "x = 0")
  case False
  let ?q = "quantum x"
  have q: "?q \<le> 0" using assms(2) by (rule quantum_nonpos)
  have "x / 2 powi ?q \<le> of_int i / 2 powi ?q"
    using assms(1) by (intro divide_right_mono) simp_all
  then have "round_half_even (x / 2 powi ?q) \<le> i * 2 ^ nat (- ?q)"
    by (intro round_half_even_le) (simp only: int_is_multiple [OF q])
  then have "(of_int (round_half_even (x / 2 powi ?q)) :: rat) \<le> of_int i / 2 powi ?q"
    by (simp only: int_is_multiple [OF q] of_int_le_iff)
  then have "rnd x \<le> of_int i / 2 powi ?q * 2 powi ?q"
    using False by (simp only: rnd_def if_False) (intro mult_right_mono, simp_all)
  then show ?thesis by simp
qed (use assms in \<open>simp add: rnd_def\<close>)

lemma rnd_nonneg: "0 \<le> x \<Longrightarrow> 0 \<le> rnd x"
  using round_half_even_ge [of 0 "x / 2 powi quantum x"] by (simp add: rnd_def)

lemma fl_small: "\<bar>rnd x\<bar> < 2 powi 1024 \<Longrightarrow> fl x = Fin (rnd x)"
  by (simp add: fl_def)

lemma powi_1024_big: "n \<le> 1023 \<Longrightarrow> (2::rat) ^ n < 2 powi 1024"
proof -
  assume "n \<le> 1023"
  then have "(2::rat) powi int n < 2 powi 1024"
    by (intro power_int_strict_increasing) simp_all
  then show ?thesis by (simp only: powi_two_nat)
qed

lemma fl_of_int: "\<bar>i\<bar> < 2 ^ 53 \<Longrightarrow> fl (of_int i) = Fin (of_int i)"
proof -
  assume a: "\<bar>i\<bar> < 2 ^ 53"
  then have "\<bar>of_int i :: rat\<bar> < 2 ^ 53"
    by (metis of_int_abs of_int_less_iff of_int_numeral of_int_power)
  also have "\<dots> < 2 powi 1024" by (rule powi_1024_big) simp
  finally show ?thesis using rnd_of_int [OF a] by (simp add: fl_def)
qed

subsection \<open>Values far from overflow\<close>

lemma rnd_abs_le:
  assumes "2 powi (- 1022) \<le> \<bar>x\<bar>"
  shows "\<bar>rnd x\<bar> \<le> 2 * \<bar>x\<bar>"
proof -
  have "\<bar>rnd x - x\<bar> \<le> \<bar>x\<bar>"
    using rnd_relative_error [OF assms] by (rule order_trans) (simp add: divide_le_eq)
  then show ?thesis by linarith
qed

lemma small_normal: "1 / 2 ^ 100 \<le> \<bar>x\<bar> \<Longrightarrow> (2::rat) powi (- 1022) \<le> \<bar>x\<bar>"
proof -
  assume a: "1 / 2 ^ 100 \<le> \<bar>x\<bar>"
  have "(2::rat) powi (- 1022) \<le> 2 powi (- 100)" by (rule powi_two_mono) simp
  also have "\<dots> = 1 / 2 ^ 100" by (simp add: power_int_def field_simps)
  finally show ?thesis using a by simp
qed

lemma fl_moderate:
  assumes "1 / 2 ^ 100 \<le> \<bar>x\<bar>" "\<bar>x\<bar> \<le> 2 ^ 100"
  shows "fl x = Fin (rnd x)" and "\<bar>rnd x - x\<bar> \<le> \<bar>x\<bar> / 2 ^ 53"
proof -
  note n = small_normal [OF assms(1)]
  have "\<bar>rnd x\<bar> \<le> 2 * \<bar>x\<bar>" by (rule rnd_abs_le [OF n])
  also have "\<dots> \<le> 2 ^ 101" using assms(2) by simp
  also have "\<dots> < 2 powi 1024" by (rule powi_1024_big) simp
  finally show "fl x = Fin (rnd x)" by (rule fl_small)
  show "\<bar>rnd x - x\<bar> \<le> \<bar>x\<bar> / 2 ^ 53" by (rule rnd_relative_error [OF n])
qed

subsection \<open>Dollars to cents\<close>

text \<open>
  The conversion \<open>std::round(dollars * 100.0)\<close> of \<^verbatim>\<open>protocol.hpp\<close>: for every
  whole number of cents up to \<open>10 ^ 15\<close> (the protocol's largest amount) the double
  nearest to the dollar value comes back as exactly that number of cents.
\<close>

lemma round_half_away_near: "\<bar>x - of_int c\<bar> < 1/2 \<Longrightarrow> round_half_away x = c"
proof -
  assume a: "\<bar>x - of_int c\<bar> < 1/2"
  have f: "\<lfloor>x + 1/2\<rfloor> = c" and g: "\<lfloor>1/2 - x\<rfloor> = - c"
    using a by (subst floor_eq_iff, simp, linarith)+
  show ?thesis using f g by (simp add: round_half_away_def)
qed

lemma fl_zero: "fl 0 = Fin 0"
  by (simp add: fl_def rnd_def)

lemma fl_100: "fl 100 = Fin 100"
  using fl_of_int [of 100] by simp

lemma dollars_to_cents_exact:
  assumes "\<bar>c\<bar> \<le> 10 ^ 15"
  shows "std_round (dmul (fl (of_int c / 100)) (fl 100)) = Fin (of_int c)"
proof (cases "c = 0")
  case True
  have "\<lfloor>1/2 :: rat\<rfloor> = 0" by (simp add: floor_eq_iff)
  then show ?thesis using True by (simp add: fl_zero fl_100 round_half_away_def)
next
  case False
  let ?x = "of_int c / 100 :: rat" and ?d = "rnd (of_int c / 100)"
  have c1: "1 \<le> \<bar>of_int c :: rat\<bar>" and c2: "\<bar>of_int c :: rat\<bar> \<le> 10 ^ 15"
    using False assms by (simp_all flip: of_int_abs)
  have x: "1 / 2 ^ 100 \<le> \<bar>?x\<bar>" "\<bar>?x\<bar> \<le> 2 ^ 100"
    using c1 c2 by (simp_all add: field_simps)
  note fx = fl_moderate [OF x]
  have d100: "\<bar>?d * 100 - of_int c\<bar> \<le> \<bar>of_int c\<bar> / 2 ^ 53"
    using fx(2) by (simp add: field_simps abs_le_iff)
  have e1: "\<bar>?d * 100 - of_int c\<bar> < 1/8"
    using d100 c2 by simp
  have y: "1 / 2 ^ 100 \<le> \<bar>?d * 100\<bar>" "\<bar>?d * 100\<bar> \<le> 2 ^ 100" and
    y2: "\<bar>?d * 100\<bar> \<le> 10 ^ 15 + 1"
    using e1 c1 c2 by (simp_all add: abs_le_iff abs_if split: if_splits)
  note fy = fl_moderate [OF y]
  have e2: "\<bar>rnd (?d * 100) - ?d * 100\<bar> < 1/4"
    using fy(2) y2 by simp
  have "\<bar>rnd (?d * 100) - of_int c\<bar> < 1/2"
    using e1 e2 by (simp add: abs_if split: if_splits)
  then have r: "round_half_away (rnd (?d * 100)) = c" by (rule round_half_away_near)
  show ?thesis by (simp add: fx(1) fy(1) r fl_100)
qed

lemma fl_computes:
  assumes "rnd x = y" "\<bar>y\<bar> \<le> 2 ^ 100"
  shows "fl x = Fin y"
proof -
  have "\<bar>y\<bar> < (2::rat) powi 1024"
    by (rule le_less_trans [OF assms(2)]) (simp add: power_int_def)
  then show ?thesis by (simp add: fl_def assms(1))
qed

lemma fl_not_NaN: "fl x \<noteq> NaN"
  by (simp add: fl_def Let_def)

lemma fl_between:
  assumes "0 \<le> x" "x \<le> of_int i" "i < 2 ^ 53"
  shows "\<exists>y. fl x = Fin y \<and> 0 \<le> y \<and> y \<le> of_int i"
proof -
  have i: "(of_int i :: rat) < 2 ^ 53"
    using assms(3) by (metis of_int_less_iff of_int_numeral of_int_power)
  have i0: "0 \<le> i" using order.trans [OF assms(1,2)] by simp
  have "rnd x \<le> of_int i" using assms i i0 by (intro rnd_le_int) simp_all
  moreover have "0 \<le> rnd x" using assms(1) by (rule rnd_nonneg)
  moreover have "fl x = Fin (rnd x)"
  proof (rule fl_small)
    have "\<bar>rnd x\<bar> < 2 ^ 53" using calculation i by simp
    also have "\<dots> < 2 powi 1024" by (rule powi_1024_big) simp
    finally show "\<bar>rnd x\<bar> < 2 powi 1024" .
  qed
  ultimately show ?thesis by blast
qed

end
