(* ===== verification/Json_Api.thy ===== *)
theory Json_Api
  imports Double
begin

text \<open>
  The code outside the repository: the \<open>nlohmann::json\<close> package, which the build fetches,
  and the one conversion C++ leaves undefined. Both are parameters: a value of type
  \<open>'j ext\<close> bundles the library functions the code calls, over an arbitrary type \<open>'j\<close>
  of JSON values. A function that can throw returns \<open>Inl\<close> of the exception.

  What some theorems rely on is stated as the laws of the locale \<open>json_laws\<close> (how values
  that are built are read back) and of its extension \<open>json_text\<close> (how they survive printing
  and parsing); both are documented behaviour of the library. \<open>ref_json\<close> is a concrete
  instance of the interface that satisfies all the laws.
\<close>

record 'j ext =
  j_parse :: "string \<Rightarrow> exn + 'j"               \<comment> \<open>\<open>json::parse(text)\<close>\<close>
  j_parse_stream :: "string \<Rightarrow> exn + 'j"        \<comment> \<open>\<open>stream >> json\<close>, on the stream's contents\<close>
  j_dump :: "'j \<Rightarrow> int \<Rightarrow> exn + string"          \<comment> \<open>\<open>dump(indent)\<close>, \<open>- 1\<close> is compact\<close>
  j_contains :: "'j \<Rightarrow> string \<Rightarrow> bool"
  j_at :: "'j \<Rightarrow> string \<Rightarrow> exn + 'j"
  j_subscript :: "'j \<Rightarrow> string \<Rightarrow> 'j"           \<comment> \<open>\<open>operator[]\<close>, read; the key must be present\<close>
  is_object :: "'j \<Rightarrow> bool"
  is_null :: "'j \<Rightarrow> bool"
  is_string :: "'j \<Rightarrow> bool"
  is_boolean :: "'j \<Rightarrow> bool"
  is_number :: "'j \<Rightarrow> bool"
  is_number_integer :: "'j \<Rightarrow> bool"
  is_number_unsigned :: "'j \<Rightarrow> bool"
  get_string :: "'j \<Rightarrow> exn + string"
  get_int64 :: "'j \<Rightarrow> exn + i64"
  get_uint64 :: "'j \<Rightarrow> exn + u64"
  get_int :: "'j \<Rightarrow> exn + i32"
  get_double :: "'j \<Rightarrow> exn + double"
  get_bool :: "'j \<Rightarrow> exn + bool"
  get_array :: "'j \<Rightarrow> exn + 'j list"
  of_string :: "string \<Rightarrow> 'j"
  of_int64 :: "i64 \<Rightarrow> 'j"
  of_uint64 :: "u64 \<Rightarrow> 'j"
  of_double :: "double \<Rightarrow> 'j"
  of_bool_json :: "bool \<Rightarrow> 'j"
  of_array :: "'j list \<Rightarrow> 'j"
  mk_object :: "(string \<times> 'j) list \<Rightarrow> 'j"       \<comment> \<open>braced list of key/value pairs\<close>
  set_key :: "'j \<Rightarrow> string \<Rightarrow> 'j \<Rightarrow> 'j"         \<comment> \<open>\<open>j[key] = value\<close>\<close>
  cast_out_of_range :: "double \<Rightarrow> i64"         \<comment> \<open>\<open>static_cast<int64_t>\<close> of a value it cannot represent\<close>

definition at_string :: "'j ext \<Rightarrow> 'j \<Rightarrow> string \<Rightarrow> exn + string" where
  "at_string J j k = bindE (j_at J j k) (get_string J)"

definition at_int64 :: "'j ext \<Rightarrow> 'j \<Rightarrow> string \<Rightarrow> exn + i64" where
  "at_int64 J j k = bindE (j_at J j k) (get_int64 J)"

definition at_int :: "'j ext \<Rightarrow> 'j \<Rightarrow> string \<Rightarrow> exn + i32" where
  "at_int J j k = bindE (j_at J j k) (get_int J)"

text \<open>\<open>j.contains(k) && !j[k].is_null()\<close>, then read the member with \<open>f\<close>; the optional
  stays empty when the member is absent or null.\<close>

definition optional_at :: "'j ext \<Rightarrow> 'j \<Rightarrow> string \<Rightarrow> ('j \<Rightarrow> exn + 'a) \<Rightarrow> exn + 'a option" where
  "optional_at J j k f =
     (if j_contains J j k \<and> \<not> is_null J (j_subscript J j k)
      then bindE (f (j_subscript J j k)) (\<lambda>x. Inr (Some x))
      else Inr None)"

text \<open>\<open>if (m.field) j[k] = *m.field\<close>.\<close>

definition set_optional :: "'j ext \<Rightarrow> string \<Rightarrow> ('a \<Rightarrow> 'j) \<Rightarrow> 'a option \<Rightarrow> 'j \<Rightarrow> 'j" where
  "set_optional J k f x j = (case x of None \<Rightarrow> j | Some v \<Rightarrow> set_key J j k (f v))"

subsection \<open>Documented behaviour: values\<close>

locale json_laws =
  fixes J :: "'j ext"
  assumes contains_at: "j_contains J j k \<longleftrightarrow> (\<exists>v. j_at J j k = Inr v)"
    and subscript_at: "j_at J j k = Inr v \<Longrightarrow> j_subscript J j k = v"
    and at_object: "distinct (map fst kvs) \<Longrightarrow> map_of kvs k = Some v \<Longrightarrow> j_at J (mk_object J kvs) k = Inr v"
    and at_object_missing: "k \<notin> fst ` set kvs \<Longrightarrow> \<not> j_contains J (mk_object J kvs) k"
    and object_mk: "is_object J (mk_object J kvs)"
    and object_set: "is_object J j \<Longrightarrow> is_object J (set_key J j k v)"
    and at_set_same: "is_object J j \<Longrightarrow> j_at J (set_key J j k v) k = Inr v"
    and at_set_other: "is_object J j \<Longrightarrow> k' \<noteq> k \<Longrightarrow> j_at J (set_key J j k v) k' = j_at J j k'"
    and string_of: "get_string J (of_string J s) = Inr s"
    and int64_of: "get_int64 J (of_int64 J x) = Inr x"
    and int_of: "get_int J (of_int64 J (scast (y :: i32))) = Inr y"
    and bool_of: "get_bool J (of_bool_json J b) = Inr b"
    and array_of: "get_array J (of_array J vs) = Inr vs"
    and int64_integer: "is_number_integer J (of_int64 J x)"
    and string_typed: "get_string J v = Inr s \<Longrightarrow> is_string J v"
    and string_not_null: "\<not> is_null J (of_string J s)"
    and int64_not_null: "\<not> is_null J (of_int64 J x)"
    and array_not_null: "\<not> is_null J (of_array J vs)"
begin

lemma contains_set:
  "is_object J j \<Longrightarrow> j_contains J (set_key J j k v) k' \<longleftrightarrow> k' = k \<or> j_contains J j k'"
  by (cases "k' = k") (simp_all add: contains_at at_set_same at_set_other)

lemma object_set_optional: "is_object J j \<Longrightarrow> is_object J (set_optional J k f x j)"
  by (simp add: set_optional_def object_set split: option.split)

lemma at_set_optional_other:
  "is_object J j \<Longrightarrow> k' \<noteq> k \<Longrightarrow> j_at J (set_optional J k f x j) k' = j_at J j k'"
  by (simp add: set_optional_def at_set_other split: option.split)

lemma contains_set_optional_other:
  "is_object J j \<Longrightarrow> k' \<noteq> k \<Longrightarrow>
     j_contains J (set_optional J k f x j) k' = j_contains J j k'"
  by (simp add: contains_at at_set_optional_other)

end

subsection \<open>Documented behaviour: text\<close>

text \<open>
  Parsing what \<open>dump\<close> printed gives a value the accessors cannot tell apart from the
  original (\<open>same\<close>): the parser stores a non-negative integer as unsigned, so the two need
  not be identical.
\<close>

locale json_text = json_laws J for J :: "'j ext" +
  fixes same :: "'j \<Rightarrow> 'j \<Rightarrow> bool"
  assumes parse_dump: "j_dump J j (- 1) = Inr s \<Longrightarrow> \<exists>j'. j_parse J s = Inr j' \<and> same j' j"
    and same_at: "same a b \<Longrightarrow> j_at J b k = Inr v \<Longrightarrow> \<exists>v'. j_at J a k = Inr v' \<and> same v' v"
    and same_contains: "same a b \<Longrightarrow> j_contains J a k = j_contains J b k"
    and same_string: "same a b \<Longrightarrow> get_string J b = Inr s \<Longrightarrow> get_string J a = Inr s"
    and same_int64: "same a b \<Longrightarrow> get_int64 J b = Inr x \<Longrightarrow> get_int64 J a = Inr x"
    and same_int: "same a b \<Longrightarrow> get_int J b = Inr y \<Longrightarrow> get_int J a = Inr y"
    and same_bool: "same a b \<Longrightarrow> get_bool J b = Inr p \<Longrightarrow> get_bool J a = Inr p"
    and same_array: "same a b \<Longrightarrow> get_array J b = Inr vs \<Longrightarrow>
          \<exists>vs'. get_array J a = Inr vs' \<and> list_all2 same vs' vs"
    and same_null: "same a b \<Longrightarrow> is_null J a = is_null J b"
    and same_integer: "same a b \<Longrightarrow> is_number_integer J a = is_number_integer J b"
begin

lemma same_at_string: "same a b \<Longrightarrow> at_string J b k = Inr s \<Longrightarrow> at_string J a k = Inr s"
  unfolding at_string_def bindE_Inr_iff using same_at same_string by blast

lemma same_at_int64: "same a b \<Longrightarrow> at_int64 J b k = Inr x \<Longrightarrow> at_int64 J a k = Inr x"
  unfolding at_int64_def bindE_Inr_iff using same_at same_int64 by blast

lemma same_at_int: "same a b \<Longrightarrow> at_int J b k = Inr y \<Longrightarrow> at_int J a k = Inr y"
  unfolding at_int_def bindE_Inr_iff using same_at same_int by blast

lemma same_optional_at:
  assumes s: "same a b" and o: "optional_at J b k f = Inr x"
    and f: "\<And>u v y. same u v \<Longrightarrow> j_at J b k = Inr v \<Longrightarrow> f v = Inr y \<Longrightarrow> f u = Inr y"
  shows "optional_at J a k f = Inr x"
proof (cases "j_contains J b k")
  case False
  then show ?thesis using o by (simp add: optional_at_def same_contains [OF s])
next
  case True
  then obtain v where v: "j_at J b k = Inr v" by (auto simp: contains_at)
  then obtain u where u: "j_at J a k = Inr u" "same u v" using same_at [OF s] by blast
  show ?thesis
    using o True u v
    by (auto simp: optional_at_def same_contains [OF s] subscript_at same_null dest: f split: if_splits)
qed

end

subsection \<open>Documented behaviour: files\<close>

text \<open>What reading a file back that \<open>dump\<close> wrote relies on: the stream parser ignores the
  indentation, and the type tests and the unsigned accessor agree with the constructors.\<close>

locale json_file = json_text J same for J :: "'j ext" and same :: "'j \<Rightarrow> 'j \<Rightarrow> bool" +
  assumes parse_stream_dump: "j_dump J j n = Inr s \<Longrightarrow> \<exists>j'. j_parse_stream J s = Inr j' \<and> same j' j"
    and number_of_int64: "is_number J (of_int64 J x)"
    and number_of_uint64: "is_number J (of_uint64 J y)"
    and boolean_of: "is_boolean J (of_bool_json J b)"
    and uint64_of: "get_uint64 J (of_uint64 J y) = Inr y"
    and same_number: "same a b' \<Longrightarrow> is_number J a = is_number J b'"
    and same_boolean: "same a b' \<Longrightarrow> is_boolean J a = is_boolean J b'"
    and same_uint64: "same a b' \<Longrightarrow> get_uint64 J b' = Inr y \<Longrightarrow> get_uint64 J a = Inr y"
begin

lemma same_member:
  assumes "same a b" "j_at J b k = Inr v"
  shows "j_contains J a k \<and> (\<exists>v'. j_subscript J a k = v' \<and> same v' v)"
  using same_at [OF assms] contains_at subscript_at by blast

end

text \<open>A value prints only if every member and every element of it does.\<close>

locale json_printing = json_laws J for J :: "'j ext" +
  assumes print_member: "j_dump J j n = Inr s \<Longrightarrow> j_at J j k = Inr v \<Longrightarrow> \<exists>s'. j_dump J v n = Inr s'"
    and print_element: "j_dump J j n = Inr s \<Longrightarrow> get_array J j = Inr vs \<Longrightarrow> v \<in> set vs \<Longrightarrow>
          \<exists>s'. j_dump J v n = Inr s'"
begin

lemma print_in_array:
  "j_dump J (of_array J vs) n = Inr s \<Longrightarrow> v \<in> set vs \<Longrightarrow> \<exists>s'. j_dump J v n = Inr s'"
  using print_element array_of by blast

end

end
