(* ===== verification/Protocol_Messages.thy ===== *)
theory Protocol_Messages
  imports Json_Api
begin

text \<open>
  \<^verbatim>\<open>src/common/protocol.hpp\<close>: the protocol's constants, the message structs and
  their conversions from and to JSON. An \<open>int64_t\<close> is an \<open>i64\<close> word read with
  \<open>sint\<close>; \<open>int\<close> is an \<open>i32\<close> word. A conversion that can throw returns a sum.
\<close>

subsection \<open>Constants\<close>

definition PROTOCOL_VERSION :: string where "PROTOCOL_VERSION = ''v1.0''"
definition MAX_AMOUNT :: int where "MAX_AMOUNT = 1000000000000000"
definition MAX_SESSION_ID_LENGTH :: nat where "MAX_SESSION_ID_LENGTH = 128"

definition INCOMPATIBLE_VERSION :: string where "INCOMPATIBLE_VERSION = ''INCOMPATIBLE_VERSION''"
definition PROTOCOL_ERROR :: string where "PROTOCOL_ERROR = ''PROTOCOL_ERROR''"
definition MALFORMED_HANDSHAKE :: string where "MALFORMED_HANDSHAKE = ''MALFORMED_HANDSHAKE''"
definition MALFORMED_MESSAGE :: string where "MALFORMED_MESSAGE = ''MALFORMED_MESSAGE''"
definition SESSION_CLOSED :: string where "SESSION_CLOSED = ''SESSION_CLOSED''"

definition HANDSHAKE :: string where "HANDSHAKE = ''HANDSHAKE''"
definition HANDSHAKE_RESPONSE :: string where "HANDSHAKE_RESPONSE = ''HANDSHAKE_RESPONSE''"
definition ACTION :: string where "ACTION = ''ACTION''"
definition STATE_UPDATE :: string where "STATE_UPDATE = ''STATE_UPDATE''"
definition ERROR :: string where "ERROR = ''ERROR''"
definition RELOAD_REQUEST :: string where "RELOAD_REQUEST = ''RELOAD_REQUEST''"
definition RELOAD_RESPONSE :: string where "RELOAD_RESPONSE = ''RELOAD_RESPONSE''"
definition DISCONNECT :: string where "DISCONNECT = ''DISCONNECT''"

definition FOLD :: string where "FOLD = ''FOLD''"
definition CHECK :: string where "CHECK = ''CHECK''"
definition CALL :: string where "CALL = ''CALL''"
definition RAISE :: string where "RAISE = ''RAISE''"
definition ALL_IN :: string where "ALL_IN = ''ALL_IN''"

lemmas message_type_defs = HANDSHAKE_def HANDSHAKE_RESPONSE_def ACTION_def STATE_UPDATE_def
  ERROR_def RELOAD_REQUEST_def RELOAD_RESPONSE_def DISCONNECT_def
lemmas action_type_defs = FOLD_def CHECK_def CALL_def RAISE_def ALL_IN_def

definition INT64_MAX :: int where "INT64_MAX = 2 ^ 63 - 1"
definition INT64_MIN :: int where "INT64_MIN = - (2 ^ 63)"

subsection \<open>Message structs\<close>

record player_stack =
  ps_seat :: i32
  ps_stack :: i64

record handshake_message =
  hm_protocol_version :: string
  hm_client_name :: "string option"

record handshake_response =
  hr_session_id :: string
  hr_seat_number :: i32
  hr_starting_stack :: i64

record action_message =
  am_session_id :: string
  am_action_type :: string
  am_amount :: "i64 option"
  am_sequence_number :: i64

record state_update_message =
  su_game_phase :: string
  su_pot_size :: i64
  su_current_bet :: i64
  su_player_stacks :: "player_stack list"
  su_community_cards :: "string list option"
  su_hole_cards :: "string list option"
  su_valid_actions :: "string list"
  su_acting_seat :: "i32 option"

record error_message =
  em_error_code :: string
  em_message :: string
  em_session_id :: "string option"

record reload_request_message =
  rq_session_id :: string
  rq_requested_amount :: i64

record reload_response_message =
  rr_granted :: bool
  rr_new_stack :: i64

record disconnect_message =
  dm_session_id :: string
  dm_reason :: "string option"

record 'j message_envelope =
  env_message_type :: string
  env_protocol_version :: string
  env_payload :: 'j

subsection \<open>Amounts\<close>

text \<open>
  \<open>static_cast<int64_t>\<close> of a double: truncation where the result is representable;
  otherwise C++ leaves the result undefined, and it is the parameter
  \<open>cast_out_of_range\<close>.
\<close>

definition double_to_int64 :: "'j ext \<Rightarrow> double \<Rightarrow> i64" where
  "double_to_int64 J d =
     (case d of
        Fin x \<Rightarrow>
          if INT64_MIN \<le> trunc_rat x \<and> trunc_rat x \<le> INT64_MAX
          then word_of_int (trunc_rat x) else cast_out_of_range J d
      | _ \<Rightarrow> cast_out_of_range J d)"

definition dollars_to_cents :: "'j ext \<Rightarrow> string \<Rightarrow> double \<Rightarrow> exn + i64" where
  "dollars_to_cents J field dollars =
     (if \<not> isfinite dollars then Inl (Invalid_argument (field @ '' must be finite''))
      else
        let cents = std_round (dmul dollars (fl 100)) in
        if dless (double_of_int INT64_MAX) cents \<or> dless cents (double_of_int INT64_MIN)
        then Inl (Out_of_range (field @ '' out of representable range after conversion''))
        else Inr (double_to_int64 J cents))"

text \<open>The three-way reading of an amount that \<open>action_message\<close> and
  \<open>reload_request_message\<close> share.\<close>

definition amount_from_json :: "'j ext \<Rightarrow> string \<Rightarrow> 'j \<Rightarrow> exn + i64" where
  "amount_from_json J field v =
     (if is_number_integer J v then get_int64 J v
      else if is_number_unsigned J v then get_uint64 J v
      else bindE (get_double J v) (dollars_to_cents J field))"

subsection \<open>Reading messages\<close>

definition player_stack_from_json :: "'j ext \<Rightarrow> 'j \<Rightarrow> exn + player_stack" where
  "player_stack_from_json J j =
     bindE (at_int J j ''seat'') (\<lambda>seat.
     bindE (at_int64 J j ''stack'') (\<lambda>stack.
     Inr \<lparr>ps_seat = seat, ps_stack = stack\<rparr>))"

definition handshake_message_from_json :: "'j ext \<Rightarrow> 'j \<Rightarrow> exn + handshake_message" where
  "handshake_message_from_json J j =
     bindE (at_string J j ''protocol_version'') (\<lambda>v.
     bindE (optional_at J j ''client_name'' (get_string J)) (\<lambda>name.
     Inr \<lparr>hm_protocol_version = v, hm_client_name = name\<rparr>))"

definition handshake_response_from_json :: "'j ext \<Rightarrow> 'j \<Rightarrow> exn + handshake_response" where
  "handshake_response_from_json J j =
     bindE (at_string J j ''session_id'') (\<lambda>sid.
     bindE (at_int J j ''seat_number'') (\<lambda>seat.
     bindE (at_int64 J j ''starting_stack'') (\<lambda>stack.
     Inr \<lparr>hr_session_id = sid, hr_seat_number = seat, hr_starting_stack = stack\<rparr>)))"

definition action_message_from_json :: "'j ext \<Rightarrow> 'j \<Rightarrow> exn + action_message" where
  "action_message_from_json J j =
     bindE (at_string J j ''session_id'') (\<lambda>sid.
     bindE (at_string J j ''action_type'') (\<lambda>ty.
     bindE (at_int64 J j ''sequence_number'') (\<lambda>seq.
     bindE (optional_at J j ''amount'' (amount_from_json J ''amount'')) (\<lambda>amount.
     Inr \<lparr>am_session_id = sid, am_action_type = ty, am_amount = amount,
          am_sequence_number = seq\<rparr>))))"

definition get_string_array :: "'j ext \<Rightarrow> 'j \<Rightarrow> exn + string list" where
  "get_string_array J v = bindE (get_array J v) (mapE (get_string J))"

definition state_update_message_from_json :: "'j ext \<Rightarrow> 'j \<Rightarrow> exn + state_update_message" where
  "state_update_message_from_json J j =
     bindE (at_string J j ''game_phase'') (\<lambda>phase.
     bindE (at_int64 J j ''pot_size'') (\<lambda>pot.
     bindE (at_int64 J j ''current_bet'') (\<lambda>bet.
     bindE (bindE (j_at J j ''player_stacks'')
              (\<lambda>v. bindE (get_array J v) (mapE (player_stack_from_json J)))) (\<lambda>stacks.
     bindE (bindE (j_at J j ''valid_actions'') (get_string_array J)) (\<lambda>actions.
     bindE (optional_at J j ''community_cards'' (get_string_array J)) (\<lambda>community.
     bindE (optional_at J j ''hole_cards'' (get_string_array J)) (\<lambda>hole.
     bindE (optional_at J j ''acting_seat'' (get_int J)) (\<lambda>seat.
     Inr \<lparr>su_game_phase = phase, su_pot_size = pot, su_current_bet = bet,
          su_player_stacks = stacks, su_community_cards = community, su_hole_cards = hole,
          su_valid_actions = actions, su_acting_seat = seat\<rparr>))))))))"

definition error_message_from_json :: "'j ext \<Rightarrow> 'j \<Rightarrow> exn + error_message" where
  "error_message_from_json J j =
     bindE (at_string J j ''error_code'') (\<lambda>code.
     bindE (at_string J j ''message'') (\<lambda>msg.
     bindE (optional_at J j ''session_id'' (get_string J)) (\<lambda>sid.
     Inr \<lparr>em_error_code = code, em_message = msg, em_session_id = sid\<rparr>)))"

definition reload_request_message_from_json :: "'j ext \<Rightarrow> 'j \<Rightarrow> exn + reload_request_message" where
  "reload_request_message_from_json J j =
     bindE (at_string J j ''session_id'') (\<lambda>sid.
     bindE (j_at J j ''requested_amount'') (\<lambda>amt.
     bindE (amount_from_json J ''requested_amount'' amt) (\<lambda>amount.
     Inr \<lparr>rq_session_id = sid, rq_requested_amount = amount\<rparr>)))"

definition reload_response_message_from_json :: "'j ext \<Rightarrow> 'j \<Rightarrow> exn + reload_response_message" where
  "reload_response_message_from_json J j =
     bindE (bindE (j_at J j ''granted'') (get_bool J)) (\<lambda>granted.
     bindE (at_int64 J j ''new_stack'') (\<lambda>stack.
     Inr \<lparr>rr_granted = granted, rr_new_stack = stack\<rparr>))"

definition disconnect_message_from_json :: "'j ext \<Rightarrow> 'j \<Rightarrow> exn + disconnect_message" where
  "disconnect_message_from_json J j =
     bindE (at_string J j ''session_id'') (\<lambda>sid.
     bindE (optional_at J j ''reason'' (get_string J)) (\<lambda>reason.
     Inr \<lparr>dm_session_id = sid, dm_reason = reason\<rparr>))"

definition message_envelope_from_json :: "'j ext \<Rightarrow> 'j \<Rightarrow> exn + 'j message_envelope" where
  "message_envelope_from_json J j =
     bindE (at_string J j ''message_type'') (\<lambda>ty.
     bindE (at_string J j ''protocol_version'') (\<lambda>v.
     bindE (j_at J j ''payload'') (\<lambda>payload.
     Inr \<lparr>env_message_type = ty, env_protocol_version = v, env_payload = payload\<rparr>)))"

subsection \<open>Writing messages\<close>

definition player_stack_to_json :: "'j ext \<Rightarrow> player_stack \<Rightarrow> 'j" where
  "player_stack_to_json J p =
     mk_object J [(''seat'', of_int64 J (scast (ps_seat p))), (''stack'', of_int64 J (ps_stack p))]"

definition handshake_message_to_json :: "'j ext \<Rightarrow> handshake_message \<Rightarrow> 'j" where
  "handshake_message_to_json J m =
     set_optional J ''client_name'' (of_string J) (hm_client_name m)
       (mk_object J [(''protocol_version'', of_string J (hm_protocol_version m))])"

definition handshake_response_to_json :: "'j ext \<Rightarrow> handshake_response \<Rightarrow> 'j" where
  "handshake_response_to_json J m =
     mk_object J [(''session_id'', of_string J (hr_session_id m)),
                  (''seat_number'', of_int64 J (scast (hr_seat_number m))),
                  (''starting_stack'', of_int64 J (hr_starting_stack m))]"

definition action_message_to_json :: "'j ext \<Rightarrow> action_message \<Rightarrow> 'j" where
  "action_message_to_json J m =
     set_optional J ''amount'' (of_int64 J) (am_amount m)
       (mk_object J [(''session_id'', of_string J (am_session_id m)),
                     (''action_type'', of_string J (am_action_type m)),
                     (''sequence_number'', of_int64 J (am_sequence_number m))])"

definition string_array :: "'j ext \<Rightarrow> string list \<Rightarrow> 'j" where
  "string_array J ss = of_array J (map (of_string J) ss)"

definition state_update_message_to_json :: "'j ext \<Rightarrow> state_update_message \<Rightarrow> 'j" where
  "state_update_message_to_json J m =
     set_optional J ''acting_seat'' (\<lambda>s. of_int64 J (scast s)) (su_acting_seat m)
       (set_optional J ''hole_cards'' (string_array J) (su_hole_cards m)
         (set_optional J ''community_cards'' (string_array J) (su_community_cards m)
           (mk_object J
             [(''game_phase'', of_string J (su_game_phase m)),
              (''pot_size'', of_int64 J (su_pot_size m)),
              (''current_bet'', of_int64 J (su_current_bet m)),
              (''player_stacks'', of_array J (map (player_stack_to_json J) (su_player_stacks m))),
              (''valid_actions'', string_array J (su_valid_actions m))])))"

definition error_message_to_json :: "'j ext \<Rightarrow> error_message \<Rightarrow> 'j" where
  "error_message_to_json J m =
     set_optional J ''session_id'' (of_string J) (em_session_id m)
       (mk_object J [(''error_code'', of_string J (em_error_code m)),
                     (''message'', of_string J (em_message m))])"

definition reload_request_message_to_json :: "'j ext \<Rightarrow> reload_request_message \<Rightarrow> 'j" where
  "reload_request_message_to_json J m =
     mk_object J [(''session_id'', of_string J (rq_session_id m)),
                  (''requested_amount'', of_int64 J (rq_requested_amount m))]"

definition reload_response_message_to_json :: "'j ext \<Rightarrow> reload_response_message \<Rightarrow> 'j" where
  "reload_response_message_to_json J m =
     mk_object J [(''granted'', of_bool_json J (rr_granted m)),
                  (''new_stack'', of_int64 J (rr_new_stack m))]"

definition disconnect_message_to_json :: "'j ext \<Rightarrow> disconnect_message \<Rightarrow> 'j" where
  "disconnect_message_to_json J m =
     set_optional J ''reason'' (of_string J) (dm_reason m)
       (mk_object J [(''session_id'', of_string J (dm_session_id m))])"

definition message_envelope_to_json :: "'j ext \<Rightarrow> 'j message_envelope \<Rightarrow> 'j" where
  "message_envelope_to_json J m =
     mk_object J [(''message_type'', of_string J (env_message_type m)),
                  (''protocol_version'', of_string J (env_protocol_version m)),
                  (''payload'', env_payload m)]"

subsection \<open>Reading back what was written\<close>

context json_laws
begin

lemma at_string_mk:
  "distinct (map fst kvs) \<Longrightarrow> map_of kvs k = Some (of_string J s) \<Longrightarrow>
     at_string J (mk_object J kvs) k = Inr s"
  by (simp add: at_string_def at_object string_of)

lemma at_int64_mk:
  "distinct (map fst kvs) \<Longrightarrow> map_of kvs k = Some (of_int64 J x) \<Longrightarrow>
     at_int64 J (mk_object J kvs) k = Inr x"
  by (simp add: at_int64_def at_object int64_of)

lemma at_int_mk:
  "distinct (map fst kvs) \<Longrightarrow> map_of kvs k = Some (of_int64 J (scast y)) \<Longrightarrow>
     at_int J (mk_object J kvs) k = Inr y"
  by (simp add: at_int_def at_object int_of)

lemma at_string_set_optional:
  "is_object J j \<Longrightarrow> k' \<noteq> k \<Longrightarrow> at_string J (set_optional J k f x j) k' = at_string J j k'"
  by (simp add: at_string_def at_set_optional_other)

lemma at_int64_set_optional:
  "is_object J j \<Longrightarrow> k' \<noteq> k \<Longrightarrow> at_int64 J (set_optional J k f x j) k' = at_int64 J j k'"
  by (simp add: at_int64_def at_set_optional_other)

text \<open>An optional member is read back as it was set, when its key is not among the others.\<close>

lemma optional_at_set:
  assumes "is_object J j" "\<not> j_contains J j k"
    and "\<And>v. g (f v) = Inr v" "\<And>v. \<not> is_null J (f v)"
  shows "optional_at J (set_optional J k f x j) k g = Inr x"
proof (cases x)
  case None
  then show ?thesis using assms(2) by (simp add: set_optional_def optional_at_def)
next
  case (Some v)
  have a: "j_at J (set_key J j k (f v)) k = Inr (f v)" using assms(1) by (rule at_set_same)
  then have "j_contains J (set_key J j k (f v)) k" by (auto simp: contains_at)
  then show ?thesis
    using Some assms(3,4) subscript_at [OF a] by (simp add: set_optional_def optional_at_def)
qed

lemma optional_at_set_other:
  assumes "is_object J j" "k' \<noteq> k"
  shows "optional_at J (set_optional J k f x j) k' g = optional_at J j k' g"
proof (cases "j_contains J j k'")
  case False
  then show ?thesis using assms by (simp add: optional_at_def contains_set_optional_other)
next
  case True
  then obtain v where v: "j_at J j k' = Inr v" by (auto simp: contains_at)
  then have "j_at J (set_optional J k f x j) k' = Inr v"
    using assms by (simp add: at_set_optional_other)
  then show ?thesis
    using v True assms by (simp add: optional_at_def contains_set_optional_other subscript_at)
qed

lemmas roundtrip_simps = at_string_set_optional at_int64_set_optional optional_at_set
  optional_at_set_other object_mk object_set_optional at_string_mk at_int64_mk at_int_mk
  at_set_optional_other string_of int64_of int_of bool_of array_of at_object_missing
  string_not_null int64_not_null array_not_null

lemma string_array_roundtrip: "get_string_array J (string_array J ss) = Inr ss"
  by (simp add: get_string_array_def string_array_def array_of string_of mapE_all_Inr)

lemma player_stack_roundtrip: "player_stack_from_json J (player_stack_to_json J p) = Inr p"
  by (simp add: player_stack_from_json_def player_stack_to_json_def roundtrip_simps)

lemma handshake_message_roundtrip:
  "handshake_message_from_json J (handshake_message_to_json J m) = Inr m"
  by (simp add: handshake_message_from_json_def handshake_message_to_json_def roundtrip_simps)

lemma handshake_response_roundtrip:
  "handshake_response_from_json J (handshake_response_to_json J m) = Inr m"
  by (simp add: handshake_response_from_json_def handshake_response_to_json_def roundtrip_simps)

lemma amount_roundtrip: "amount_from_json J field (of_int64 J x) = Inr x"
  by (simp add: amount_from_json_def int64_integer int64_of)

lemma action_message_roundtrip:
  "action_message_from_json J (action_message_to_json J m) = Inr m"
  by (simp add: action_message_from_json_def action_message_to_json_def roundtrip_simps
      amount_roundtrip)

lemma error_message_roundtrip:
  "error_message_from_json J (error_message_to_json J m) = Inr m"
  by (simp add: error_message_from_json_def error_message_to_json_def roundtrip_simps)

lemma reload_request_message_roundtrip:
  "reload_request_message_from_json J (reload_request_message_to_json J m) = Inr m"
  by (simp add: reload_request_message_from_json_def reload_request_message_to_json_def
      roundtrip_simps at_object amount_roundtrip)

lemma reload_response_message_roundtrip:
  "reload_response_message_from_json J (reload_response_message_to_json J m) = Inr m"
  by (simp add: reload_response_message_from_json_def reload_response_message_to_json_def
      roundtrip_simps at_object)

lemma disconnect_message_roundtrip:
  "disconnect_message_from_json J (disconnect_message_to_json J m) = Inr m"
  by (simp add: disconnect_message_from_json_def disconnect_message_to_json_def roundtrip_simps)

lemma state_update_message_roundtrip:
  "state_update_message_from_json J (state_update_message_to_json J m) = Inr m"
proof -
  have stacks: "mapE (player_stack_from_json J) (map (player_stack_to_json J) ps) = Inr ps" for ps
    by (rule mapE_all_Inr) (rule player_stack_roundtrip)
  have not_null: "\<not> is_null J (string_array J ss)" for ss
    by (simp add: string_array_def array_not_null)
  show ?thesis
    by (simp add: state_update_message_from_json_def state_update_message_to_json_def
        roundtrip_simps at_object stacks string_array_roundtrip not_null
        contains_set_optional_other)
qed

lemma message_envelope_roundtrip:
  "message_envelope_from_json J (message_envelope_to_json J m) = Inr m"
  by (simp add: message_envelope_from_json_def message_envelope_to_json_def roundtrip_simps
      at_object)

end

end
