(* ===== verification/Protocol.thy ===== *)
theory Protocol
  imports Protocol_Messages
begin

text \<open>
  \<^verbatim>\<open>src/common/protocol.cpp\<close>: parsing, validation and serialisation. A function
  that logs through \<open>log_protocol_error\<close> returns the messages it logs, in order, beside its
  result; who receives them is decided by the installed error logger (theory
  \<open>Metrics\<close>). Serialisation can throw (\<open>dump\<close> rejects invalid UTF-8) and returns a sum.
\<close>

type_synonym 'a logged = "string list \<times> 'a"

subsection \<open>Character and session-id checks\<close>

definition is_printable_ascii :: "char \<Rightarrow> bool" where
  "is_printable_ascii c \<longleftrightarrow> 32 \<le> (of_char c :: nat) \<and> (of_char c :: nat) < 127"

definition is_valid_session_id_char :: "char \<Rightarrow> bool" where
  "is_valid_session_id_char c \<longleftrightarrow>
     (CHR ''a'' \<le> c \<and> c \<le> CHR ''z'') \<or> (CHR ''0'' \<le> c \<and> c \<le> CHR ''9'') \<or> c = CHR ''_''"

definition validate_session_id_format :: "string \<Rightarrow> bool" where
  "validate_session_id_format sid =
     (if length sid < 6 \<or> length sid > MAX_SESSION_ID_LENGTH then False
      else if sid ! 0 \<noteq> CHR ''s'' \<or> sid ! 1 \<noteq> CHR ''e'' \<or> sid ! 2 \<noteq> CHR ''s'' \<or>
              sid ! 3 \<noteq> CHR ''s'' \<or> sid ! 4 \<noteq> CHR ''_'' then False
      else list_all is_valid_session_id_char (drop 5 sid))"

definition MAX_MESSAGE_TYPE_LENGTH :: nat where "MAX_MESSAGE_TYPE_LENGTH = 32"
definition MAX_CLIENT_NAME_LENGTH :: nat where "MAX_CLIENT_NAME_LENGTH = 128"
definition MAX_DISCONNECT_REASON_LENGTH :: nat where "MAX_DISCONNECT_REASON_LENGTH = 256"

definition get_valid_action_types :: "string list" where
  "get_valid_action_types = [FOLD, CHECK, CALL, RAISE, ALL_IN]"

definition get_amount_required_types :: "string list" where
  "get_amount_required_types = [RAISE, ALL_IN]"

definition get_amount_forbidden_types :: "string list" where
  "get_amount_forbidden_types = [FOLD, CHECK, CALL]"

definition validate_session_id_field :: "string \<Rightarrow> string \<Rightarrow> bool logged" where
  "validate_session_id_field session_id message_name =
     (if session_id = [] \<or> \<not> validate_session_id_format session_id
      then ([''[Protocol] Invalid session_id in '' @ message_name @ '' message''], False)
      else ([], True))"

subsection \<open>Message headers\<close>

record 'j parsed_message_header =
  ph_message_type :: string
  ph_envelope_json :: 'j

definition extract_message_type_and_json :: "'j ext \<Rightarrow> string \<Rightarrow> 'j parsed_message_header option logged" where
  "extract_message_type_and_json J json_str =
     (let result =
        bindE (j_parse J json_str) (\<lambda>j.
          if j_contains J j ''message_type'' \<and> is_string J (j_subscript J j ''message_type'')
          then bindE (get_string J (j_subscript J j ''message_type'')) (\<lambda>msg_type.
            Inr (if length msg_type > MAX_MESSAGE_TYPE_LENGTH
                 then ([''[Protocol] message_type exceeds maximum length''], None)
                 else ([], Some \<lparr>ph_message_type = msg_type, ph_envelope_json = j\<rparr>)))
          else Inr ([''[Protocol] Missing or invalid 'message_type' field in message''], None))
      in case result of
           Inl e \<Rightarrow> ([''[Protocol] JSON parse error in extract_message_type: '' @ what e], None)
         | Inr r \<Rightarrow> r)"

definition extract_message_type :: "'j ext \<Rightarrow> string \<Rightarrow> string option logged" where
  "extract_message_type J json_str =
     (case extract_message_type_and_json J json_str of
        (logs, result) \<Rightarrow> (logs, map_option ph_message_type result))"

subsection \<open>Serialisation\<close>

definition serialize_message :: "'j ext \<Rightarrow> 'j \<Rightarrow> string \<Rightarrow> exn + string" where
  "serialize_message J payload message_type =
     j_dump J (message_envelope_to_json J
       \<lparr>env_message_type = message_type, env_protocol_version = PROTOCOL_VERSION,
        env_payload = payload\<rparr>) (- 1)"

definition serialize_state_update :: "'j ext \<Rightarrow> state_update_message \<Rightarrow> exn + string" where
  "serialize_state_update J msg = serialize_message J (state_update_message_to_json J msg) STATE_UPDATE"

definition serialize_error :: "'j ext \<Rightarrow> error_message \<Rightarrow> exn + string" where
  "serialize_error J msg = serialize_message J (error_message_to_json J msg) ERROR"

definition serialize_handshake_response :: "'j ext \<Rightarrow> handshake_response \<Rightarrow> exn + string" where
  "serialize_handshake_response J msg =
     serialize_message J (handshake_response_to_json J msg) HANDSHAKE_RESPONSE"

definition serialize_reload_response :: "'j ext \<Rightarrow> reload_response_message \<Rightarrow> exn + string" where
  "serialize_reload_response J msg =
     serialize_message J (reload_response_message_to_json J msg) RELOAD_RESPONSE"

subsection \<open>Parsing an envelope\<close>

definition parse_error_log :: "string \<Rightarrow> exn \<Rightarrow> string" where
  "parse_error_log message_name e = ''[Protocol] '' @ message_name @ '' Parse Error: '' @ what e"

definition parse_from_envelope ::
  "'j ext \<Rightarrow> ('j \<Rightarrow> exn + 'a) \<Rightarrow> 'j \<Rightarrow> string \<Rightarrow> string \<Rightarrow> 'a option logged" where
  "parse_from_envelope J from_json envelope_json expected_type message_name =
     (case message_envelope_from_json J envelope_json of
        Inl e \<Rightarrow> ([parse_error_log message_name e], None)
      | Inr envelope \<Rightarrow>
          if env_message_type envelope \<noteq> expected_type then ([], None)
          else if env_protocol_version envelope \<noteq> PROTOCOL_VERSION
          then ([''[Protocol] '' @ message_name @ '' version mismatch: expected '' @
                 PROTOCOL_VERSION @ '', got '' @ env_protocol_version envelope], None)
          else (case from_json (env_payload envelope) of
                  Inl e \<Rightarrow> ([parse_error_log message_name e], None)
                | Inr msg \<Rightarrow> ([], Some msg)))"

definition parse_message ::
  "'j ext \<Rightarrow> ('j \<Rightarrow> exn + 'a) \<Rightarrow> string \<Rightarrow> string \<Rightarrow> string \<Rightarrow> 'a option logged" where
  "parse_message J from_json json_str expected_type message_name =
     (case j_parse J json_str of
        Inl e \<Rightarrow> ([parse_error_log message_name e], None)
      | Inr j \<Rightarrow> parse_from_envelope J from_json j expected_type message_name)"

subsection \<open>HANDSHAKE\<close>

text \<open>The loop over the client name: stops at the first non-printable character
  (\<open>None\<close>), otherwise tells whether every character was a blank.\<close>

fun scan_client_name :: "string \<Rightarrow> bool \<Rightarrow> bool option" where
  "scan_client_name [] all_blank = Some all_blank"
| "scan_client_name (c # cs) all_blank =
     (if \<not> is_printable_ascii c then None
      else scan_client_name cs (if c \<noteq> CHR '' '' then False else all_blank))"

definition check_handshake :: "handshake_message \<Rightarrow> string \<Rightarrow> handshake_message option logged" where
  "check_handshake msg envelope_version =
     (if hm_protocol_version msg = [] then
        ([''[Protocol] Empty protocol_version in HANDSHAKE message''], None)
      else if (case hm_client_name msg of None \<Rightarrow> False | Some name \<Rightarrow> length name > MAX_CLIENT_NAME_LENGTH)
      then ([''[Protocol] Client name exceeds maximum length''], None)
      else case map_option (\<lambda>name. scan_client_name name True) (hm_client_name msg) of
          Some None \<Rightarrow> ([''[Protocol] Client name contains non-printable characters''], None)
        | Some (Some True) \<Rightarrow> ([''[Protocol] Client name is blank/whitespace-only''], None)
        | _ \<Rightarrow>
            if hm_protocol_version msg \<noteq> envelope_version
            then ([''[Protocol] Handshake version mismatch between payload and envelope''], None)
            else ([], Some msg))"

definition parse_handshake :: "'j ext \<Rightarrow> string \<Rightarrow> handshake_message option logged" where
  "parse_handshake J json_str =
     (let result =
        bindE (j_parse J json_str) (\<lambda>j.
        bindE (message_envelope_from_json J j) (\<lambda>envelope.
          if env_message_type envelope \<noteq> HANDSHAKE then Inr ([], None)
          else bindE (handshake_message_from_json J (env_payload envelope)) (\<lambda>msg.
            Inr (check_handshake msg (env_protocol_version envelope)))))
      in case result of
           Inl e \<Rightarrow> ([''[Protocol] Handshake Parse Error: '' @ what e], None)
         | Inr r \<Rightarrow> r)"

subsection \<open>ACTION\<close>

definition validate_action :: "action_message option \<Rightarrow> action_message option logged" where
  "validate_action result =
     (case result of None \<Rightarrow> ([], None) | Some msg \<Rightarrow>
        (case validate_session_id_field (am_session_id msg) ''ACTION'' of
           (logs, False) \<Rightarrow> (logs, None)
         | (_, True) \<Rightarrow>
             if sint (am_sequence_number msg) < 0 then
               ([''[Protocol] Negative sequence_number in ACTION message''], None)
             else if am_action_type msg = [] then
               ([''[Protocol] Empty action_type in ACTION message''], None)
             else if am_action_type msg \<notin> set get_valid_action_types then
               ([''[Protocol] Invalid action_type: '' @ trunc_field (am_action_type msg) 64], None)
             else if (case am_amount msg of None \<Rightarrow> False
                      | Some a \<Rightarrow> sint a \<le> 0 \<or> sint a > MAX_AMOUNT) then
               ([''[Protocol] Invalid amount in action: must be positive and within bounds''], None)
             else if am_action_type msg \<in> set get_amount_required_types \<and> am_amount msg = None then
               ([''[Protocol] '' @ trunc_field (am_action_type msg) 64 @
                 '' action requires amount field''], None)
             else if am_action_type msg \<in> set get_amount_forbidden_types \<and> am_amount msg \<noteq> None then
               ([''[Protocol] '' @ trunc_field (am_action_type msg) 64 @
                 '' action should not have amount field''], None)
             else ([], Some msg)))"

text \<open>The parse step and the validation after it log one after the other.\<close>

definition and_then :: "'a option logged \<Rightarrow> ('a option \<Rightarrow> 'b option logged) \<Rightarrow> 'b option logged" where
  "and_then p f = (case p of (logs, r) \<Rightarrow> (case f r of (logs', r') \<Rightarrow> (logs @ logs', r')))"

definition parse_action :: "'j ext \<Rightarrow> string \<Rightarrow> action_message option logged" where
  "parse_action J json_str =
     and_then (parse_message J (action_message_from_json J) json_str ACTION ''Action'') validate_action"

definition parse_action_from_envelope :: "'j ext \<Rightarrow> 'j \<Rightarrow> action_message option logged" where
  "parse_action_from_envelope J envelope_json =
     and_then (parse_from_envelope J (action_message_from_json J) envelope_json ACTION ''Action'')
       validate_action"

subsection \<open>RELOAD_REQUEST\<close>

definition validate_reload :: "reload_request_message option \<Rightarrow> reload_request_message option logged" where
  "validate_reload result =
     (case result of None \<Rightarrow> ([], None) | Some msg \<Rightarrow>
        (case validate_session_id_field (rq_session_id msg) ''RELOAD_REQUEST'' of
           (logs, False) \<Rightarrow> (logs, None)
         | (_, True) \<Rightarrow>
             if sint (rq_requested_amount msg) \<le> 0 \<or> sint (rq_requested_amount msg) > MAX_AMOUNT then
               ([''[Protocol] Invalid reload amount: must be positive and within bounds''], None)
             else ([], Some msg)))"

definition parse_reload_request :: "'j ext \<Rightarrow> string \<Rightarrow> reload_request_message option logged" where
  "parse_reload_request J json_str =
     and_then (parse_message J (reload_request_message_from_json J) json_str RELOAD_REQUEST
                 ''Reload Request'') validate_reload"

definition parse_reload_from_envelope :: "'j ext \<Rightarrow> 'j \<Rightarrow> reload_request_message option logged" where
  "parse_reload_from_envelope J envelope_json =
     and_then (parse_from_envelope J (reload_request_message_from_json J) envelope_json RELOAD_REQUEST
                 ''Reload Request'') validate_reload"

subsection \<open>DISCONNECT\<close>

definition validate_disconnect :: "disconnect_message option \<Rightarrow> disconnect_message option logged" where
  "validate_disconnect result =
     (case result of None \<Rightarrow> ([], None) | Some msg \<Rightarrow>
        (case validate_session_id_field (dm_session_id msg) ''DISCONNECT'' of
           (logs, False) \<Rightarrow> (logs, None)
         | (_, True) \<Rightarrow>
             (case dm_reason msg of
                None \<Rightarrow> ([], Some msg)
              | Some reason \<Rightarrow>
                  if length reason > MAX_DISCONNECT_REASON_LENGTH then
                    ([''[Protocol] Disconnect reason exceeds maximum length''], None)
                  else if \<not> list_all is_printable_ascii reason then
                    ([''[Protocol] Disconnect reason contains non-printable characters''], None)
                  else ([], Some msg))))"

definition parse_disconnect :: "'j ext \<Rightarrow> string \<Rightarrow> disconnect_message option logged" where
  "parse_disconnect J json_str =
     and_then (parse_message J (disconnect_message_from_json J) json_str DISCONNECT ''Disconnect'')
       validate_disconnect"

definition parse_disconnect_from_envelope :: "'j ext \<Rightarrow> 'j \<Rightarrow> disconnect_message option logged" where
  "parse_disconnect_from_envelope J envelope_json =
     and_then (parse_from_envelope J (disconnect_message_from_json J) envelope_json DISCONNECT
                 ''Disconnect'') validate_disconnect"

subsection \<open>What the checks accept\<close>

text \<open>Specifications that do not follow the shape of the code.\<close>

definition well_formed_session_id :: "string \<Rightarrow> bool" where
  "well_formed_session_id sid \<longleftrightarrow>
     (\<exists>rest. sid = ''sess_'' @ rest \<and> rest \<noteq> [] \<and> length sid \<le> 128 \<and>
        (\<forall>c \<in> set rest. c \<in> {CHR ''a''..CHR ''z''} \<union> {CHR ''0''..CHR ''9''} \<union> {CHR ''_''}))"

definition amount_in_bounds :: "i64 \<Rightarrow> bool" where
  "amount_in_bounds a \<longleftrightarrow> 0 < sint a \<and> sint a \<le> MAX_AMOUNT"

text \<open>An action is acceptable when its session id is well formed, its sequence number is
  not negative and its amount fits its type: a bounded amount for RAISE and ALL_IN, none for
  the others.\<close>

definition action_acceptable :: "action_message \<Rightarrow> bool" where
  "action_acceptable m \<longleftrightarrow>
     well_formed_session_id (am_session_id m) \<and> 0 \<le> sint (am_sequence_number m) \<and>
     (case am_amount m of
        None \<Rightarrow> am_action_type m \<in> {FOLD, CHECK, CALL}
      | Some a \<Rightarrow> am_action_type m \<in> {RAISE, ALL_IN} \<and> amount_in_bounds a)"

definition reload_acceptable :: "reload_request_message \<Rightarrow> bool" where
  "reload_acceptable m \<longleftrightarrow>
     well_formed_session_id (rq_session_id m) \<and> amount_in_bounds (rq_requested_amount m)"

definition printable_text :: "string \<Rightarrow> bool" where
  "printable_text s \<longleftrightarrow> (\<forall>c \<in> set s. c \<in> {CHR '' ''..CHR ''~''})"

definition disconnect_acceptable :: "disconnect_message \<Rightarrow> bool" where
  "disconnect_acceptable m \<longleftrightarrow>
     well_formed_session_id (dm_session_id m) \<and>
     (case dm_reason m of None \<Rightarrow> True | Some r \<Rightarrow> length r \<le> 256 \<and> printable_text r)"

definition client_name_acceptable :: "string \<Rightarrow> bool" where
  "client_name_acceptable name \<longleftrightarrow>
     length name \<le> 128 \<and> printable_text name \<and> (\<exists>c \<in> set name. c \<noteq> CHR '' '')"

definition handshake_acceptable :: "handshake_message \<Rightarrow> string \<Rightarrow> bool" where
  "handshake_acceptable m envelope_version \<longleftrightarrow>
     hm_protocol_version m \<noteq> [] \<and> hm_protocol_version m = envelope_version \<and>
     (case hm_client_name m of None \<Rightarrow> True | Some n \<Rightarrow> client_name_acceptable n)"

lemma is_printable_ascii_iff: "is_printable_ascii c \<longleftrightarrow> c \<in> {CHR '' ''..CHR ''~''}"
  by (auto simp: is_printable_ascii_def less_eq_char_def)

lemma session_id_char_iff:
  "is_valid_session_id_char c \<longleftrightarrow>
     c \<in> {CHR ''a''..CHR ''z''} \<union> {CHR ''0''..CHR ''9''} \<union> {CHR ''_''}"
  by (auto simp: is_valid_session_id_char_def)

lemma take_5_conv: "5 \<le> length s \<Longrightarrow> take 5 s = [s ! 0, s ! 1, s ! 2, s ! 3, s ! 4]"
  by (cases s; cases "tl s"; cases "tl (tl s)"; cases "tl (tl (tl s))"; cases "tl (tl (tl (tl s)))")
    auto

lemma take_prefix_iff: "length p = n \<Longrightarrow> take n s = p \<longleftrightarrow> (\<exists>r. s = p @ r)"
  by (metis append_eq_conv_conj append_take_drop_id)

lemma session_prefix_iff:
  assumes "6 \<le> length sid"
  shows "(sid ! 0 = CHR ''s'' \<and> sid ! 1 = CHR ''e'' \<and> sid ! 2 = CHR ''s'' \<and> sid ! 3 = CHR ''s'' \<and>
      sid ! 4 = CHR ''_'') \<longleftrightarrow> (\<exists>rest. sid = ''sess_'' @ rest)"
proof -
  have "take 5 sid = [sid ! 0, sid ! 1, sid ! 2, sid ! 3, sid ! 4]"
    using assms by (intro take_5_conv) simp
  moreover have "take 5 sid = ''sess_'' \<longleftrightarrow> (\<exists>rest. sid = ''sess_'' @ rest)"
    by (rule take_prefix_iff) simp
  ultimately show ?thesis by simp
qed

lemma validate_session_id_format_iff: "validate_session_id_format sid \<longleftrightarrow> well_formed_session_id sid"
proof
  assume v: "validate_session_id_format sid"
  then have l: "6 \<le> length sid" "length sid \<le> 128"
    by (auto simp: validate_session_id_format_def MAX_SESSION_ID_LENGTH_def split: if_splits)
  obtain rest where r: "sid = ''sess_'' @ rest"
    using v l session_prefix_iff [OF l(1)] by (auto simp: validate_session_id_format_def split: if_splits)
  have "\<forall>c \<in> set rest. is_valid_session_id_char c"
    using v by (simp add: validate_session_id_format_def list_all_iff r split: if_splits)
  moreover have "rest \<noteq> []" using l(1) r by auto
  ultimately show "well_formed_session_id sid"
    unfolding well_formed_session_id_def session_id_char_iff using l(2) r by blast
next
  assume "well_formed_session_id sid"
  then obtain rest where r: "sid = ''sess_'' @ rest" "rest \<noteq> []" "length sid \<le> 128"
    "\<forall>c \<in> set rest. is_valid_session_id_char c"
    unfolding well_formed_session_id_def session_id_char_iff by blast
  have "0 < length rest" using r(2) by simp
  then show "validate_session_id_format sid"
    using r(3,4) by (simp add: validate_session_id_format_def r(1) MAX_SESSION_ID_LENGTH_def list_all_iff)
qed

lemma well_formed_session_id_nonempty: "well_formed_session_id sid \<Longrightarrow> sid \<noteq> []"
  by (auto simp: well_formed_session_id_def)

lemma validate_session_id_field_eq:
  "validate_session_id_field sid name =
     (if well_formed_session_id sid then ([], True)
      else ([''[Protocol] Invalid session_id in '' @ name @ '' message''], False))"
  using well_formed_session_id_nonempty [of sid]
  by (auto simp: validate_session_id_field_def validate_session_id_format_iff)

lemma scan_client_name_eq:
  "scan_client_name name b =
     (if printable_text name then Some (b \<and> (\<forall>c \<in> set name. c = CHR '' '')) else None)"
  by (induction name arbitrary: b) (auto simp: printable_text_def is_printable_ascii_iff)

text \<open>Either the message comes back unchanged and nothing is logged, or it is refused with
  exactly one log line.\<close>

definition accepts :: "('a \<Rightarrow> 'a option logged) \<Rightarrow> ('a \<Rightarrow> bool) \<Rightarrow> bool" where
  "accepts f P \<longleftrightarrow> (\<forall>m. if P m then f m = ([], Some m) else (\<exists>l. f m = ([l], None)))"

lemma acceptsI:
  "(\<And>m. P m \<Longrightarrow> f m = ([], Some m)) \<Longrightarrow> (\<And>m. \<not> P m \<Longrightarrow> \<exists>l. f m = ([l], None)) \<Longrightarrow> accepts f P"
  by (simp add: accepts_def)

lemma acceptsD:
  assumes "accepts f P"
  shows "P m \<Longrightarrow> f m = ([], Some m)" and "\<not> P m \<Longrightarrow> \<exists>l. f m = ([l], None)"
    and "snd (f m) = Some m' \<longleftrightarrow> P m \<and> m' = m" and "fst (f m) = [] \<longleftrightarrow> P m"
proof -
  show 1: "P m \<Longrightarrow> f m = ([], Some m)" and 2: "\<not> P m \<Longrightarrow> \<exists>l. f m = ([l], None)"
    using assms unfolding accepts_def by metis+
  show "snd (f m) = Some m' \<longleftrightarrow> P m \<and> m' = m" and "fst (f m) = [] \<longleftrightarrow> P m"
    using 1 2 by (cases "P m"; fastforce)+
qed

lemma action_types_distinct:
  "FOLD \<noteq> []" "CHECK \<noteq> []" "CALL \<noteq> []" "RAISE \<noteq> []" "ALL_IN \<noteq> []"
  "{FOLD, CHECK, CALL} \<inter> {RAISE, ALL_IN} = {}"
  by (simp_all add: action_type_defs)

lemma validate_action_accepts: "accepts (\<lambda>m. validate_action (Some m)) action_acceptable"
proof (rule acceptsI)
  fix m assume "action_acceptable m"
  then show "validate_action (Some m) = ([], Some m)"
    using action_types_distinct
    by (auto simp: action_acceptable_def validate_action_def validate_session_id_field_eq
        get_valid_action_types_def get_amount_required_types_def get_amount_forbidden_types_def
        amount_in_bounds_def split: option.splits)
next
  fix m assume "\<not> action_acceptable m"
  then show "\<exists>l. validate_action (Some m) = ([l], None)"
    by (auto simp: action_acceptable_def validate_action_def validate_session_id_field_eq
        get_valid_action_types_def get_amount_required_types_def get_amount_forbidden_types_def
        amount_in_bounds_def split: option.splits)
qed

lemma validate_reload_accepts: "accepts (\<lambda>m. validate_reload (Some m)) reload_acceptable"
  by (rule acceptsI) (auto simp: validate_reload_def validate_session_id_field_eq
      reload_acceptable_def amount_in_bounds_def)

lemma validate_disconnect_accepts: "accepts (\<lambda>m. validate_disconnect (Some m)) disconnect_acceptable"
  by (rule acceptsI) (auto simp: validate_disconnect_def validate_session_id_field_eq
      disconnect_acceptable_def MAX_DISCONNECT_REASON_LENGTH_def list_all_iff printable_text_def
      is_printable_ascii_iff split: option.splits)

lemma check_handshake_accepts:
  "accepts (\<lambda>m. check_handshake m v) (\<lambda>m. handshake_acceptable m v)"
proof (rule acceptsI)
  fix m assume "handshake_acceptable m v"
  then show "check_handshake m v = ([], Some m)"
    by (cases "hm_client_name m")
      (auto simp: check_handshake_def handshake_acceptable_def client_name_acceptable_def
        scan_client_name_eq MAX_CLIENT_NAME_LENGTH_def split: bool.split)
next
  fix m assume n: "\<not> handshake_acceptable m v"
  show "\<exists>l. check_handshake m v = ([l], None)"
  proof (cases "hm_client_name m")
    case None
    then show ?thesis using n by (auto simp: check_handshake_def handshake_acceptable_def)
  next
    case (Some a)
    then have "hm_protocol_version m = [] \<or> hm_protocol_version m \<noteq> v \<or> 128 < length a \<or>
        \<not> printable_text a \<or> (\<forall>c \<in> set a. c = CHR '' '')"
      using n by (auto simp: handshake_acceptable_def client_name_acceptable_def)
    then show ?thesis
      by (simp add: check_handshake_def Some scan_client_name_eq MAX_CLIENT_NAME_LENGTH_def
          split: bool.split) metis
  qed
qed

end
