(* ===== verification/Json_Reference.thy ===== *)
theory Json_Reference
  imports Json_Api
begin

text \<open>
  A concrete instance of the JSON interface: the kinds of values the library
  distinguishes (a string with the byte 0xFF, which no UTF-8 text contains, is refused by
  \<open>dump\<close>, as the library refuses invalid UTF-8), objects as association lists whose first entry wins, and a prefix-code text
  format with a parser for it (the text format itself is the library's business; the code
  only ever passes texts through). It shows that the laws of \<open>json_laws\<close> and
  \<open>json_text\<close> hold together, and it is the instance the witnesses of the development
  compute with.
\<close>

datatype jval =
    JNull | JBool bool | JInt i64 | JUnsigned u64 | JFloat double | JString string
  | JArray "jval list" | JObject "(string \<times> jval) list"

subsection \<open>Access\<close>

definition type_error :: exn where
  "type_error = Json_exception ''type_error''"

definition missing_key :: exn where
  "missing_key = Json_exception ''key not found''"

fun ref_at :: "jval \<Rightarrow> string \<Rightarrow> exn + jval" where
  "ref_at (JObject kvs) k = (case map_of kvs k of None \<Rightarrow> Inl missing_key | Some v \<Rightarrow> Inr v)"
| "ref_at _ k = Inl type_error"

definition ref_contains :: "jval \<Rightarrow> string \<Rightarrow> bool" where
  "ref_contains j k = (case ref_at j k of Inl _ \<Rightarrow> False | Inr _ \<Rightarrow> True)"

definition ref_subscript :: "jval \<Rightarrow> string \<Rightarrow> jval" where
  "ref_subscript j k = (case ref_at j k of Inl _ \<Rightarrow> JNull | Inr v \<Rightarrow> v)"

fun ref_set_key :: "jval \<Rightarrow> string \<Rightarrow> jval \<Rightarrow> jval" where
  "ref_set_key (JObject kvs) k v = JObject ((k, v) # kvs)"
| "ref_set_key _ k v = JObject [(k, v)]"

fun ref_get_int64 :: "jval \<Rightarrow> exn + i64" where
  "ref_get_int64 (JInt x) = Inr x"
| "ref_get_int64 (JUnsigned x) = Inr x"
| "ref_get_int64 (JFloat (Fin x)) = Inr (word_of_int (trunc_rat x))"
| "ref_get_int64 _ = Inl type_error"

fun ref_get_double :: "jval \<Rightarrow> exn + double" where
  "ref_get_double (JInt x) = Inr (double_of_int (sint x))"
| "ref_get_double (JUnsigned x) = Inr (double_of_int (uint x))"
| "ref_get_double (JFloat d) = Inr d"
| "ref_get_double _ = Inl type_error"

subsection \<open>Text\<close>

fun enc_string :: "string \<Rightarrow> string" where
  "enc_string [] = ''.''"
| "enc_string (c # cs) = CHR ''c'' # c # enc_string cs"

fun dec_string :: "string \<Rightarrow> (string \<times> string) option" where
  "dec_string [] = None"
| "dec_string [a] = (if a = CHR ''.'' then Some ([], []) else None)"
| "dec_string (a # c # r) =
     (if a = CHR ''.'' then Some ([], c # r)
      else if a = CHR ''c'' then map_option (\<lambda>(s, t). (c # s, t)) (dec_string r)
      else None)"

definition enc_word :: "u64 \<Rightarrow> string" where
  "enc_word w = map (\<lambda>i. if bit w i then CHR ''1'' else CHR ''0'') [0..<64]"

definition dec_word :: "string \<Rightarrow> u64 \<times> string" where
  "dec_word s = (horner_sum of_bool 2 (map (\<lambda>c. c = CHR ''1'') (take 64 s)), drop 64 s)"

fun enc :: "jval \<Rightarrow> string" where
  "enc JNull = ''n''"
| "enc (JBool b) = (if b then ''t'' else ''f'')"
| "enc (JInt x) = CHR ''i'' # enc_word x"
| "enc (JUnsigned x) = CHR ''u'' # enc_word x"
| "enc (JFloat d) = ''d''"
| "enc (JString s) = CHR ''s'' # enc_string s"
| "enc (JArray vs) = CHR ''a'' # concat (map (\<lambda>v. CHR '','' # enc v) vs) @ ''.''"
| "enc (JObject kvs) =
     CHR ''o'' # concat (map (\<lambda>(k, v). CHR '','' # enc_string k @ enc v) kvs) @ ''.''"

fun printable :: "jval \<Rightarrow> bool" where
  "printable (JFloat d) = False"
| "printable (JString s) = (CHR 0xFF \<notin> set s)"
| "printable (JArray vs) = (\<forall>v \<in> set vs. printable v)"
| "printable (JObject kvs) = (\<forall>(k, v) \<in> set kvs. printable v)"
| "printable _ = True"

fun dec :: "nat \<Rightarrow> string \<Rightarrow> (jval \<times> string) option"
  and dec_elems :: "nat \<Rightarrow> string \<Rightarrow> (jval list \<times> string) option"
  and dec_members :: "nat \<Rightarrow> string \<Rightarrow> ((string \<times> jval) list \<times> string) option" where
  "dec 0 s = None"
| "dec (Suc n) [] = None"
| "dec (Suc n) (c # s) =
     (if c = CHR ''n'' then Some (JNull, s)
      else if c = CHR ''t'' then Some (JBool True, s)
      else if c = CHR ''f'' then Some (JBool False, s)
      else if c = CHR ''i'' then (case dec_word s of (w, r) \<Rightarrow> Some (JInt w, r))
      else if c = CHR ''u'' then (case dec_word s of (w, r) \<Rightarrow> Some (JUnsigned w, r))
      else if c = CHR ''s'' then map_option (\<lambda>(t, r). (JString t, r)) (dec_string s)
      else if c = CHR ''a'' then map_option (\<lambda>(vs, r). (JArray vs, r)) (dec_elems n s)
      else if c = CHR ''o'' then map_option (\<lambda>(kvs, r). (JObject kvs, r)) (dec_members n s)
      else None)"
| "dec_elems 0 s = None"
| "dec_elems (Suc n) [] = None"
| "dec_elems (Suc n) (c # s) =
     (if c = CHR ''.'' then Some ([], s)
      else case dec n s of None \<Rightarrow> None
        | Some (v, r) \<Rightarrow> map_option (\<lambda>(vs, t). (v # vs, t)) (dec_elems n r))"
| "dec_members 0 s = None"
| "dec_members (Suc n) [] = None"
| "dec_members (Suc n) (c # s) =
     (if c = CHR ''.'' then Some ([], s)
      else case dec_string s of None \<Rightarrow> None
        | Some (k, r) \<Rightarrow> (case dec n r of None \<Rightarrow> None
            | Some (v, t) \<Rightarrow> map_option (\<lambda>(kvs, t'). ((k, v) # kvs, t')) (dec_members n t)))"

definition ref_parse :: "string \<Rightarrow> exn + jval" where
  "ref_parse s =
     (case dec (Suc (length s)) s of
        Some (v, []) \<Rightarrow> Inr v
      | _ \<Rightarrow> Inl (Json_exception ''parse_error''))"

definition ref_dump :: "jval \<Rightarrow> int \<Rightarrow> exn + string" where
  "ref_dump j indent = (if printable j then Inr (enc j) else Inl type_error)"

definition ref_json :: "jval ext" where
  "ref_json = \<lparr>
     j_parse = ref_parse, j_parse_stream = ref_parse, j_dump = ref_dump,
     j_contains = ref_contains, j_at = ref_at, j_subscript = ref_subscript,
     is_object = (\<lambda>j. case j of JObject _ \<Rightarrow> True | _ \<Rightarrow> False),
     is_null = (\<lambda>j. j = JNull),
     is_string = (\<lambda>j. case j of JString _ \<Rightarrow> True | _ \<Rightarrow> False),
     is_boolean = (\<lambda>j. case j of JBool _ \<Rightarrow> True | _ \<Rightarrow> False),
     is_number = (\<lambda>j. case j of JInt _ \<Rightarrow> True | JUnsigned _ \<Rightarrow> True | JFloat _ \<Rightarrow> True | _ \<Rightarrow> False),
     is_number_integer = (\<lambda>j. case j of JInt _ \<Rightarrow> True | JUnsigned _ \<Rightarrow> True | _ \<Rightarrow> False),
     is_number_unsigned = (\<lambda>j. case j of JUnsigned _ \<Rightarrow> True | _ \<Rightarrow> False),
     get_string = (\<lambda>j. case j of JString s \<Rightarrow> Inr s | _ \<Rightarrow> Inl type_error),
     get_int64 = ref_get_int64, get_uint64 = ref_get_int64,
     get_int = (\<lambda>j. case j of JBool b \<Rightarrow> Inr (of_bool b)
                 | _ \<Rightarrow> bindE (ref_get_int64 j) (\<lambda>x. Inr (ucast x))),
     get_double = ref_get_double,
     get_bool = (\<lambda>j. case j of JBool b \<Rightarrow> Inr b | _ \<Rightarrow> Inl type_error),
     get_array = (\<lambda>j. case j of JArray vs \<Rightarrow> Inr vs | _ \<Rightarrow> Inl type_error),
     of_string = JString, of_int64 = JInt, of_uint64 = JUnsigned, of_double = JFloat,
     of_bool_json = JBool, of_array = JArray, mk_object = JObject, set_key = ref_set_key,
     cast_out_of_range = (\<lambda>_. - (2 ^ 63)) \<rparr>"

lemma ref_json_sel [simp]:
  "j_parse ref_json = ref_parse" "j_parse_stream ref_json = ref_parse" "j_dump ref_json = ref_dump"
  "j_contains ref_json = ref_contains" "j_at ref_json = ref_at" "j_subscript ref_json = ref_subscript"
  "is_object ref_json (JObject kvs)" "is_null ref_json j \<longleftrightarrow> j = JNull"
  "get_int64 ref_json = ref_get_int64" "get_uint64 ref_json = ref_get_int64"
  "get_double ref_json = ref_get_double"
  "of_string ref_json = JString" "of_int64 ref_json = JInt" "of_uint64 ref_json = JUnsigned"
  "of_double ref_json = JFloat" "of_bool_json ref_json = JBool" "of_array ref_json = JArray"
  "mk_object ref_json = JObject" "set_key ref_json = ref_set_key"
  "cast_out_of_range ref_json = (\<lambda>_. - (2 ^ 63))"
  "get_string ref_json (JString s) = Inr s" "is_string ref_json (JString s)"
  "is_number ref_json (JInt x)" "is_number ref_json (JUnsigned x)" "is_number ref_json (JFloat d)"
  "is_number_integer ref_json (JInt x)" "is_number_integer ref_json (JUnsigned x)"
  "\<not> is_number_integer ref_json (JFloat d)"
  by (simp_all add: ref_json_def)

lemma ucast_scast_32: "ucast (scast (y :: i32) :: i64) = y"
proof (rule bit_word_eqI)
  fix n assume n: "n < LENGTH(32)"
  then have "31 \<le> n \<longleftrightarrow> n = 31" by auto
  with n show "bit (ucast (scast y :: i64) :: i32) n = bit y n"
    by (auto simp: bit_simps min_def)
qed

interpretation ref: json_laws ref_json
proof
  show "j_contains ref_json j k = (\<exists>v. j_at ref_json j k = Inr v)" for j k
    by (simp add: ref_contains_def split: sum.split)
  show "is_object ref_json j \<Longrightarrow> is_object ref_json (set_key ref_json j k v)"
    and "is_object ref_json j \<Longrightarrow> j_at ref_json (set_key ref_json j k v) k = Inr v"
    and "is_object ref_json j \<Longrightarrow> k' \<noteq> k \<Longrightarrow>
           j_at ref_json (set_key ref_json j k v) k' = j_at ref_json j k'" for j k k' v
    by (cases j; simp add: ref_json_def)+
  show "get_int ref_json (of_int64 ref_json (scast y)) = Inr y" for y
    by (simp add: ref_json_def ucast_scast_32)
  show "get_string ref_json v = Inr s \<Longrightarrow> is_string ref_json v" for v s
    by (cases v) (simp_all add: ref_json_def)
  show "k \<notin> fst ` set kvs \<Longrightarrow> \<not> j_contains ref_json (mk_object ref_json kvs) k" for k kvs
    by (simp add: ref_contains_def map_of_eq_None_iff split: option.split)
qed (simp_all add: ref_json_def ref_subscript_def)

subsection \<open>The text format is faithful\<close>

lemma dec_enc_string [simp]: "dec_string (enc_string s @ r) = Some (s, r)"
proof (induction s)
  case Nil
  then show ?case by (cases r) simp_all
qed simp

lemma length_enc_word [simp]: "length (enc_word w) = 64"
  by (simp add: enc_word_def)

lemma dec_enc_word [simp]: "dec_word (enc_word w @ r) = (w, r)"
proof -
  have "map (\<lambda>c. c = CHR ''1'') (enc_word w) = map (bit w) [0..<64]"
    by (auto simp: enc_word_def)
  then have "horner_sum of_bool 2 (map (\<lambda>c. c = CHR ''1'') (enc_word w)) = w"
    by (simp only: horner_sum_bit_eq_take_bit take_bit_length_eq)
      (simp add: take_bit_word_eq_self)
  then show ?thesis by (simp add: dec_word_def)
qed

lemma dec_elems_enc:
  assumes "\<And>v n r. v \<in> set vs \<Longrightarrow> length (enc v) \<le> n \<Longrightarrow> dec n (enc v @ r) = Some (v, r)"
    and "Suc (length (concat (map (\<lambda>v. CHR '','' # enc v) vs))) \<le> n"
  shows "dec_elems n (concat (map (\<lambda>v. CHR '','' # enc v) vs) @ CHR ''.'' # r) = Some (vs, r)"
  using assms
proof (induction vs arbitrary: n)
  case Nil
  then show ?case by (cases n) simp_all
next
  case (Cons v vs)
  then obtain m where n: "n = Suc m" by (cases n) simp_all
  have "dec m (enc v @ concat (map (\<lambda>v. CHR '','' # enc v) vs) @ CHR ''.'' # r) =
      Some (v, concat (map (\<lambda>v. CHR '','' # enc v) vs) @ CHR ''.'' # r)"
    using Cons.prems n by simp
  moreover have "dec_elems m (concat (map (\<lambda>v. CHR '','' # enc v) vs) @ CHR ''.'' # r) = Some (vs, r)"
    using Cons.prems n by (intro Cons.IH) simp_all
  ultimately show ?case by (simp add: n)
qed

lemma dec_members_enc:
  assumes "\<And>k v n r. (k, v) \<in> set kvs \<Longrightarrow> length (enc v) \<le> n \<Longrightarrow> dec n (enc v @ r) = Some (v, r)"
    and "Suc (length (concat (map (\<lambda>(k, v). CHR '','' # enc_string k @ enc v) kvs))) \<le> n"
  shows "dec_members n (concat (map (\<lambda>(k, v). CHR '','' # enc_string k @ enc v) kvs) @ CHR ''.'' # r)
           = Some (kvs, r)"
  using assms
proof (induction kvs arbitrary: n)
  case Nil
  then show ?case by (cases n) simp_all
next
  case (Cons kv kvs)
  obtain k v where kv: "kv = (k, v)" by (cases kv)
  from Cons.prems obtain m where n: "n = Suc m" by (cases n) simp_all
  let ?rest = "concat (map (\<lambda>(k, v). CHR '','' # enc_string k @ enc v) kvs) @ CHR ''.'' # r"
  have "dec m (enc v @ ?rest) = Some (v, ?rest)"
    using Cons.prems(1) [of k v m ?rest] Cons.prems(2) n kv by simp
  moreover have "dec_members m ?rest = Some (kvs, r)"
  proof (rule Cons.IH)
    fix k' v' n' r'
    assume "(k', v') \<in> set kvs" "length (enc v') \<le> n'"
    then show "dec n' (enc v' @ r') = Some (v', r')"
      using Cons.prems(1) [of k' v' n' r'] by simp
  qed (use Cons.prems(2) n kv in simp)
  ultimately show ?case by (simp add: n kv)
qed

lemma dec_enc: "printable j \<Longrightarrow> length (enc j) \<le> n \<Longrightarrow> dec n (enc j @ r) = Some (j, r)"
proof (induction j arbitrary: n r)
  case (JArray vs)
  then obtain m where n: "n = Suc m" by (cases n) simp_all
  have "dec_elems m (concat (map (\<lambda>v. CHR '','' # enc v) vs) @ CHR ''.'' # r) = Some (vs, r)"
    using JArray n by (intro dec_elems_enc) auto
  then show ?case by (simp add: n)
next
  case (JObject kvs)
  then obtain m where n: "n = Suc m" by (cases n) simp_all
  have "dec_members m (concat (map (\<lambda>(k, v). CHR '','' # enc_string k @ enc v) kvs) @ CHR ''.'' # r)
      = Some (kvs, r)"
    using JObject n by (intro dec_members_enc) (fastforce simp: snds.simps)+
  then show ?case by (simp add: n)
next
  case (JBool b)
  then show ?case by (cases n; cases b) simp_all
next
  case JNull
  then show ?case by (cases n) simp_all
next
  case (JInt x)
  then show ?case by (cases n) simp_all
next
  case (JUnsigned x)
  then show ?case by (cases n) simp_all
next
  case (JString s)
  then show ?case by (cases n) simp_all
next
  case (JFloat d)
  then show ?case by simp
qed

lemma ref_parse_dump: "ref_dump j i = Inr s \<Longrightarrow> ref_parse s = Inr j"
  using dec_enc [of j "Suc (length s)" "[]"]
  by (auto simp: ref_dump_def ref_parse_def split: if_splits)

interpretation ref: json_text ref_json "(=)"
proof
  show "j_dump ref_json j (- 1) = Inr s \<Longrightarrow> \<exists>j'. j_parse ref_json s = Inr j' \<and> j' = j" for j s
    using ref_parse_dump by auto
qed (auto simp: list.rel_eq)

interpretation ref: json_file ref_json "(=)"
proof
  show "j_dump ref_json j n = Inr s \<Longrightarrow> \<exists>j'. j_parse_stream ref_json s = Inr j' \<and> j' = j" for j n s
    using ref_parse_dump by auto
qed (simp_all add: ref_json_def)

interpretation ref: json_printing ref_json
proof
  fix j n s k v assume d: "j_dump ref_json j n = Inr s" and a: "j_at ref_json j k = Inr v"
  then have "printable v"
    by (cases j) (auto simp: ref_dump_def split: if_splits option.splits dest!: map_of_SomeD)
  then show "\<exists>s'. j_dump ref_json v n = Inr s'" by (simp add: ref_dump_def)
next
  fix j n s vs v assume "j_dump ref_json j n = Inr s" "get_array ref_json j = Inr vs" "v \<in> set vs"
  then have "printable v"
    by (cases j) (auto simp: ref_dump_def ref_json_def split: if_splits)
  then show "\<exists>s'. j_dump ref_json v n = Inr s'" by (simp add: ref_dump_def)
qed

end
