(* ===== verification/Protocol_Correct.thy ===== *)
theory Protocol_Correct
  imports Protocol Json_Reference
begin

text \<open>
  Correctness of \<^verbatim>\<open>protocol.cpp\<close>: each parser accepts exactly the texts whose
  envelope and payload satisfy the declarative specification, the two ways of parsing (from
  the text, from the already parsed envelope) agree, and what one side serialises the other
  side reads back. The properties are numbered as in the manifest.
\<close>

subsection \<open>The generic parsers\<close>

definition envelope_carries :: "'j ext \<Rightarrow> 'j \<Rightarrow> string \<Rightarrow> 'j \<Rightarrow> bool" where
  "envelope_carries J j ty payload \<longleftrightarrow>
     message_envelope_from_json J j =
       Inr \<lparr>env_message_type = ty, env_protocol_version = PROTOCOL_VERSION, env_payload = payload\<rparr>"

lemma parse_from_envelope_Some:
  "snd (parse_from_envelope J f j ty name) = Some m \<longleftrightarrow>
     (\<exists>payload. envelope_carries J j ty payload \<and> f payload = Inr m)"
proof (cases "message_envelope_from_json J j")
  case (Inr env)
  then show ?thesis
    by (cases env) (auto simp: parse_from_envelope_def envelope_carries_def split: sum.split)
qed (simp add: parse_from_envelope_def envelope_carries_def)

lemma parse_from_envelope_quiet:
  "snd (parse_from_envelope J f j ty name) = Some m \<Longrightarrow> fst (parse_from_envelope J f j ty name) = []"
  by (auto simp: parse_from_envelope_def split: sum.splits if_splits)

lemma parse_message_Some:
  "snd (parse_message J f s ty name) = Some m \<longleftrightarrow>
     (\<exists>j. j_parse J s = Inr j \<and> snd (parse_from_envelope J f j ty name) = Some m)"
  by (cases "j_parse J s") (simp_all add: parse_message_def)

lemma snd_and_then: "snd (and_then p f) = snd (f (snd p))"
  by (simp add: and_then_def split: prod.split)

lemma and_then_Some:
  assumes "\<And>x. f x = (case x of None \<Rightarrow> ([], None) | Some m \<Rightarrow> g m)" and "accepts g P"
  shows "snd (and_then p f) = Some m \<longleftrightarrow> snd p = Some m \<and> P m"
  using acceptsD(3) [OF assms(2)] by (cases "snd p") (auto simp: snd_and_then assms(1))

lemma and_then_quiet:
  assumes "\<And>x. f x = (case x of None \<Rightarrow> ([], None) | Some m \<Rightarrow> g m)" and "accepts g P"
    and "snd (and_then p f) = Some m"
  shows "fst (and_then p f) = fst p"
proof -
  have "snd p = Some m" "P m" using and_then_Some [OF assms(1,2)] assms(3) by blast+
  then show ?thesis using acceptsD(1) [OF assms(2), of m] by (cases p) (simp add: and_then_def assms(1))
qed

lemma validate_cases:
  "validate_action x = (case x of None \<Rightarrow> ([], None) | Some m \<Rightarrow> validate_action (Some m))"
  "validate_reload y = (case y of None \<Rightarrow> ([], None) | Some m \<Rightarrow> validate_reload (Some m))"
  "validate_disconnect z = (case z of None \<Rightarrow> ([], None) | Some m \<Rightarrow> validate_disconnect (Some m))"
  by (simp_all add: validate_action_def validate_reload_def validate_disconnect_def split: option.split)

lemmas and_then_action = and_then_Some [OF validate_cases(1) validate_action_accepts]
lemmas and_then_reload = and_then_Some [OF validate_cases(2) validate_reload_accepts]
lemmas and_then_disconnect = and_then_Some [OF validate_cases(3) validate_disconnect_accepts]

lemma parse_action_from_envelope_Some:
  "snd (parse_action_from_envelope J j) = Some m \<longleftrightarrow>
     (\<exists>payload. envelope_carries J j ACTION payload \<and>
        action_message_from_json J payload = Inr m) \<and> action_acceptable m"
  by (simp add: parse_action_from_envelope_def and_then_action parse_from_envelope_Some)

lemma parse_reload_from_envelope_Some:
  "snd (parse_reload_from_envelope J j) = Some m \<longleftrightarrow>
     (\<exists>payload. envelope_carries J j RELOAD_REQUEST payload \<and>
        reload_request_message_from_json J payload = Inr m) \<and> reload_acceptable m"
  by (simp add: parse_reload_from_envelope_def and_then_reload parse_from_envelope_Some)

lemma parse_disconnect_from_envelope_Some:
  "snd (parse_disconnect_from_envelope J j) = Some m \<longleftrightarrow>
     (\<exists>payload. envelope_carries J j DISCONNECT payload \<and>
        disconnect_message_from_json J payload = Inr m) \<and> disconnect_acceptable m"
  by (simp add: parse_disconnect_from_envelope_def and_then_disconnect parse_from_envelope_Some)

text \<open>The two entry points differ only in who parsed the text.\<close>

lemma parse_text_or_envelope:
  assumes "j_parse J s = Inr j"
  shows "parse_action J s = parse_action_from_envelope J j"
    and "parse_reload_request J s = parse_reload_from_envelope J j"
    and "parse_disconnect J s = parse_disconnect_from_envelope J j"
  by (simp_all add: assms parse_action_def parse_action_from_envelope_def parse_reload_request_def
      parse_reload_from_envelope_def parse_disconnect_def parse_disconnect_from_envelope_def
      parse_message_def)

lemma parse_text_fails:
  assumes "j_parse J s = Inl e"
  shows "snd (parse_action J s) = None" "snd (parse_reload_request J s) = None"
    and "snd (parse_disconnect J s) = None" "snd (parse_handshake J s) = None"
  by (simp_all add: assms parse_action_def parse_reload_request_def parse_disconnect_def
      parse_handshake_def parse_message_def and_then_def validate_cases split: prod.split)

lemma parse_action_Some:
  "snd (parse_action J s) = Some m \<longleftrightarrow>
     (\<exists>j. j_parse J s = Inr j \<and> snd (parse_action_from_envelope J j) = Some m)"
  by (cases "j_parse J s") (simp_all add: parse_text_or_envelope parse_text_fails)

lemma parse_reload_Some:
  "snd (parse_reload_request J s) = Some m \<longleftrightarrow>
     (\<exists>j. j_parse J s = Inr j \<and> snd (parse_reload_from_envelope J j) = Some m)"
  by (cases "j_parse J s") (simp_all add: parse_text_or_envelope parse_text_fails)

lemma parse_disconnect_Some:
  "snd (parse_disconnect J s) = Some m \<longleftrightarrow>
     (\<exists>j. j_parse J s = Inr j \<and> snd (parse_disconnect_from_envelope J j) = Some m)"
  by (cases "j_parse J s") (simp_all add: parse_text_or_envelope parse_text_fails)

lemma parse_handshake_Some:
  "snd (parse_handshake J s) = Some m \<longleftrightarrow>
     (\<exists>j v payload. j_parse J s = Inr j \<and>
        message_envelope_from_json J j =
          Inr \<lparr>env_message_type = HANDSHAKE, env_protocol_version = v, env_payload = payload\<rparr> \<and>
        handshake_message_from_json J payload = Inr m \<and> handshake_acceptable m v)"
proof (cases "j_parse J s")
  case (Inr j)
  show ?thesis
  proof (cases "message_envelope_from_json J j")
    case (Inr env)
    then show ?thesis
      using \<open>j_parse J s = Inr j\<close> acceptsD(3) [OF check_handshake_accepts]
      by (cases env; cases "handshake_message_from_json J (env_payload env)")
        (auto simp: parse_handshake_def)
  qed (simp add: parse_handshake_def \<open>j_parse J s = Inr j\<close>)
qed (simp add: parse_handshake_def)

lemma extract_message_type_and_json_Some:
  "snd (extract_message_type_and_json J s) = Some h \<longleftrightarrow>
     j_parse J s = Inr (ph_envelope_json h) \<and>
     j_contains J (ph_envelope_json h) ''message_type'' \<and>
     is_string J (j_subscript J (ph_envelope_json h) ''message_type'') \<and>
     get_string J (j_subscript J (ph_envelope_json h) ''message_type'') = Inr (ph_message_type h) \<and>
     length (ph_message_type h) \<le> MAX_MESSAGE_TYPE_LENGTH"
proof (cases "j_parse J s")
  case (Inr j)
  then show ?thesis
    by (cases h; cases "get_string J (j_subscript J j ''message_type'')")
      (auto simp: extract_message_type_and_json_def)
qed (auto simp: extract_message_type_and_json_def)

subsection \<open>Printing and reading back\<close>

context json_text
begin

lemma same_envelope:
  assumes "same a b" "message_envelope_from_json J b = Inr env"
  shows "\<exists>p. message_envelope_from_json J a = Inr (env\<lparr>env_payload := p\<rparr>) \<and> same p (env_payload env)"
proof -
  from assms(2) have s: "at_string J b ''message_type'' = Inr (env_message_type env)"
    "at_string J b ''protocol_version'' = Inr (env_protocol_version env)"
    "j_at J b ''payload'' = Inr (env_payload env)"
    by (auto simp: message_envelope_from_json_def)
  from same_at [OF assms(1) s(3)] obtain p where p: "j_at J a ''payload'' = Inr p" "same p (env_payload env)"
    by blast
  then show ?thesis
    using same_at_string [OF assms(1) s(1)] same_at_string [OF assms(1) s(2)]
    by (intro exI [of _ p]) (simp add: message_envelope_from_json_def)
qed

lemma serialize_message_parse:
  assumes "serialize_message J payload ty = Inr s"
  shows "\<exists>j p. j_parse J s = Inr j \<and> envelope_carries J j ty p \<and> same p payload"
proof -
  let ?env = "\<lparr>env_message_type = ty, env_protocol_version = PROTOCOL_VERSION, env_payload = payload\<rparr>"
  from assms obtain j where j: "j_parse J s = Inr j" "same j (message_envelope_to_json J ?env)"
    using parse_dump by (auto simp: serialize_message_def)
  from same_envelope [OF j(2) message_envelope_roundtrip] show ?thesis
    using j(1) by (auto simp: envelope_carries_def)
qed

lemma same_mapE:
  assumes f: "\<And>u v y. same u v \<Longrightarrow> f v = Inr y \<Longrightarrow> f u = Inr y"
  shows "list_all2 same us vs \<Longrightarrow> mapE f vs = Inr ys \<Longrightarrow> mapE f us = Inr ys"
  by (induction us vs arbitrary: ys rule: list_all2_induct) (auto intro: f)

lemma same_get_string_array:
  assumes "same u v" "get_string_array J v = Inr ss"
  shows "get_string_array J u = Inr ss"
proof -
  from assms(2) obtain vs where vs: "get_array J v = Inr vs" "mapE (get_string J) vs = Inr ss"
    by (auto simp: get_string_array_def)
  from same_array [OF assms(1) vs(1)] obtain us where "get_array J u = Inr us" "list_all2 same us vs"
    by blast
  then show ?thesis using same_mapE [OF same_string _ vs(2)] by (simp add: get_string_array_def)
qed

lemma same_optional_string:
  "same a b \<Longrightarrow> optional_at J b k (get_string J) = Inr x \<Longrightarrow> optional_at J a k (get_string J) = Inr x"
  by (erule same_optional_at, assumption, rule same_string)

lemma same_optional_string_array:
  "same a b \<Longrightarrow> optional_at J b k (get_string_array J) = Inr x \<Longrightarrow>
     optional_at J a k (get_string_array J) = Inr x"
  by (erule same_optional_at, assumption, rule same_get_string_array)

lemma same_optional_int:
  "same a b \<Longrightarrow> optional_at J b k (get_int J) = Inr x \<Longrightarrow> optional_at J a k (get_int J) = Inr x"
  by (erule same_optional_at, assumption, rule same_int)

lemmas same_intros = same_at_string same_at_int same_at_int64 same_optional_string
  same_optional_string_array same_optional_int

lemma same_handshake_message:
  "same a b \<Longrightarrow> handshake_message_from_json J b = Inr m \<Longrightarrow> handshake_message_from_json J a = Inr m"
  by (auto simp: handshake_message_from_json_def intro: same_intros)

lemma same_handshake_response:
  "same a b \<Longrightarrow> handshake_response_from_json J b = Inr m \<Longrightarrow> handshake_response_from_json J a = Inr m"
  by (auto simp: handshake_response_from_json_def intro: same_intros)

lemma same_error_message:
  "same a b \<Longrightarrow> error_message_from_json J b = Inr m \<Longrightarrow> error_message_from_json J a = Inr m"
  by (auto simp: error_message_from_json_def intro: same_intros)

lemma same_disconnect_message:
  "same a b \<Longrightarrow> disconnect_message_from_json J b = Inr m \<Longrightarrow> disconnect_message_from_json J a = Inr m"
  by (auto simp: disconnect_message_from_json_def intro: same_intros)

lemma same_reload_response_message:
  assumes "same a b" "reload_response_message_from_json J b = Inr m"
  shows "reload_response_message_from_json J a = Inr m"
proof -
  from assms(2) obtain v where "j_at J b ''granted'' = Inr v" "get_bool J v = Inr (rr_granted m)"
    "at_int64 J b ''new_stack'' = Inr (rr_new_stack m)"
    by (auto simp: reload_response_message_from_json_def)
  moreover from this(1) obtain u where "j_at J a ''granted'' = Inr u" "same u v"
    using same_at [OF assms(1)] by blast
  ultimately show ?thesis
    using same_bool same_at_int64 [OF assms(1)] by (simp add: reload_response_message_from_json_def)
qed

lemma same_player_stack:
  "same a b \<Longrightarrow> player_stack_from_json J b = Inr m \<Longrightarrow> player_stack_from_json J a = Inr m"
  by (auto simp: player_stack_from_json_def intro: same_intros)

lemma same_array_at:
  assumes s: "same a b" and g: "bindE (j_at J b k) (\<lambda>v. bindE (get_array J v) (mapE f)) = Inr ys"
    and f: "\<And>u v y. same u v \<Longrightarrow> f v = Inr y \<Longrightarrow> f u = Inr y"
  shows "bindE (j_at J a k) (\<lambda>v. bindE (get_array J v) (mapE f)) = Inr ys"
proof -
  from g obtain v vs where v: "j_at J b k = Inr v" "get_array J v = Inr vs" "mapE f vs = Inr ys"
    by auto
  from same_at [OF s v(1)] obtain u where u: "j_at J a k = Inr u" "same u v" by blast
  from same_array [OF u(2) v(2)] obtain us where us: "get_array J u = Inr us" "list_all2 same us vs"
    by blast
  then show ?thesis using same_mapE [OF f us(2) v(3)] u(1) by simp
qed

lemma same_player_stacks_at:
  "same a b \<Longrightarrow>
     bindE (j_at J b k) (\<lambda>v. bindE (get_array J v) (mapE (player_stack_from_json J))) = Inr ys \<Longrightarrow>
     bindE (j_at J a k) (\<lambda>v. bindE (get_array J v) (mapE (player_stack_from_json J))) = Inr ys"
  by (erule same_array_at, assumption, rule same_player_stack)

lemma same_string_array_at:
  assumes "same a b" "bindE (j_at J b k) (get_string_array J) = Inr ys"
  shows "bindE (j_at J a k) (get_string_array J) = Inr ys"
proof -
  from assms(2) obtain v where "j_at J b k = Inr v" "get_string_array J v = Inr ys" by auto
  with same_at [OF assms(1)] same_get_string_array show ?thesis by fastforce
qed

lemma same_state_update_message:
  assumes s: "same a b" and b: "state_update_message_from_json J b = Inr m"
  shows "state_update_message_from_json J a = Inr m"
  using b unfolding state_update_message_from_json_def
  apply -
  apply (erule bindE_step, erule same_at_string [OF s])
  apply (erule bindE_step, erule same_at_int64 [OF s])+
  apply (erule bindE_step, erule same_player_stacks_at [OF s])
  apply (erule bindE_step, erule same_string_array_at [OF s])
  apply (erule bindE_step, erule same_optional_string_array [OF s])+
  apply (erule bindE_step, erule same_optional_int [OF s])
  by assumption

text \<open>An optional amount survives, because it was written as an integer.\<close>

lemma same_action_message:
  assumes s: "same a (action_message_to_json J m)"
  shows "action_message_from_json J a = Inr m"
proof -
  let ?b = "action_message_to_json J m"
  have b: "at_string J ?b ''session_id'' = Inr (am_session_id m)"
    "at_string J ?b ''action_type'' = Inr (am_action_type m)"
    "at_int64 J ?b ''sequence_number'' = Inr (am_sequence_number m)"
    "optional_at J ?b ''amount'' (amount_from_json J ''amount'') = Inr (am_amount m)"
    by (simp_all add: action_message_to_json_def roundtrip_simps amount_roundtrip)
  have i: "is_number_integer J v" if "j_at J ?b ''amount'' = Inr v" for v
  proof (cases "am_amount m")
    case None
    then have "\<not> j_contains J ?b ''amount''"
      by (simp add: action_message_to_json_def set_optional_def at_object_missing)
    then show ?thesis using that by (simp add: contains_at)
  next
    case (Some x)
    then have "j_at J ?b ''amount'' = Inr (of_int64 J x)"
      by (simp add: action_message_to_json_def set_optional_def at_set_same object_mk)
    then show ?thesis using that int64_integer by simp
  qed
  have "optional_at J a ''amount'' (amount_from_json J ''amount'') = Inr (am_amount m)"
    using s b(4)
  proof (rule same_optional_at)
    fix u v y
    assume "same u v" "j_at J ?b ''amount'' = Inr v" "amount_from_json J ''amount'' v = Inr y"
    then show "amount_from_json J ''amount'' u = Inr y"
      using i [of v] same_integer [of u v] same_int64 [of u v y] by (simp add: amount_from_json_def)
  qed
  then show ?thesis
    using b(1-3) by (simp add: action_message_from_json_def same_at_string [OF s] same_at_int64 [OF s])
qed

lemma same_reload_request_message:
  assumes s: "same a (reload_request_message_to_json J m)"
  shows "reload_request_message_from_json J a = Inr m"
proof -
  let ?b = "reload_request_message_to_json J m"
  have b: "at_string J ?b ''session_id'' = Inr (rq_session_id m)"
    "j_at J ?b ''requested_amount'' = Inr (of_int64 J (rq_requested_amount m))"
    by (simp_all add: reload_request_message_to_json_def roundtrip_simps at_object)
  from same_at [OF s b(2)] obtain u where
    u: "j_at J a ''requested_amount'' = Inr u" "same u (of_int64 J (rq_requested_amount m))" by blast
  have "amount_from_json J ''requested_amount'' u = Inr (rq_requested_amount m)"
    using same_integer [OF u(2)] same_int64 [OF u(2) int64_of] int64_integer
    by (simp add: amount_from_json_def)
  then show ?thesis
    using u(1) same_at_string [OF s b(1)] by (simp add: reload_request_message_from_json_def)
qed

text \<open>What a client writes is understood.\<close>

lemma client_messages_understood:
  "serialize_message J (action_message_to_json J a) ACTION = Inr s \<Longrightarrow> action_acceptable a \<Longrightarrow>
     snd (parse_action J s) = Some a"
  "serialize_message J (reload_request_message_to_json J r) RELOAD_REQUEST = Inr s \<Longrightarrow> reload_acceptable r \<Longrightarrow>
     snd (parse_reload_request J s) = Some r"
  "serialize_message J (disconnect_message_to_json J d) DISCONNECT = Inr s \<Longrightarrow> disconnect_acceptable d \<Longrightarrow>
     snd (parse_disconnect J s) = Some d"
  "serialize_message J (handshake_message_to_json J h) HANDSHAKE = Inr s \<Longrightarrow>
     handshake_acceptable h PROTOCOL_VERSION \<Longrightarrow> snd (parse_handshake J s) = Some h"
  unfolding parse_action_Some parse_action_from_envelope_Some parse_reload_Some
    parse_reload_from_envelope_Some parse_disconnect_Some parse_disconnect_from_envelope_Some
    parse_handshake_Some
  using serialize_message_parse same_action_message same_reload_request_message
    same_disconnect_message [OF _ disconnect_message_roundtrip] same_handshake_message [OF _ handshake_message_roundtrip]
  unfolding envelope_carries_def by meson+

lemma extract_serialized_type:
  assumes "serialize_message J payload ty = Inr s" "length ty \<le> MAX_MESSAGE_TYPE_LENGTH"
  shows "snd (extract_message_type J s) = Some ty"
proof -
  obtain j p where j: "j_parse J s = Inr j" "envelope_carries J j ty p"
    using serialize_message_parse [OF assms(1)] by blast
  then obtain v where v: "j_at J j ''message_type'' = Inr v" "get_string J v = Inr ty"
    by (auto simp: envelope_carries_def message_envelope_from_json_def at_string_def)
  then have "snd (extract_message_type_and_json J s) = Some \<lparr>ph_message_type = ty, ph_envelope_json = j\<rparr>"
    using j(1) assms(2) subscript_at [OF v(1)] string_typed [OF v(2)]
    by (simp add: extract_message_type_and_json_Some contains_at)
  then show ?thesis by (simp add: extract_message_type_def split_def)
qed

end

subsection \<open>Properties\<close>

text \<open>C10: An ACTION text is accepted exactly when it parses to an envelope of type ACTION and
  the server's protocol version whose payload converts to the returned message, and that
  message has a well formed session id, a non-negative sequence number, and an amount within
  bounds for RAISE and ALL_IN and none for FOLD, CHECK and CALL.\<close>

theorem parse_action_accepts:
  "snd (parse_action J s) = Some m \<longleftrightarrow>
     (\<exists>j payload. j_parse J s = Inr j \<and> envelope_carries J j ACTION payload \<and>
        action_message_from_json J payload = Inr m \<and> action_acceptable m)"
  by (auto simp: parse_action_Some parse_action_from_envelope_Some)


text \<open>RELOAD_REQUEST and DISCONNECT texts are accepted exactly when envelope, payload and
  field checks (session id, amount bounds, printable reason of at most 256 characters) hold.\<close>

theorem parse_reload_disconnect_accept:
  "(snd (parse_reload_request J s) = Some r \<longleftrightarrow>
      (\<exists>j payload. j_parse J s = Inr j \<and> envelope_carries J j RELOAD_REQUEST payload \<and>
         reload_request_message_from_json J payload = Inr r \<and> reload_acceptable r)) \<and>
   (snd (parse_disconnect J s) = Some d \<longleftrightarrow>
      (\<exists>j payload. j_parse J s = Inr j \<and> envelope_carries J j DISCONNECT payload \<and>
         disconnect_message_from_json J payload = Inr d \<and> disconnect_acceptable d))"
  by (auto simp: parse_reload_Some parse_reload_from_envelope_Some parse_disconnect_Some
      parse_disconnect_from_envelope_Some)

text \<open>Reusing the JSON that \<open>extract_message_type_and_json\<close> already parsed gives the same
  result and the same log lines as parsing the text again.\<close>

theorem envelope_parse_equals_text_parse:
  assumes "snd (extract_message_type_and_json J s) = Some h"
  shows "parse_action_from_envelope J (ph_envelope_json h) = parse_action J s \<and>
     parse_reload_from_envelope J (ph_envelope_json h) = parse_reload_request J s \<and>
     parse_disconnect_from_envelope J (ph_envelope_json h) = parse_disconnect J s"
  using assms by (simp add: extract_message_type_and_json_Some parse_text_or_envelope)

definition sample_disconnect :: jval where
  "sample_disconnect =
     JObject [(''message_type'', JString ''DISCONNECT''), (''protocol_version'', JString ''v1.0''),
       (''payload'', JObject [(''session_id'', JString ''sess_a1'')])]"

lemma ref_extract_sample:
  "snd (extract_message_type_and_json ref_json (enc sample_disconnect)) =
     Some \<lparr>ph_message_type = ''DISCONNECT'', ph_envelope_json = sample_disconnect\<rparr>"
proof -
  have "ref_parse (enc sample_disconnect) = Inr sample_disconnect"
    by (rule ref_parse_dump [of _ 0]) (simp add: ref_dump_def sample_disconnect_def)
  then show ?thesis
    by (simp add: extract_message_type_and_json_Some)
      (simp add: sample_disconnect_def ref_contains_def ref_subscript_def MAX_MESSAGE_TYPE_LENGTH_def)
qed

theorem envelope_parse_equals_text_parse_witness:
  "parse_disconnect ref_json (enc sample_disconnect) = parse_disconnect_from_envelope ref_json sample_disconnect"
  using envelope_parse_equals_text_parse [OF ref_extract_sample] by simp

text \<open>C29: Whatever the server serialises (handshake response, reload response, error, state
  update), a peer that parses the text gets an envelope of the right type and version whose
  payload reads back as the same message.\<close>

theorem server_messages_roundtrip:
  assumes "json_text J same"
  shows "(serialize_handshake_response J hr = Inr s \<longrightarrow>
       (\<exists>j p. j_parse J s = Inr j \<and> envelope_carries J j HANDSHAKE_RESPONSE p \<and>
          handshake_response_from_json J p = Inr hr)) \<and>
     (serialize_reload_response J rr = Inr s \<longrightarrow>
       (\<exists>j p. j_parse J s = Inr j \<and> envelope_carries J j RELOAD_RESPONSE p \<and>
          reload_response_message_from_json J p = Inr rr)) \<and>
     (serialize_error J er = Inr s \<longrightarrow>
       (\<exists>j p. j_parse J s = Inr j \<and> envelope_carries J j ERROR p \<and>
          error_message_from_json J p = Inr er)) \<and>
     (serialize_state_update J su = Inr s \<longrightarrow>
       (\<exists>j p. j_parse J s = Inr j \<and> envelope_carries J j STATE_UPDATE p \<and>
          state_update_message_from_json J p = Inr su))"
proof -
  have laws: "json_laws J" using assms by (rule json_text.axioms(1))
  note parses = json_text.serialize_message_parse [OF assms]
  note backs = json_laws.handshake_response_roundtrip [OF laws] json_laws.reload_response_message_roundtrip [OF laws]
    json_laws.error_message_roundtrip [OF laws] json_laws.state_update_message_roundtrip [OF laws]
  note sames = json_text.same_handshake_response [OF assms] json_text.same_reload_response_message [OF assms]
    json_text.same_error_message [OF assms] json_text.same_state_update_message [OF assms]
  show ?thesis
    unfolding serialize_handshake_response_def serialize_reload_response_def serialize_error_def
      serialize_state_update_def
    using parses backs sames by meson
qed

definition sample_error :: error_message where
  "sample_error = \<lparr>em_error_code = SESSION_CLOSED, em_message = ''Idle timeout'', em_session_id = None\<rparr>"

theorem server_messages_roundtrip_witness:
  "\<exists>s. serialize_error ref_json sample_error = Inr s \<and>
     (\<exists>j p. j_parse ref_json s = Inr j \<and> envelope_carries ref_json j ERROR p \<and>
        error_message_from_json ref_json p = Inr sample_error)"
proof -
  have "\<exists>s. serialize_error ref_json sample_error = Inr s"
    by (simp add: serialize_error_def serialize_message_def ref_dump_def message_envelope_to_json_def
        error_message_to_json_def sample_error_def set_optional_def
        message_type_defs PROTOCOL_VERSION_def SESSION_CLOSED_def)
  then show ?thesis
    using server_messages_roundtrip [OF ref.json_text_axioms] by blast
qed

text \<open>C28: A client that serialises an acceptable ACTION, RELOAD_REQUEST, DISCONNECT or HANDSHAKE
  with the library's converters is understood by the server: the parser returns exactly that
  message and logs nothing.\<close>

theorem client_messages_roundtrip:
  assumes "json_text J same"
  shows "(serialize_message J (action_message_to_json J a) ACTION = Inr s \<and> action_acceptable a \<longrightarrow>
       snd (parse_action J s) = Some a) \<and>
     (serialize_message J (reload_request_message_to_json J r) RELOAD_REQUEST = Inr s \<and>
       reload_acceptable r \<longrightarrow> snd (parse_reload_request J s) = Some r) \<and>
     (serialize_message J (disconnect_message_to_json J d) DISCONNECT = Inr s \<and>
       disconnect_acceptable d \<longrightarrow> snd (parse_disconnect J s) = Some d) \<and>
     (serialize_message J (handshake_message_to_json J h) HANDSHAKE = Inr s \<and>
       handshake_acceptable h PROTOCOL_VERSION \<longrightarrow> snd (parse_handshake J s) = Some h)"
  using json_text.client_messages_understood [OF assms] by blast

definition sample_fold :: action_message where
  "sample_fold = \<lparr>am_session_id = ''sess_a1'', am_action_type = FOLD, am_amount = None,
     am_sequence_number = 7\<rparr>"

lemma sample_fold_acceptable: "action_acceptable sample_fold"
  by (simp add: action_acceptable_def sample_fold_def well_formed_session_id_def less_eq_char_def)

theorem client_messages_roundtrip_witness:
  "\<exists>s. serialize_message ref_json (action_message_to_json ref_json sample_fold) ACTION = Inr s \<and>
     snd (parse_action ref_json s) = Some sample_fold"
proof -
  have "\<exists>s. serialize_message ref_json (action_message_to_json ref_json sample_fold) ACTION = Inr s"
    by (simp add: serialize_message_def ref_dump_def message_envelope_to_json_def
        action_message_to_json_def sample_fold_def set_optional_def
        message_type_defs action_type_defs PROTOCOL_VERSION_def)
  then show ?thesis
    using client_messages_roundtrip [OF ref.json_text_axioms] sample_fold_acceptable by blast
qed

lemma int64_double:
  "double_of_int 9223372036854775807 = Fin (2 ^ 63)"
  "double_of_int (- 9223372036854775808) = Fin (- (2 ^ 63))"
proof -
  have "rnd 9223372036854775807 = 2 ^ 63" "rnd (- 9223372036854775808) = - (2 ^ 63)"
    by code_simp+
  then show "double_of_int 9223372036854775807 = Fin (2 ^ 63)"
    "double_of_int (- 9223372036854775808) = Fin (- (2 ^ 63))"
    by (simp_all add: double_of_int_def fl_computes)
qed

lemma round_product:
  assumes "rnd (x * 100) = y" "\<bar>y\<bar> \<le> 2 ^ 100"
  shows "std_round (dmul (Fin x) (fl 100)) = Fin (of_int (round_half_away y))"
  using fl_computes [OF assms] by (simp add: fl_100)

text \<open>C36: A fractional amount is read as dollars: when the double is the one nearest to \<open>c\<close>
  cents, for any whole number of cents up to the protocol's maximum, the parsed amount is
  exactly \<open>c\<close> (10.57 is 1057, never 1056).\<close>

theorem decimal_amount_exact:
  assumes "\<not> is_number_integer J v" "\<not> is_number_unsigned J v"
    and "get_double J v = Inr (fl (of_int c / 100))" and "\<bar>c\<bar> \<le> MAX_AMOUNT"
  shows "amount_from_json J field v = Inr (word_of_int c)"
proof -
  have c: "\<bar>c\<bar> \<le> 10 ^ 15" using assms(4) by (simp add: MAX_AMOUNT_def)
  have f: "isfinite (fl (of_int c / 100))"
    using dollars_to_cents_exact [OF c] by (cases "fl (of_int c / 100)") (auto simp: fl_100)
  have t: "trunc_rat (of_int c) = c" by (simp add: trunc_rat_def)
  have r: "(of_int c :: rat) \<le> 2 ^ 63" "- (2 ^ 63) \<le> (of_int c :: rat)"
    "c \<le> 9223372036854775807"
    using c by (simp_all add: abs_le_iff)
  show ?thesis
    using assms(1-3) r c
    by (simp add: amount_from_json_def dollars_to_cents_def f Let_def dollars_to_cents_exact [OF c] int64_double
        double_to_int64_def t INT64_MIN_def INT64_MAX_def not_less)
qed

theorem decimal_amount_exact_witness:
  "amount_from_json ref_json ''amount'' (JFloat (fl (1057 / 100))) = Inr 1057"
  using decimal_amount_exact [of ref_json "JFloat (fl (1057 / 100))" 1057 "''amount''"]
  by (simp add: MAX_AMOUNT_def ref_json_def)

text \<open>C37: The conversion of dollars to cents is exact for every double its guards admit: the
  \<open>int64_t\<close> it returns is the rounded number of cents, with no wrap-around. The one
  exception is \<open>2\<^sup>6\<^sup>3\<close> cents itself.\<close>

theorem dollars_to_cents_in_range:
  assumes "dollars_to_cents J field d = Inr r" and "std_round (dmul d (fl 100)) \<noteq> Fin (2 ^ 63)"
  shows "\<exists>k. std_round (dmul d (fl 100)) = Fin (of_int k) \<and> sint r = k"
proof -
  obtain x where d: "d = Fin x"
    using assms(1) by (cases d) (simp_all add: dollars_to_cents_def)
  have "dmul d (fl 100) = fl (x * 100)" by (simp add: d fl_100)
  then consider "dmul d (fl 100) = NaN" | s where "dmul d (fl 100) = Infinity s"
    | y where "dmul d (fl 100) = Fin y" by (cases "fl (x * 100)") auto
  then show ?thesis
  proof cases
    case 1
    then show ?thesis using fl_not_NaN [of "x * 100"] by (simp add: d fl_100)
  next
    case (2 s)
    then show ?thesis using assms(1)
      by (cases s) (simp_all add: dollars_to_cents_def d int64_double INT64_MAX_def INT64_MIN_def)
  next
    case (3 y)
    define k where "k = round_half_away y"
    have s: "std_round (dmul d (fl 100)) = Fin (of_int k)" by (simp add: 3 k_def)
    have g: "\<not> (2 ^ 63 :: rat) < of_int k" "\<not> (of_int k :: rat) < - (2 ^ 63)"
      "r = double_to_int64 J (Fin (of_int k))"
      using assms(1) s by (simp_all add: dollars_to_cents_def d int64_double INT64_MAX_def INT64_MIN_def Let_def
          split: if_splits)
    have "(of_int k :: rat) \<noteq> 2 ^ 63" using assms(2) s by simp
    then have "(of_int k :: rat) < of_int (2 ^ 63)" using g(1) by simp
    then have k: "k < 2 ^ 63" unfolding of_int_less_iff .
    have "(of_int (- (2 ^ 63)) :: rat) \<le> of_int k" using g(2) by simp
    then have k': "- (2 ^ 63) \<le> k" unfolding of_int_le_iff .
    have "r = word_of_int k"
      using g(3) k k' by (simp add: double_to_int64_def trunc_rat_def INT64_MAX_def INT64_MIN_def)
    then have "sint r = k" using k k'
      by (simp add: signed_take_bit_int_eq_self sint_sbintrunc')
    then show ?thesis using s by blast
  qed
qed

theorem dollars_to_cents_in_range_witness:
  "\<exists>k r. dollars_to_cents ref_json ''amount'' (Fin (21 / 2)) = Inr r \<and> sint r = k \<and> k = 1050"
proof -
  have "rnd (21 / 2 * 100) = 1050" "round_half_away 1050 = 1050" by code_simp+
  then have s: "std_round (dmul (Fin (21 / 2)) (fl 100)) = Fin 1050"
    by (simp add: round_product)
  obtain r where r: "dollars_to_cents ref_json ''amount'' (Fin (21 / 2)) = Inr r"
    unfolding dollars_to_cents_def s Let_def INT64_MAX_def INT64_MIN_def int64_double isfinite.simps dless.simps
    by (simp add: int64_double)
  from dollars_to_cents_in_range [OF r] have "sint r = 1050" by (simp add: s)
  with r show ?thesis by blast
qed

text \<open>The guard against unrepresentable amounts lets one number of cents through:
  \<open>INT64_MAX\<close> is rounded up to \<open>2\<^sup>6\<^sup>3\<close> when it is compared, so the double 92233720368547760
  (dollars) passes and its conversion to \<open>int64_t\<close> is out of range, undefined behaviour whose
  result is whatever the platform gives.\<close>

theorem dollars_to_cents_guard_gap:
  "dollars_to_cents J field (Fin 92233720368547760) = Inr (cast_out_of_range J (Fin (2 ^ 63)))"
proof -
  have "rnd (92233720368547760 * 100) = 2 ^ 63" "round_half_away (2 ^ 63) = 2 ^ 63" by code_simp+
  then have s: "std_round (dmul (Fin 92233720368547760) (fl 100)) = Fin (2 ^ 63)"
    by (subst round_product) simp_all
  show ?thesis
    unfolding dollars_to_cents_def s Let_def INT64_MAX_def INT64_MIN_def int64_double isfinite.simps dless.simps
    by (simp add: double_to_int64_def trunc_rat_def INT64_MAX_def INT64_MIN_def int64_double)
qed

end
