(* ===== verification/Validation.thy ===== *)
theory Validation
  imports Protocol
begin

text \<open>
  \<^verbatim>\<open>src/common/protocol_validation.cpp\<close>: the stand-alone validators. \<open>isalnum\<close> is
  the C function in the default locale. Each validator is related to a specification that does
  not follow its loops, and to the parser's own checks.
\<close>

definition isalnum :: "char \<Rightarrow> bool" where
  "isalnum c \<longleftrightarrow> (CHR ''0'' \<le> c \<and> c \<le> CHR ''9'') \<or> (CHR ''A'' \<le> c \<and> c \<le> CHR ''Z'') \<or>
     (CHR ''a'' \<le> c \<and> c \<le> CHR ''z'')"

definition is_valid_message_type :: "string \<Rightarrow> string list \<Rightarrow> bool" where
  "is_valid_message_type message_type allowed_types =
     (if message_type = [] then False
      else if list_ex (\<lambda>c. \<not> isalnum c \<and> c \<noteq> CHR ''_'') message_type then False
      else message_type \<in> set allowed_types)"

text \<open>\<open>std::string::find\<close> of one character.\<close>

fun find_char :: "char \<Rightarrow> string \<Rightarrow> nat option" where
  "find_char c [] = None"
| "find_char c (x # xs) = (if x = c then Some 0 else map_option Suc (find_char c xs))"

definition digits_between :: "string \<Rightarrow> nat \<Rightarrow> nat \<Rightarrow> bool" where
  "digits_between s a b = list_all (\<lambda>i. is_digit (s ! i)) [a..<b]"

definition is_valid_protocol_version :: "string \<Rightarrow> bool" where
  "is_valid_protocol_version version =
     (if version = [] then False
      else if length version < 4 \<or> version ! 0 \<noteq> CHR ''v'' then False
      else case find_char CHR ''.'' version of
          None \<Rightarrow> False
        | Some dot_pos \<Rightarrow>
            if dot_pos < 2 \<or> dot_pos = length version - 1 then False
            else digits_between version 1 dot_pos \<and>
              digits_between version (dot_pos + 1) (length version))"

definition is_valid_session_id :: "string \<Rightarrow> bool" where
  "is_valid_session_id session_id =
     (if session_id = [] then False else validate_session_id_format session_id)"

definition is_valid_action_type :: "string \<Rightarrow> bool" where
  "is_valid_action_type action_type \<longleftrightarrow>
     action_type \<in> set [''FOLD'', ''CHECK'', ''CALL'', ''RAISE'', ''ALL_IN'']"

definition is_valid_amount :: "i64 \<Rightarrow> i64 option \<Rightarrow> i64 option \<Rightarrow> bool" where
  "is_valid_amount amount min_amount max_amount =
     (if sint amount \<le> 0 then False
      else if (case min_amount of None \<Rightarrow> False | Some m \<Rightarrow> sint amount < sint m) then False
      else if (case max_amount of None \<Rightarrow> False | Some m \<Rightarrow> sint amount > sint m) then False
      else if sint amount > MAX_AMOUNT then False
      else True)"

definition is_valid_game_phase :: "string \<Rightarrow> bool" where
  "is_valid_game_phase game_phase \<longleftrightarrow>
     game_phase \<in> set [''WAITING'', ''PREFLOP'', ''FLOP'', ''TURN'', ''RIVER'', ''SHOWDOWN'',
       ''HAND_COMPLETE'']"

definition is_valid_seat_number :: "i32 \<Rightarrow> i32 \<Rightarrow> bool" where
  "is_valid_seat_number seat max_seats \<longleftrightarrow> 0 \<le> sint seat \<and> sint seat < sint max_seats"

subsection \<open>Lemmas\<close>

lemma find_char_Some:
  "find_char c s = Some n \<longleftrightarrow> n < length s \<and> s ! n = c \<and> c \<notin> set (take n s)"
proof (induction s arbitrary: n)
  case (Cons x xs)
  show ?case
  proof (cases n)
    case 0
    then show ?thesis by auto
  next
    case (Suc m)
    then show ?thesis using Cons.IH [of m] by auto
  qed
qed simp

lemma digits_between_split:
  "digits_between (p @ q @ r) (length p) (length p + length q) \<longleftrightarrow> (\<forall>c \<in> set q. is_digit c)"
proof -
  have "map (\<lambda>i. (p @ q @ r) ! i) [length p..<length p + length q] = q"
    by (rule nth_equalityI) (simp_all add: nth_append)
  then have "list_all is_digit (map (\<lambda>i. (p @ q @ r) ! i) [length p..<length p + length q]) \<longleftrightarrow>
      (\<forall>c \<in> set q. is_digit c)"
    by (simp add: list_all_iff)
  then show ?thesis by (simp add: digits_between_def list.pred_map comp_def)
qed

lemma dot_not_digit: "is_digit c \<Longrightarrow> c \<noteq> CHR ''.''"
  by (auto simp: is_digit_of_char)

lemma version_dot_at:
  assumes "version = ''v'' @ major @ ''.'' @ minor" and "\<forall>c \<in> set major. is_digit c"
  shows "find_char CHR ''.'' version = Some (Suc (length major))"
  using assms dot_not_digit by (auto simp: find_char_Some nth_append)

lemma version_intro:
  assumes v: "version = ''v'' @ major @ ''.'' @ minor" and ne: "major \<noteq> []" "minor \<noteq> []"
    and d: "\<forall>c \<in> set (major @ minor). is_digit c"
  shows "is_valid_protocol_version version"
proof -
  have l: "0 < length major" "0 < length minor" using ne by simp_all
  have f: "find_char CHR ''.'' version = Some (Suc (length major))"
    using v d by (intro version_dot_at) simp_all
  have 1: "digits_between version 1 (Suc (length major))"
    using digits_between_split [of "''v''" major "''.'' @ minor"] d v by simp
  have 2: "digits_between version (Suc (Suc (length major))) (length version)"
    using digits_between_split [of "''v'' @ major @ ''.''" minor "[]"] d v by simp
  show ?thesis
    using l 1 2 by (simp add: is_valid_protocol_version_def f del: length_greater_0_conv)
      (simp add: v ne del: length_greater_0_conv)
qed

lemma version_elim:
  assumes "is_valid_protocol_version version"
  shows "\<exists>major minor. version = ''v'' @ major @ ''.'' @ minor \<and> major \<noteq> [] \<and> minor \<noteq> [] \<and>
     (\<forall>c \<in> set (major @ minor). is_digit c)"
proof -
  obtain n where n: "find_char CHR ''.'' version = Some n" "2 \<le> n" "n \<noteq> length version - 1"
    and d: "digits_between version 1 n" "digits_between version (n + 1) (length version)"
    and v0: "version ! 0 = CHR ''v''" and len: "4 \<le> length version"
    using assms by (auto simp: is_valid_protocol_version_def split: if_splits option.splits)
  have n': "n < length version" "version ! n = CHR ''.''" using n(1) by (simp_all add: find_char_Some)
  obtain rest where r: "version = CHR ''v'' # rest" using v0 len by (cases version) auto
  define major where "major = take (n - 1) rest"
  define minor where "minor = drop n rest"
  have "rest = take (n - 1) rest @ rest ! (n - 1) # drop (Suc (n - 1)) rest"
    using n n' r by (intro id_take_nth_drop) simp
  then have v: "version = ''v'' @ major @ ''.'' @ minor"
    using n(2) n'(2) r by (simp add: major_def minor_def nth_Cons')
  have lm: "length major = n - 1" using n' r by (simp add: major_def)
  then have "major \<noteq> []" using n(2) by auto
  moreover have "minor \<noteq> []" using n(3) n'(1) r n(2) by (simp add: minor_def)
  moreover have "\<forall>c \<in> set major. is_digit c"
    using d(1) digits_between_split [of "''v''" major "''.'' @ minor"] lm n(2) v by simp
  moreover have "\<forall>c \<in> set minor. is_digit c"
    using d(2) digits_between_split [of "''v'' @ major @ ''.''" minor "[]"] lm n(2) v by simp
  ultimately show ?thesis using v by auto
qed

lemma client_types_alnum:
  "t \<in> set [HANDSHAKE, ACTION, RELOAD_REQUEST, DISCONNECT] \<Longrightarrow>
     \<not> list_ex (\<lambda>c. \<not> isalnum c \<and> c \<noteq> CHR ''_'') t \<and> t \<noteq> []"
  by (auto simp: message_type_defs isalnum_def less_eq_char_def)

subsection \<open>Properties\<close>

text \<open>A protocol version is accepted exactly when it has the form \<open>v\<close>, one or more digits,
  a dot, one or more digits.\<close>

theorem protocol_version_grammar:
  "is_valid_protocol_version version \<longleftrightarrow>
     (\<exists>major minor. version = ''v'' @ major @ ''.'' @ minor \<and> major \<noteq> [] \<and> minor \<noteq> [] \<and>
        list_all is_digit (major @ minor))"
  unfolding list_all_iff using version_intro version_elim by blast

text \<open>C38: The stand-alone validators and the parser draw the same line: an ACTION passes the
  parser's checks exactly when its session id, action type and amount (where the type takes one)
  pass the validators and its sequence number is not negative.\<close>

theorem validators_agree_with_parser:
  "snd (validate_action (Some m)) = Some m \<longleftrightarrow>
     is_valid_session_id (am_session_id m) \<and> is_valid_action_type (am_action_type m) \<and>
     0 \<le> sint (am_sequence_number m) \<and>
     (case am_amount m of
        None \<Rightarrow> am_action_type m \<notin> set get_amount_required_types
      | Some a \<Rightarrow> is_valid_amount a None None \<and> am_action_type m \<notin> set get_amount_forbidden_types)"
proof -
  have s: "is_valid_session_id sid \<longleftrightarrow> well_formed_session_id sid" for sid
    using well_formed_session_id_nonempty [of sid]
    by (auto simp: is_valid_session_id_def validate_session_id_format_iff)
  have a: "is_valid_amount x None None \<longleftrightarrow> amount_in_bounds x" for x
    by (simp add: is_valid_amount_def amount_in_bounds_def)
  have t: "is_valid_action_type x \<longleftrightarrow> x \<in> {FOLD, CHECK, CALL} \<union> {RAISE, ALL_IN}" for x
    by (auto simp: is_valid_action_type_def action_type_defs)
  show ?thesis
    unfolding acceptsD(3) [OF validate_action_accepts] action_acceptable_def s a t
      get_amount_required_types_def get_amount_forbidden_types_def
    using action_types_distinct(6) by (auto split: option.splits)
qed

end
