(* ===== verification/Session_Metrics.thy ===== *)
theory Session_Metrics
  imports Prelude Double
begin

text \<open>
  \<^verbatim>\<open>src/server/session_metrics.hpp\<close>: the counters of one session. Each is an atomic
  \<open>uint64_t\<close>; \<open>fetch_add\<close> wraps. An operation is one step: the compare-exchange loop of the
  maximum is its net effect, since a failed exchange only reloads the current maximum.
\<close>

record session_metrics =
  messages_sent :: u64
  messages_received :: u64
  errors :: u64
  total_processing_time :: u64
  processing_time_count :: u64
  max_processing_time :: u64
  total_connection_time :: u64
  connection_count :: u64
  max_connection_time :: u64
  rate_limit_exceeded :: u64
  bytes_sent :: u64
  bytes_received :: u64

definition new_session_metrics :: session_metrics where
  "new_session_metrics = \<lparr>messages_sent = 0, messages_received = 0, errors = 0,
     total_processing_time = 0, processing_time_count = 0, max_processing_time = 0,
     total_connection_time = 0, connection_count = 0, max_connection_time = 0,
     rate_limit_exceeded = 0, bytes_sent = 0, bytes_received = 0\<rparr>"

definition increment_messages_sent :: "u64 \<Rightarrow> session_metrics \<Rightarrow> session_metrics" where
  "increment_messages_sent n m = m \<lparr>messages_sent := messages_sent m + n\<rparr>"

definition increment_messages_received :: "u64 \<Rightarrow> session_metrics \<Rightarrow> session_metrics" where
  "increment_messages_received n m = m \<lparr>messages_received := messages_received m + n\<rparr>"

definition increment_errors :: "u64 \<Rightarrow> session_metrics \<Rightarrow> session_metrics" where
  "increment_errors n m = m \<lparr>errors := errors m + n\<rparr>"

text \<open>The compare-exchange loop, against an interference that changes the maximum before each
  attempt: the values other threads leave there are \<open>others\<close>, the result is what this thread
  leaves. A thread that finds a value at least as large stops.\<close>

fun raise_max :: "u64 \<Rightarrow> u64 list \<Rightarrow> u64 \<Rightarrow> u64" where
  "raise_max t [] current = (if t > current then t else current)"
| "raise_max t (o1 # others) current =
     (if t > current then raise_max t others o1 else current)"

definition update_processing_time :: "i64 \<Rightarrow> session_metrics \<Rightarrow> session_metrics" where
  "update_processing_time time m = m \<lparr>
     total_processing_time := total_processing_time m + time,
     processing_time_count := processing_time_count m + 1,
     max_processing_time := raise_max time [] (max_processing_time m)\<rparr>"

definition update_connection_duration :: "i64 \<Rightarrow> session_metrics \<Rightarrow> session_metrics" where
  "update_connection_duration duration m = m \<lparr>
     total_connection_time := total_connection_time m + duration,
     connection_count := connection_count m + 1,
     max_connection_time := raise_max duration [] (max_connection_time m)\<rparr>"

definition record_rate_limit_exceeded :: "session_metrics \<Rightarrow> session_metrics" where
  "record_rate_limit_exceeded m = m \<lparr>rate_limit_exceeded := rate_limit_exceeded m + 1\<rparr>"

definition increment_bytes_sent :: "u64 \<Rightarrow> session_metrics \<Rightarrow> session_metrics" where
  "increment_bytes_sent n m = m \<lparr>bytes_sent := bytes_sent m + n\<rparr>"

definition increment_bytes_received :: "u64 \<Rightarrow> session_metrics \<Rightarrow> session_metrics" where
  "increment_bytes_received n m = m \<lparr>bytes_received := bytes_received m + n\<rparr>"

definition get_messages_sent :: "session_metrics \<Rightarrow> u64" where "get_messages_sent m = messages_sent m"
definition get_messages_received :: "session_metrics \<Rightarrow> u64" where "get_messages_received m = messages_received m"
definition get_errors :: "session_metrics \<Rightarrow> u64" where "get_errors m = errors m"
definition get_rate_limit_exceeded_count :: "session_metrics \<Rightarrow> u64" where "get_rate_limit_exceeded_count m = rate_limit_exceeded m"
definition get_bytes_sent :: "session_metrics \<Rightarrow> u64" where "get_bytes_sent m = bytes_sent m"
definition get_bytes_received :: "session_metrics \<Rightarrow> u64" where "get_bytes_received m = bytes_received m"

definition get_average_processing_time_ms :: "session_metrics \<Rightarrow> double" where
  "get_average_processing_time_ms m =
     (if processing_time_count m = 0 then Fin 0
      else ddiv (ddiv (double_of_int (uint (total_processing_time m)))
                      (double_of_int (uint (processing_time_count m)))) (fl 1000))"

definition get_max_processing_time_ms :: "session_metrics \<Rightarrow> double" where
  "get_max_processing_time_ms m = ddiv (double_of_int (uint (max_processing_time m))) (fl 1000)"

definition get_average_connection_duration_s :: "session_metrics \<Rightarrow> double" where
  "get_average_connection_duration_s m =
     (if connection_count m = 0 then Fin 0
      else ddiv (double_of_int (uint (total_connection_time m)))
                (double_of_int (uint (connection_count m))))"

definition get_max_connection_duration_s :: "session_metrics \<Rightarrow> double" where
  "get_max_connection_duration_s m = double_of_int (uint (max_connection_time m))"

definition reset_session_metrics :: "session_metrics \<Rightarrow> session_metrics" where
  "reset_session_metrics m = m \<lparr>messages_sent := 0, messages_received := 0, errors := 0,
     total_processing_time := 0, processing_time_count := 0, max_processing_time := 0,
     total_connection_time := 0, connection_count := 0, max_connection_time := 0,
     rate_limit_exceeded := 0, bytes_sent := 0, bytes_received := 0\<rparr>"

subsection \<open>Lemmas\<close>

lemma raise_max_alone: "raise_max t [] current = max t current"
  by (cases "current < t") (auto simp: max_def)

text \<open>Whatever other threads write, as long as they only raise the maximum, the loop ends with a
  value at least as large as its own argument and every value it saw.\<close>

lemma raise_max_monotone:
  "sorted_wrt (\<le>) (current # others) \<Longrightarrow> t \<le> raise_max t others current \<and> current \<le> raise_max t others current"
  by (induction t others current rule: raise_max.induct) (auto intro: order.trans)

lemma fold_processing_time:
  "processing_time_count (fold update_processing_time ts m) = processing_time_count m + of_nat (length ts) \<and>
   total_processing_time (fold update_processing_time ts m) = total_processing_time m + sum_list ts \<and>
   max_processing_time (fold update_processing_time ts m) = fold max ts (max_processing_time m)"
  by (induction ts arbitrary: m) (simp_all add: update_processing_time_def raise_max_alone add.assoc)

lemma reset_is_new: "reset_session_metrics m = new_session_metrics"
  by (simp add: reset_session_metrics_def new_session_metrics_def)

lemma unat_sum_list:
  "(\<Sum>t\<leftarrow>ts. unat t) < 2 ^ 64 \<Longrightarrow> unat (sum_list (ts :: u64 list)) = (\<Sum>t\<leftarrow>ts. unat t)"
  by (induction ts) (simp_all add: unat_word_ariths)

text \<open>After a reset and any series of processing times, the counters hold exactly their
  number, their sum and the largest of them, as long as number and sum fit 64 bits; and a thread
  that raises the maximum while others raise it too never loses its own value.\<close>

theorem processing_times_recorded:
  assumes "ts \<noteq> []" "length ts < 2 ^ 64" "(\<Sum>t\<leftarrow>ts. unat t) < 2 ^ 64"
    and "m' = fold update_processing_time ts (reset_session_metrics m)"
    and "sorted_wrt (\<le>) (current # others)"
  shows "unat (processing_time_count m') = length ts \<and>
     unat (total_processing_time m') = (\<Sum>t\<leftarrow>ts. unat t) \<and>
     max_processing_time m' = Max (set ts) \<and>
     t \<le> raise_max t others current \<and> current \<le> raise_max t others current"
proof -
  have "max_processing_time m' = fold max ts 0"
    using assms(4) by (simp add: fold_processing_time reset_session_metrics_def)
  also have "\<dots> = Max (insert 0 (set ts))" by (metis Max.set_eq_fold list.set(2))
  also have "\<dots> = Max (set ts)" using assms(1) by simp
  finally have "max_processing_time m' = Max (set ts)" .
  then show ?thesis
    using assms(2-4) raise_max_monotone [OF assms(5), of t]
    by (simp add: fold_processing_time reset_session_metrics_def unat_sum_list unsigned_of_nat take_bit_nat_eq_self)
qed

theorem processing_times_recorded_witness:
  "max_processing_time (fold update_processing_time [3, 9, 4] (reset_session_metrics new_session_metrics)) =
     Max {3, 9, 4}"
  using processing_times_recorded [of "[3, 9, 4]" _ new_session_metrics 0 "[]" 0] by simp

end
