(* ===== verification/Logger.thy ===== *)
theory Logger
  imports Prelude
begin

text \<open>
  \<^verbatim>\<open>src/server/logger.hpp\<close>, \<^verbatim>\<open>src/server/logger.cpp\<close> and the error logger of
  \<^verbatim>\<open>src/common/protocol.cpp\<close>. A component returns the lines it logs, in order;
  \<open>log_to_stream\<close> says on which stream a line ends and with which text, given the system clock's
  reading. What is used of the C library is \<open>gmtime\<close> (the Gregorian calendar, UTC), \<open>strftime\<close> and
  \<open>snprintf\<close> with \<open>%0*d\<close>.
\<close>

datatype log_level = Log_info | Log_error

definition log_level_to_string :: "log_level \<Rightarrow> string" where
  "log_level_to_string level = (if level = Log_error then ''[ERROR]'' else ''[INFO]'')"

type_synonym log_line = "log_level \<times> string"

definition log_message :: "string \<Rightarrow> log_line" where
  "log_message msg = (Log_info, msg)"

definition log_error :: "string \<Rightarrow> log_line" where
  "log_error msg = (Log_error, msg)"

text \<open>The three bytes of the em dash some messages contain.\<close>

definition em_dash :: string where
  "em_dash = [CHR 0xE2, CHR 0x80, CHR 0x94]"

datatype stream = Std_out | Std_err

text \<open>\<open>to_time_t\<close> drops the fraction of a second.\<close>

definition to_time_t :: "time_point \<Rightarrow> i64" where
  "to_time_t t = word_of_int (duration_cast 1000000000 t)"

subsection \<open>Calendar\<close>

record tm =
  tm_year :: int
  tm_mon :: nat          \<comment> \<open>from 1\<close>
  tm_mday :: nat         \<comment> \<open>from 1\<close>
  tm_hour :: nat
  tm_min :: nat
  tm_sec :: nat

definition leap_year :: "nat \<Rightarrow> bool" where
  "leap_year y \<longleftrightarrow> y mod 4 = 0 \<and> (y mod 100 \<noteq> 0 \<or> y mod 400 = 0)"

definition month_lengths :: "nat \<Rightarrow> nat list" where
  "month_lengths y = [31, if leap_year y then 29 else 28, 31, 30, 31, 30, 31, 31, 30, 31, 30, 31]"

definition year_length :: "nat \<Rightarrow> nat" where
  "year_length y = (if leap_year y then 366 else 365)"

text \<open>The year of a day counted from the first of January of \<open>y\<close>, and the day's number in it.\<close>

function split_year :: "nat \<Rightarrow> nat \<Rightarrow> nat \<times> nat" where
  "split_year y d = (if d < year_length y then (y, d) else split_year (y + 1) (d - year_length y))"
  by pat_completeness auto
termination
  by (relation "measure snd") (auto simp: year_length_def split: if_splits)

declare split_year.simps [simp del]

fun split_month :: "nat list \<Rightarrow> nat \<Rightarrow> nat \<Rightarrow> nat \<times> nat" where
  "split_month [] m d = (m, d)"
| "split_month (l # ls) m d = (if d < l then (m, d) else split_month ls (m + 1) (d - l))"

text \<open>The calendar repeats every 400 years, 146097 days.\<close>

definition gmtime :: "int \<Rightarrow> tm" where
  "gmtime t =
     (let days = t div 86400; secs = nat (t mod 86400);
          (y, yday) = split_year 1970 (nat (days mod 146097));
          (m, mday) = split_month (month_lengths y) 1 yday
      in \<lparr>tm_year = int y + 400 * (days div 146097), tm_mon = m, tm_mday = mday + 1,
          tm_hour = secs div 3600, tm_min = secs div 60 mod 60, tm_sec = secs mod 60\<rparr>)"

subsection \<open>Lines\<close>

text \<open>\<open>snprintf\<close> with \<open>%0*d\<close>: at least \<open>width\<close> characters, a sign counted.\<close>

definition zero_padded :: "nat \<Rightarrow> int \<Rightarrow> string" where
  "zero_padded width i =
     (let s = nat_to_string (nat \<bar>i\<bar>); sign = (if i < 0 then ''-'' else [])
      in sign @ replicate (width - length (sign @ s)) (CHR ''0'') @ s)"

text \<open>\<open>strftime\<close> with \<open>%Y-%m-%d %H:%M:%S\<close>, and what it leaves in a buffer of the given size.\<close>

definition format_time :: "tm \<Rightarrow> string" where
  "format_time tm =
     int_to_string (tm_year tm) @ ''-'' @ zero_padded 2 (int (tm_mon tm)) @ ''-'' @ zero_padded 2 (int (tm_mday tm)) @
     '' '' @ zero_padded 2 (int (tm_hour tm)) @ '':'' @ zero_padded 2 (int (tm_min tm)) @ '':'' @
     zero_padded 2 (int (tm_sec tm))"

definition strftime :: "nat \<Rightarrow> tm \<Rightarrow> string" where
  "strftime bytes tm = (if length (format_time tm) < bytes then format_time tm else [])"

definition TIMESTAMP_BUFFER_SIZE :: nat where "TIMESTAMP_BUFFER_SIZE = 32"
definition MS_PRECISION :: nat where "MS_PRECISION = 3"

text \<open>\<open>%\<close> on milliseconds has the sign of its left operand. \<open>snprintf\<close> cuts what does not fit.\<close>

definition get_timestamp :: "time_point \<Rightarrow> string" where
  "get_timestamp now =
     (let ms_total = duration_cast 1000000 now;
          ms = sgn ms_total * (\<bar>ms_total\<bar> mod 1000);
          buf = strftime TIMESTAMP_BUFFER_SIZE (gmtime (sint (to_time_t now)))
      in if buf = [] then take (TIMESTAMP_BUFFER_SIZE - 1) (''ts-err.'' @ zero_padded MS_PRECISION ms)
         else buf @ take (TIMESTAMP_BUFFER_SIZE - length buf - 1) (''.'' @ zero_padded MS_PRECISION ms))"

definition render :: "string \<Rightarrow> log_line \<Rightarrow> stream \<times> string" where
  "render timestamp line = (case line of (level, msg) \<Rightarrow>
     (if level = Log_error then Std_err else Std_out,
      timestamp @ '' '' @ log_level_to_string level @ '' '' @ msg @ [CHR 0x0A]))"

text \<open>\<open>fprintf\<close> with \<open>%.*s\<close> prints at most so many characters and stops at a zero byte.\<close>

definition printed :: "nat \<Rightarrow> string \<Rightarrow> string" where
  "printed most s = takeWhile (\<lambda>c. c \<noteq> CHR 0x00) (take most s)"

definition MAX_FALLBACK_MSG_SIZE :: nat where "MAX_FALLBACK_MSG_SIZE = 1024"

definition log_fallback :: "log_line \<Rightarrow> stream \<times> string" where
  "log_fallback line = (case line of (level, msg) \<Rightarrow>
     (Std_err, ''[FALLBACK] '' @ log_level_to_string level @ '' '' @ printed MAX_FALLBACK_MSG_SIZE msg @ [CHR 0x0A]))"

text \<open>Taking the mutex is the only step that can throw; the fallback is printed then.\<close>

definition log_to_stream :: "bool \<Rightarrow> time_point \<Rightarrow> log_line \<Rightarrow> stream \<times> string" where
  "log_to_stream locked now line = (if locked then render (get_timestamp now) line else log_fallback line)"

text \<open>A computation that logs and can throw: the lines logged before the exception stay logged.\<close>

type_synonym 'a traced = "log_line list \<times> (exn + 'a)"

definition tbind :: "'a traced \<Rightarrow> ('a \<Rightarrow> 'b traced) \<Rightarrow> 'b traced" where
  "tbind m f = (case m of
      (l, Inl e) \<Rightarrow> (l, Inl e)
    | (l, Inr x) \<Rightarrow> (case f x of (l', r) \<Rightarrow> (l @ l', r)))"

lemma tbind_simps [simp]:
  "tbind (l, Inl e) f = (l, Inl e)"
  "tbind (l, Inr x) f = (l @ fst (f x), snd (f x))"
  by (simp_all add: tbind_def split: prod.split)

lemma snd_tbind: "snd (tbind m f) = bindE (snd m) (\<lambda>x. snd (f x))"
  by (cases m) (simp add: tbind_def bindE_def split: sum.split prod.split)

text \<open>The error logger of the protocol library: the one it starts with prints to the error
  stream; \<open>main\<close> installs one that logs the message and records it in the metrics. An empty
  \<open>std::function\<close> drops the message.\<close>

datatype error_sink = Default_sink | Empty_sink | Server_sink

definition default_error_logger :: "string \<Rightarrow> stream \<times> string" where
  "default_error_logger msg = (Std_err, printed (2 ^ 31 - 1) msg @ [CHR 0x0A])"

definition set_error_logger :: "error_sink \<Rightarrow> error_sink \<Rightarrow> error_sink" where
  "set_error_logger logger current = logger"

end
