(* ===== verification/Runtime_Config.thy ===== *)
theory Runtime_Config
  imports Logger Json_Reference Protocol_Messages
begin

text \<open>
  \<^verbatim>\<open>src/server/config.hpp\<close> and
  \<^verbatim>\<open>src/server/runtime_config_manager.{hpp,cpp}\<close>: the compiled-in limits, the
  configuration singleton and its loading from JSON. Durations are counts of seconds kept as
  \<open>i64\<close>. Every public method runs under the object's mutex, so each is one step here; the
  contents of a file are a parameter (\<open>None\<close> when it cannot be opened).
\<close>

subsection \<open>Compiled-in limits\<close>

definition HANDSHAKE_TIMEOUT :: i64 where "HANDSHAKE_TIMEOUT = 10"
definition MAX_MESSAGE_SIZE :: u64 where "MAX_MESSAGE_SIZE = 64 * 1024"
definition MAX_WRITE_QUEUE_SIZE :: nat where "MAX_WRITE_QUEUE_SIZE = 100"
definition DEFAULT_PORT :: nat where "DEFAULT_PORT = 8080"
definition MAX_MESSAGES_PER_WINDOW :: u64 where "MAX_MESSAGES_PER_WINDOW = 10"
definition RATE_LIMIT_WINDOW :: i64 where "RATE_LIMIT_WINDOW = 1"
definition MAX_CONNECTIONS :: nat where "MAX_CONNECTIONS = 1000"
definition MAX_BACKOFF :: i64 where "MAX_BACKOFF = 30"
definition PLACEHOLDER_SEAT :: i32 where "PLACEHOLDER_SEAT = - 1"
definition PLACEHOLDER_STACK :: i64 where "PLACEHOLDER_STACK = 0"
definition WS_IDLE_TIMEOUT :: i64 where "WS_IDLE_TIMEOUT = 24 * 3600"
definition MAX_SEQUENCE_GAP :: i64 where "MAX_SEQUENCE_GAP = 10000"

lemmas config_defs = HANDSHAKE_TIMEOUT_def MAX_MESSAGE_SIZE_def MAX_WRITE_QUEUE_SIZE_def
  DEFAULT_PORT_def MAX_MESSAGES_PER_WINDOW_def RATE_LIMIT_WINDOW_def MAX_CONNECTIONS_def
  MAX_BACKOFF_def PLACEHOLDER_SEAT_def PLACEHOLDER_STACK_def WS_IDLE_TIMEOUT_def
  MAX_SEQUENCE_GAP_def

definition seconds :: "i64 \<Rightarrow> time_point" where
  "seconds s = sint s * 1000000000"

subsection \<open>The configuration object\<close>

record runtime_config =
  rc_config_path :: string
  rc_max_connections :: i32
  rc_handshake_timeout :: i64
  rc_max_message_size :: u64
  rc_max_write_queue_size :: u64
  rc_max_messages_per_window :: u64
  rc_rate_limit_window :: i64
  rc_max_backoff :: i64
  rc_ws_idle_timeout :: i64
  rc_max_amount :: i64
  rc_max_sequence_gap :: i64
  rc_security_enabled :: bool
  rc_metrics_enabled :: bool
  rc_last_reload_time :: time_point
  rc_reload_interval :: i64

definition initial_config :: runtime_config where
  "initial_config = \<lparr>
     rc_config_path = [], rc_max_connections = 1000, rc_handshake_timeout = 10,
     rc_max_message_size = 64 * 1024, rc_max_write_queue_size = 100,
     rc_max_messages_per_window = 10, rc_rate_limit_window = 1, rc_max_backoff = 30,
     rc_ws_idle_timeout = 24 * 3600, rc_max_amount = 1000000000000000,
     rc_max_sequence_gap = 10000, rc_security_enabled = True, rc_metrics_enabled = True,
     rc_last_reload_time = 0, rc_reload_interval = 5 \<rparr>"

definition in_srange :: "int \<Rightarrow> int \<Rightarrow> 'w::len word \<Rightarrow> bool" where
  "in_srange lo hi x \<longleftrightarrow> \<not> (sint x < lo \<or> sint x > hi)"

definition in_urange :: "nat \<Rightarrow> nat \<Rightarrow> 'w::len word \<Rightarrow> bool" where
  "in_urange lo hi x \<longleftrightarrow> \<not> (unat x < lo \<or> unat x > hi)"

text \<open>One setting: when the member is present and a number it is read, and replaced by the
  default (with a log line) when it is out of its range.\<close>

definition overlay :: "'j ext \<Rightarrow> 'j \<Rightarrow> string \<Rightarrow> ('j \<Rightarrow> exn + 'v) \<Rightarrow> ('v \<Rightarrow> bool) \<Rightarrow> 'v \<Rightarrow> 'v traced" where
  "overlay J j key get in_range dflt =
     (if j_contains J j key \<and> is_number J (j_subscript J j key) then
        (case get (j_subscript J j key) of
           Inl e \<Rightarrow> ([], Inl e)
         | Inr v \<Rightarrow>
             if \<not> in_range v
             then ([log_error (''[RuntimeConfig] Invalid '' @ key @ '', using default'')], Inr dflt)
             else ([], Inr v))
      else ([], Inr dflt))"

definition overlay_bool :: "'j ext \<Rightarrow> 'j \<Rightarrow> string \<Rightarrow> bool \<Rightarrow> bool traced" where
  "overlay_bool J j key dflt =
     (if j_contains J j key \<and> is_boolean J (j_subscript J j key)
      then ([], get_bool J (j_subscript J j key)) else ([], Inr dflt))"

text \<open>\<open>static_cast<int>(get<int64_t>())\<close>: the low 32 bits.\<close>

definition get_as_int :: "'j ext \<Rightarrow> 'j \<Rightarrow> exn + i32" where
  "get_as_int J v = bindE (get_int64 J v) (\<lambda>x. Inr (ucast x))"

definition deprecation_notice :: "'j ext \<Rightarrow> 'j \<Rightarrow> unit traced" where
  "deprecation_notice J j =
     (if j_contains J j ''ws_read_timeout'' \<and> is_number J (j_subscript J j ''ws_read_timeout'')
      then ([log_message (''[RuntimeConfig] ws_read_timeout is deprecated '' @ em_dash @
              '' use ws_idle_timeout instead'')],
            Inr ())
      else ([], Inr ()))"

text \<open>The new values, over the object's current path and reload time.\<close>

definition read_settings :: "'j ext \<Rightarrow> 'j \<Rightarrow> runtime_config \<Rightarrow> runtime_config traced" where
  "read_settings J j c =
     tbind (overlay J j ''max_connections'' (get_as_int J) (in_srange 1 10000)
              (of_nat MAX_CONNECTIONS)) (\<lambda>new_max_connections.
     tbind (overlay J j ''handshake_timeout'' (get_int64 J) (in_srange 1 300)
              HANDSHAKE_TIMEOUT) (\<lambda>new_handshake_timeout.
     tbind (overlay J j ''max_message_size'' (get_uint64 J) (in_urange 1024 (1024 * 1024))
              MAX_MESSAGE_SIZE) (\<lambda>new_max_message_size.
     tbind (overlay J j ''max_write_queue_size'' (get_uint64 J) (in_urange 10 1000)
              (of_nat MAX_WRITE_QUEUE_SIZE)) (\<lambda>new_max_write_queue_size.
     tbind (overlay J j ''max_messages_per_window'' (get_uint64 J) (in_urange 1 1000)
              MAX_MESSAGES_PER_WINDOW) (\<lambda>new_max_messages_per_window.
     tbind (overlay J j ''rate_limit_window'' (get_int64 J) (in_srange 1 60)
              RATE_LIMIT_WINDOW) (\<lambda>new_rate_limit_window.
     tbind (overlay J j ''max_backoff'' (get_int64 J) (in_srange 1 300)
              MAX_BACKOFF) (\<lambda>new_max_backoff.
     tbind (overlay J j ''ws_idle_timeout'' (get_int64 J) (in_srange 1 (48 * 3600))
              WS_IDLE_TIMEOUT) (\<lambda>new_ws_idle_timeout.
     tbind (deprecation_notice J j) (\<lambda>_.
     tbind (overlay J j ''max_amount'' (get_int64 J) (in_srange 1000 MAX_AMOUNT)
              (word_of_int MAX_AMOUNT)) (\<lambda>new_max_amount.
     tbind (overlay J j ''max_sequence_gap'' (get_int64 J) (in_srange 100 100000)
              MAX_SEQUENCE_GAP) (\<lambda>new_max_sequence_gap.
     tbind (overlay_bool J j ''security_enabled'' True) (\<lambda>new_security_enabled.
     tbind (overlay_bool J j ''metrics_enabled'' True) (\<lambda>new_metrics_enabled.
     ([], Inr (c \<lparr>
        rc_max_connections := new_max_connections,
        rc_handshake_timeout := new_handshake_timeout,
        rc_max_message_size := new_max_message_size,
        rc_max_write_queue_size := new_max_write_queue_size,
        rc_max_messages_per_window := new_max_messages_per_window,
        rc_rate_limit_window := new_rate_limit_window,
        rc_max_backoff := new_max_backoff,
        rc_ws_idle_timeout := new_ws_idle_timeout,
        rc_max_amount := new_max_amount,
        rc_max_sequence_gap := new_max_sequence_gap,
        rc_security_enabled := new_security_enabled,
        rc_metrics_enabled := new_metrics_enabled \<rparr>)))))))))))))))"

definition load_from_json :: "'j ext \<Rightarrow> 'j \<Rightarrow> runtime_config \<Rightarrow> log_line list \<times> bool \<times> runtime_config" where
  "load_from_json J config_json c =
     (case read_settings J config_json c of
        (l, Inl e) \<Rightarrow> (l @ [log_error (''[RuntimeConfig] Exception loading JSON: '' @ what e)], False, c)
      | (l, Inr c') \<Rightarrow>
          if unat (rc_max_write_queue_size c') < unat (rc_max_messages_per_window c')
          then (l @ [log_error ''[RuntimeConfig] max_write_queue_size must be >= max_messages_per_window''],
                False, c)
          else (l, True, c'))"

definition load_from_file ::
  "'j ext \<Rightarrow> (string \<Rightarrow> string option) \<Rightarrow> time_point \<Rightarrow> string \<Rightarrow> runtime_config \<Rightarrow>
     log_line list \<times> bool \<times> runtime_config" where
  "load_from_file J files now path c =
     (case files path of
        None \<Rightarrow> ([log_error (''[RuntimeConfig] Failed to open config file: '' @ path)], False, c)
      | Some contents \<Rightarrow>
          (case j_parse_stream J contents of
             Inl e \<Rightarrow> ([log_error (''[RuntimeConfig] JSON parse error: '' @ what e)], False, c)
           | Inr config_json \<Rightarrow>
               (case load_from_json J config_json c of
                  (l, False, c') \<Rightarrow> (l, False, c')
                | (l, True, c') \<Rightarrow>
                    (l @ [log_message (''[RuntimeConfig] Successfully loaded configuration from: '' @ path)],
                     True, c' \<lparr>rc_config_path := path, rc_last_reload_time := now\<rparr>))))"

definition reload ::
  "'j ext \<Rightarrow> (string \<Rightarrow> string option) \<Rightarrow> time_point \<Rightarrow> time_point \<Rightarrow> runtime_config \<Rightarrow>
     log_line list \<times> bool \<times> runtime_config" where
  "reload J files now now_loaded c =
     (if rc_config_path c = []
      then ([log_error ''[RuntimeConfig] No config file loaded for reload''], False, c)
      else if now - rc_last_reload_time c < seconds (rc_reload_interval c) then ([], True, c)
      else load_from_file J files now_loaded (rc_config_path c) c)"

definition config_to_json :: "'j ext \<Rightarrow> time_point \<Rightarrow> runtime_config \<Rightarrow> 'j" where
  "config_to_json J system_now c =
     (let put_int = (\<lambda>k v j. set_key J j k (of_int64 J v));
          put_size = (\<lambda>k v j. set_key J j k (of_uint64 J v));
          put_bool = (\<lambda>k v j. set_key J j k (of_bool_json J v));
          put_string = (\<lambda>k v j. set_key J j k (of_string J v))
      in put_int ''last_reload_time'' (to_time_t system_now)
        (put_string ''config_path'' (rc_config_path c)
        (put_bool ''metrics_enabled'' (rc_metrics_enabled c)
        (put_bool ''security_enabled'' (rc_security_enabled c)
        (put_int ''max_sequence_gap'' (rc_max_sequence_gap c)
        (put_int ''max_amount'' (rc_max_amount c)
        (put_int ''ws_idle_timeout'' (rc_ws_idle_timeout c)
        (put_int ''max_backoff'' (rc_max_backoff c)
        (put_int ''rate_limit_window'' (rc_rate_limit_window c)
        (put_size ''max_messages_per_window'' (rc_max_messages_per_window c)
        (put_size ''max_write_queue_size'' (rc_max_write_queue_size c)
        (put_size ''max_message_size'' (rc_max_message_size c)
        (put_int ''handshake_timeout'' (rc_handshake_timeout c)
        (put_int ''max_connections'' (scast (rc_max_connections c)) (mk_object J [])))))))))))))))"

definition export_to_json :: "'j ext \<Rightarrow> time_point \<Rightarrow> runtime_config \<Rightarrow> log_line list \<times> string" where
  "export_to_json J system_now c =
     (case j_dump J (config_to_json J system_now c) 2 of
        Inl e \<Rightarrow> ([log_error (''[RuntimeConfig] Exception exporting JSON: '' @ what e)], ''{}'')
      | Inr s \<Rightarrow> ([], s))"

text \<open>The accessors the server uses.\<close>

definition get_config_path :: "runtime_config \<Rightarrow> string" where
  "get_config_path c = rc_config_path c"
definition get_max_write_queue_size :: "runtime_config \<Rightarrow> nat" where
  "get_max_write_queue_size c = unat (rc_max_write_queue_size c)"
definition get_max_backoff :: "runtime_config \<Rightarrow> time_point" where
  "get_max_backoff c = seconds (rc_max_backoff c)"
definition get_max_amount :: "runtime_config \<Rightarrow> i64" where
  "get_max_amount c = rc_max_amount c"
definition get_max_message_size :: "runtime_config \<Rightarrow> nat" where
  "get_max_message_size c = unat (rc_max_message_size c)"
definition get_max_messages_per_window :: "runtime_config \<Rightarrow> nat" where
  "get_max_messages_per_window c = unat (rc_max_messages_per_window c)"
definition get_rate_limit_window :: "runtime_config \<Rightarrow> time_point" where
  "get_rate_limit_window c = seconds (rc_rate_limit_window c)"
definition get_ws_idle_timeout :: "runtime_config \<Rightarrow> time_point" where
  "get_ws_idle_timeout c = seconds (rc_ws_idle_timeout c)"
definition get_max_sequence_gap :: "runtime_config \<Rightarrow> i64" where
  "get_max_sequence_gap c = rc_max_sequence_gap c"
definition get_max_connections :: "runtime_config \<Rightarrow> i32" where
  "get_max_connections c = rc_max_connections c"
definition get_handshake_timeout :: "runtime_config \<Rightarrow> i64" where
  "get_handshake_timeout c = rc_handshake_timeout c"
definition is_security_enabled :: "runtime_config \<Rightarrow> bool" where
  "is_security_enabled c = rc_security_enabled c"
definition is_metrics_enabled :: "runtime_config \<Rightarrow> bool" where
  "is_metrics_enabled c = rc_metrics_enabled c"

subsection \<open>Settings stay in range\<close>

locale setting =
  fixes in_range :: "'v \<Rightarrow> bool" and dflt :: 'v
  assumes default_in_range: "in_range dflt"
begin

lemma overlay_in_range: "snd (overlay J j key get in_range dflt) = Inr v \<Longrightarrow> in_range v"
  using default_in_range by (auto simp: overlay_def split: if_splits sum.splits)

lemma overlay_absent: "\<not> j_contains J j key \<Longrightarrow> overlay J j key get in_range dflt = ([], Inr dflt)"
  by (simp add: overlay_def)

lemma overlay_present:
  "j_contains J j key \<Longrightarrow> is_number J (j_subscript J j key) \<Longrightarrow> get (j_subscript J j key) = Inr v \<Longrightarrow>
     in_range v \<Longrightarrow> overlay J j key get in_range dflt = ([], Inr v)"
  by (simp add: overlay_def)

lemma overlay_clamped:
  "j_contains J j key \<Longrightarrow> is_number J (j_subscript J j key) \<Longrightarrow> get (j_subscript J j key) = Inr v \<Longrightarrow>
     \<not> in_range v \<Longrightarrow> snd (overlay J j key get in_range dflt) = Inr dflt"
  by (simp add: overlay_def)

end

interpretation max_connections: setting "in_srange 1 10000" "of_nat MAX_CONNECTIONS :: i32"
  by unfold_locales (simp add: in_srange_def config_defs)
interpretation handshake_timeout: setting "in_srange 1 300" HANDSHAKE_TIMEOUT
  by unfold_locales (simp add: in_srange_def config_defs)
interpretation max_message_size: setting "in_urange 1024 (1024 * 1024)" MAX_MESSAGE_SIZE
  by unfold_locales (simp add: in_urange_def config_defs)
interpretation max_write_queue_size: setting "in_urange 10 1000" "of_nat MAX_WRITE_QUEUE_SIZE :: u64"
  by unfold_locales (simp add: in_urange_def config_defs)
interpretation max_messages_per_window: setting "in_urange 1 1000" MAX_MESSAGES_PER_WINDOW
  by unfold_locales (simp add: in_urange_def config_defs)
interpretation rate_limit_window: setting "in_srange 1 60" RATE_LIMIT_WINDOW
  by unfold_locales (simp add: in_srange_def config_defs)
interpretation max_backoff: setting "in_srange 1 300" MAX_BACKOFF
  by unfold_locales (simp add: in_srange_def config_defs)
interpretation ws_idle_timeout: setting "in_srange 1 (48 * 3600)" WS_IDLE_TIMEOUT
  by unfold_locales (simp add: in_srange_def config_defs)
interpretation max_amount: setting "in_srange 1000 MAX_AMOUNT" "word_of_int MAX_AMOUNT :: i64"
  by unfold_locales (simp add: in_srange_def MAX_AMOUNT_def)
interpretation max_sequence_gap: setting "in_srange 100 100000" MAX_SEQUENCE_GAP
  by unfold_locales (simp add: in_srange_def config_defs)

lemmas overlays_in_range = max_connections.overlay_in_range handshake_timeout.overlay_in_range
  max_message_size.overlay_in_range max_write_queue_size.overlay_in_range
  max_messages_per_window.overlay_in_range rate_limit_window.overlay_in_range
  max_backoff.overlay_in_range ws_idle_timeout.overlay_in_range max_amount.overlay_in_range
  max_sequence_gap.overlay_in_range

definition settings_in_range :: "runtime_config \<Rightarrow> bool" where
  "settings_in_range c \<longleftrightarrow>
     in_srange 1 10000 (rc_max_connections c) \<and> in_srange 1 300 (rc_handshake_timeout c) \<and>
     in_urange 1024 (1024 * 1024) (rc_max_message_size c) \<and>
     in_urange 10 1000 (rc_max_write_queue_size c) \<and>
     in_urange 1 1000 (rc_max_messages_per_window c) \<and> in_srange 1 60 (rc_rate_limit_window c) \<and>
     in_srange 1 300 (rc_max_backoff c) \<and> in_srange 1 (48 * 3600) (rc_ws_idle_timeout c) \<and>
     in_srange 1000 MAX_AMOUNT (rc_max_amount c) \<and> in_srange 100 100000 (rc_max_sequence_gap c)"

definition config_valid :: "runtime_config \<Rightarrow> bool" where
  "config_valid c \<longleftrightarrow> settings_in_range c \<and>
     unat (rc_max_messages_per_window c) \<le> unat (rc_max_write_queue_size c)"

lemma read_settings_in_range:
  assumes "snd (read_settings J j c) = Inr c'"
  shows "settings_in_range c'"
  using assms unfolding read_settings_def snd_tbind bindE_Inr_iff
  apply (elim exE conjE)
  apply (drule overlays_in_range)+
  apply (auto simp: settings_in_range_def)
  done

lemma load_from_json_valid: "config_valid c \<Longrightarrow> config_valid (snd (snd (load_from_json J j c)))"
  using read_settings_in_range [of J j c]
  by (auto simp: load_from_json_def config_valid_def split: prod.split sum.split)

lemma load_from_file_valid: "config_valid c \<Longrightarrow> config_valid (snd (snd (load_from_file J files now path c)))"
  using load_from_json_valid [of c J]
  by (auto simp: load_from_file_def config_valid_def settings_in_range_def
      split: option.split sum.split prod.split bool.split) (metis snd_conv)+

lemma reload_valid: "config_valid c \<Longrightarrow> config_valid (snd (snd (reload J files now now' c)))"
  by (simp add: reload_def load_from_file_valid)

lemma initial_config_valid: "config_valid initial_config"
  by (simp add: config_valid_def settings_in_range_def initial_config_def in_srange_def in_urange_def
      MAX_AMOUNT_def)

lemma load_from_json_failed: "\<not> fst (snd (load_from_json J j c)) \<Longrightarrow> snd (snd (load_from_json J j c)) = c"
  by (auto simp: load_from_json_def split: prod.splits sum.splits if_splits)

subsection \<open>Reading back an exported configuration\<close>

context json_file
begin

lemma overlay_int64:
  assumes "same j' j" "j_at J j key = Inr (of_int64 J v)" "ok v"
  shows "overlay J j' key (get_int64 J) ok d = ([], Inr v)"
  using same_member [OF assms(1,2)] assms(3) number_of_int64 int64_of same_number same_int64
  by (auto simp: overlay_def split: sum.split)

lemma overlay_uint64:
  assumes "same j' j" "j_at J j key = Inr (of_uint64 J v)" "ok v"
  shows "overlay J j' key (get_uint64 J) ok d = ([], Inr v)"
  using same_member [OF assms(1,2)] assms(3) number_of_uint64 uint64_of same_number same_uint64
  by (auto simp: overlay_def split: sum.split)

lemma overlay_int32:
  assumes "same j' j" "j_at J j key = Inr (of_int64 J (scast v))" "ok v"
  shows "overlay J j' key (get_as_int J) ok d = ([], Inr v)"
proof -
  have m: "j_contains J j' key" "same (j_subscript J j' key) (of_int64 J (scast v))"
    using same_member [OF assms(1,2)] by auto
  have "get_int64 J (j_subscript J j' key) = Inr (scast v)"
    using same_int64 [OF m(2)] int64_of by blast
  moreover have "ucast (scast v :: i64) = v" by (rule ucast_scast_32)
  ultimately show ?thesis
    using m assms(3) number_of_int64 same_number by (simp add: overlay_def get_as_int_def)
qed

lemma overlay_bool_same:
  assumes "same j' j" "j_at J j key = Inr (of_bool_json J v)"
  shows "overlay_bool J j' key d = ([], Inr v)"
  using same_member [OF assms] boolean_of bool_of same_boolean same_bool
  by (auto simp: overlay_bool_def)

lemma at_config_to_json:
  "j_at J (config_to_json J t c) ''max_connections'' = Inr (of_int64 J (scast (rc_max_connections c)))"
  "j_at J (config_to_json J t c) ''handshake_timeout'' = Inr (of_int64 J (rc_handshake_timeout c))"
  "j_at J (config_to_json J t c) ''max_message_size'' = Inr (of_uint64 J (rc_max_message_size c))"
  "j_at J (config_to_json J t c) ''max_write_queue_size'' = Inr (of_uint64 J (rc_max_write_queue_size c))"
  "j_at J (config_to_json J t c) ''max_messages_per_window'' =
     Inr (of_uint64 J (rc_max_messages_per_window c))"
  "j_at J (config_to_json J t c) ''rate_limit_window'' = Inr (of_int64 J (rc_rate_limit_window c))"
  "j_at J (config_to_json J t c) ''max_backoff'' = Inr (of_int64 J (rc_max_backoff c))"
  "j_at J (config_to_json J t c) ''ws_idle_timeout'' = Inr (of_int64 J (rc_ws_idle_timeout c))"
  "j_at J (config_to_json J t c) ''max_amount'' = Inr (of_int64 J (rc_max_amount c))"
  "j_at J (config_to_json J t c) ''max_sequence_gap'' = Inr (of_int64 J (rc_max_sequence_gap c))"
  "j_at J (config_to_json J t c) ''security_enabled'' = Inr (of_bool_json J (rc_security_enabled c))"
  "j_at J (config_to_json J t c) ''metrics_enabled'' = Inr (of_bool_json J (rc_metrics_enabled c))"
  "\<not> j_contains J (config_to_json J t c) ''ws_read_timeout''"
  by (simp_all add: config_to_json_def Let_def at_set_same at_set_other object_set object_mk
      contains_set at_object_missing)

lemma load_exported:
  assumes "same j' (config_to_json J t c)" "config_valid c"
  shows "load_from_json J j' c0 =
     ([], True, c \<lparr>rc_config_path := rc_config_path c0, rc_last_reload_time := rc_last_reload_time c0,
                 rc_reload_interval := rc_reload_interval c0\<rparr>)"
proof -
  note v = assms(2) [unfolded config_valid_def settings_in_range_def]
  have "\<not> j_contains J j' ''ws_read_timeout''"
    using same_contains [OF assms(1)] at_config_to_json(13) by simp
  then have "read_settings J j' c0 =
     ([], Inr (c \<lparr>rc_config_path := rc_config_path c0, rc_last_reload_time := rc_last_reload_time c0,
                 rc_reload_interval := rc_reload_interval c0\<rparr>))"
    using v by (simp add: read_settings_def deprecation_notice_def overlay_int64 [OF assms(1)]
        overlay_uint64 [OF assms(1)] overlay_int32 [OF assms(1)] overlay_bool_same [OF assms(1)]
        at_config_to_json)
  then show ?thesis using v by (simp add: load_from_json_def)
qed

end

subsection \<open>Properties\<close>

text \<open>The configurations a process can have: the initial one and whatever loads and reloads,
  of any files at any times, make of it.\<close>

inductive config_run :: "'j ext \<Rightarrow> runtime_config \<Rightarrow> bool" for J where
  start: "config_run J initial_config"
| load: "config_run J c \<Longrightarrow> load_from_file J files now path c = (l, ok, c') \<Longrightarrow> config_run J c'"
| again: "config_run J c \<Longrightarrow> reload J files now now' c = (l, ok, c') \<Longrightarrow> config_run J c'"

definition sample_settings :: jval where
  "sample_settings = JObject [(''max_connections'', JInt 50), (''rate_limit_window'', JInt 600)]"

definition sample_config :: runtime_config where
  "sample_config = initial_config \<lparr>rc_max_connections := 50, rc_config_path := ''c'',
     rc_last_reload_time := 7\<rparr>"

lemma sample_load:
  "\<exists>l. load_from_file ref_json (\<lambda>_. Some (enc sample_settings)) 7 ''c'' initial_config =
     (l, True, sample_config)"
proof -
  have "ref_parse (enc sample_settings) = Inr sample_settings"
    by (rule ref_parse_dump [of _ 0]) (simp add: ref_dump_def sample_settings_def)
  moreover have "\<exists>l. load_from_json ref_json sample_settings initial_config =
      (l, True, initial_config \<lparr>rc_max_connections := 50\<rparr>)"
    by (simp add: load_from_json_def read_settings_def overlay_def overlay_bool_def deprecation_notice_def
        sample_settings_def ref_contains_def ref_subscript_def get_as_int_def in_srange_def in_urange_def
        initial_config_def config_defs MAX_AMOUNT_def)
  ultimately show ?thesis by (auto simp: load_from_file_def sample_config_def)
qed



text \<open>C35: A load or reload that reports failure changes nothing and says so on the error log.\<close>

theorem failed_load_keeps_config:
  assumes "load_from_file J files now path c = (l, False, c') \<or>
    reload J files now now' c = (l, False, c')"
  shows "c' = c \<and> (\<exists>m. (Log_error, m) \<in> set l)"
proof -
  have j: "load_from_json J j c = (k, False, d) \<Longrightarrow> d = c \<and> (\<exists>m. (Log_error, m) \<in> set k)" for j k d
    by (auto simp: load_from_json_def log_error_def split: prod.splits sum.splits if_splits)
  have f: "load_from_file J files n p c = (k, False, d) \<Longrightarrow> d = c \<and> (\<exists>m. (Log_error, m) \<in> set k)" for n p k d
    using j by (auto simp: load_from_file_def log_error_def split: option.splits prod.splits sum.splits
        bool.splits)
  show ?thesis
    using assms by (auto simp: reload_def log_error_def dest: f split: if_splits)
qed

theorem failed_load_keeps_config_witness:
  "initial_config = initial_config \<and>
     (\<exists>m. (Log_error, m) \<in> set (fst (load_from_file ref_json (\<lambda>_. None) 0 ''x'' initial_config)))"
  using failed_load_keeps_config [of ref_json "\<lambda>_. None" 0 "''x''" initial_config
      "fst (load_from_file ref_json (\<lambda>_. None) 0 ''x'' initial_config)" initial_config 0]
  by (simp add: load_from_file_def)

text \<open>C34: Loading an exported configuration restores every setting: a file that holds what
  \<open>export_to_json\<close> printed is accepted without any complaint and gives the same settings.\<close>

theorem export_then_load:
  assumes "json_file J same" and "config_valid c"
    and "export_to_json J t c = ([], out)" and "files path = Some out"
  shows "load_from_file J files now path c0 =
     ([log_message (''[RuntimeConfig] Successfully loaded configuration from: '' @ path)], True,
      c \<lparr>rc_config_path := path, rc_last_reload_time := now,
         rc_reload_interval := rc_reload_interval c0\<rparr>)"
proof -
  have d: "j_dump J (config_to_json J t c) 2 = Inr out"
    using assms(3) by (simp add: export_to_json_def split: sum.splits)
  obtain j' where j: "j_parse_stream J out = Inr j'" "same j' (config_to_json J t c)"
    using json_file.parse_stream_dump [OF assms(1) d] by blast
  show ?thesis
    by (simp add: load_from_file_def assms(4) j(1) json_file.load_exported [OF assms(1) j(2) assms(2)])
qed

theorem export_then_load_witness:
  "\<exists>out. export_to_json ref_json 0 sample_config = ([], out) \<and>
     fst (snd (load_from_file ref_json (\<lambda>_. Some out) 9 ''d'' initial_config)) \<and>
     rc_max_connections (snd (snd (load_from_file ref_json (\<lambda>_. Some out) 9 ''d'' initial_config))) = 50"
proof -
  have v: "config_valid sample_config"
    by (simp add: config_valid_def settings_in_range_def sample_config_def initial_config_def
        in_srange_def in_urange_def MAX_AMOUNT_def)
  obtain out where t: "export_to_json ref_json 0 sample_config = ([], out)"
    by (simp add: export_to_json_def ref_dump_def config_to_json_def sample_config_def initial_config_def)
  show ?thesis
    using t export_then_load [OF ref.json_file_axioms v t, of "\<lambda>_. Some out" "''d''" 9 initial_config]
    by (simp add: sample_config_def)
qed

text \<open>\<open>max_connections\<close> is cut to 32 bits before its range is checked: the out-of-range value
  \<open>2\<^sup>3\<^sup>2 + n\<close> is taken for \<open>n\<close>, without a log line, for every \<open>n\<close> in range.\<close>

theorem max_connections_truncated:
  assumes "j_contains J j ''max_connections''"
    and "is_number J (j_subscript J j ''max_connections'')"
    and "get_int64 J (j_subscript J j ''max_connections'') = Inr (2 ^ 32 + n)"
    and "1 \<le> sint n" "sint n \<le> 10000"
    and "snd (read_settings J j c) = Inr c'"
  shows "rc_max_connections c' = ucast n \<and> sint (rc_max_connections c') = sint n \<and>
     fst (overlay J j ''max_connections'' (get_as_int J) (in_srange 1 10000) (of_nat MAX_CONNECTIONS)) = []"
proof -
  have u: "ucast (2 ^ 32 + n) = (ucast n :: i32)"
    by transfer (simp add: take_bit_eq_mod mod_mod_cancel)
  have "ucast n = (ucast (word_of_int (sint n) :: i64) :: i32)" by simp
  also have "\<dots> = word_of_int (sint n)"
    using assms(4,5) by transfer (simp add: take_bit_int_eq_self)
  finally have w: "(ucast n :: i32) = word_of_int (sint n)" .
  have s: "sint (ucast n :: i32) = sint n"
    unfolding w sint_sbintrunc' using assms(4,5) by (intro signed_take_bit_int_eq_self) simp_all
  have o: "overlay J j ''max_connections'' (get_as_int J) (in_srange 1 10000) (of_nat MAX_CONNECTIONS)
      = ([], Inr (ucast n))"
    using assms(1-5) s u by (simp add: overlay_def get_as_int_def in_srange_def)
  have "rc_max_connections c' = ucast n"
    using assms(6) unfolding read_settings_def o by (auto simp: snd_tbind)
  then show ?thesis using s o by simp
qed

definition huge_settings :: jval where
  "huge_settings = JObject [(''max_connections'', JInt 4294967301)]"

theorem max_connections_truncated_witness:
  "\<exists>c'. snd (read_settings ref_json huge_settings initial_config) = Inr c' \<and> sint (rc_max_connections c') = 5"
proof -
  obtain c' where c: "snd (read_settings ref_json huge_settings initial_config) = Inr c'"
    by (simp add: read_settings_def overlay_def overlay_bool_def deprecation_notice_def
        huge_settings_def ref_contains_def ref_subscript_def get_as_int_def in_srange_def)
  have "j_contains ref_json huge_settings ''max_connections''"
    "is_number ref_json (j_subscript ref_json huge_settings ''max_connections'')"
    "get_int64 ref_json (j_subscript ref_json huge_settings ''max_connections'') = Inr (2 ^ 32 + 5)"
    by (simp_all add: huge_settings_def ref_contains_def ref_subscript_def)
  from max_connections_truncated [OF this _ _ c] show ?thesis using c by simp
qed

end
