(* ===== verification/Ordered_Map.thy ===== *)
theory Ordered_Map
  imports Prelude
begin

text \<open>
  \<open>std::map\<close>: a sequence of entries with strictly ascending keys. The connection
  manager's session table and the metric tables are values of this type. The
  \<open>std::unordered_map\<close>s of the metrics are modelled the same way: their iteration order is
  unspecified, and the code only iterates to fill a JSON object keyed by the same names.
  The interface the components rely on is the locale \<open>finite_map\<close>; its derived laws are
  proved once and reach the components through the interpretation \<open>om\<close> below.
\<close>

type_synonym ('k, 'v) omap = "('k \<times> 'v) list"

definition om_empty :: "('k, 'v) omap" where
  "om_empty = []"

fun om_find :: "('k::linorder, 'v) omap \<Rightarrow> 'k \<Rightarrow> 'v option" where
  "om_find [] k = None"
| "om_find ((a, b) # m) k = (if k = a then Some b else om_find m k)"

fun om_put :: "'k::linorder \<Rightarrow> 'v \<Rightarrow> ('k, 'v) omap \<Rightarrow> ('k, 'v) omap" where
  "om_put k v [] = [(k, v)]"
| "om_put k v ((a, b) # m) =
     (if k < a then (k, v) # (a, b) # m
      else if k = a then (k, v) # m
      else (a, b) # om_put k v m)"

fun om_erase :: "'k::linorder \<Rightarrow> ('k, 'v) omap \<Rightarrow> ('k, 'v) omap" where
  "om_erase k [] = []"
| "om_erase k ((a, b) # m) = (if k = a then m else (a, b) # om_erase k m)"

definition om_keys :: "('k, 'v) omap \<Rightarrow> 'k list" where
  "om_keys m = map fst m"

definition om_sorted :: "('k::linorder, 'v) omap \<Rightarrow> bool" where
  "om_sorted m \<longleftrightarrow> sorted_wrt (<) (om_keys m)"

text \<open>\<open>try_emplace\<close>: inserts only when the key is absent; the flag tells whether it did.\<close>

definition om_try_emplace :: "'k::linorder \<Rightarrow> 'v \<Rightarrow> ('k, 'v) omap \<Rightarrow> ('k, 'v) omap \<times> bool" where
  "om_try_emplace k v m = (case om_find m k of None \<Rightarrow> (om_put k v m, True) | Some _ \<Rightarrow> (m, False))"

subsection \<open>The interface\<close>

locale finite_map =
  fixes empty :: "'m"
    and find :: "'m \<Rightarrow> 'k::linorder \<Rightarrow> 'v option"
    and put :: "'k \<Rightarrow> 'v \<Rightarrow> 'm \<Rightarrow> 'm"
    and erase :: "'k \<Rightarrow> 'm \<Rightarrow> 'm"
    and size_of :: "'m \<Rightarrow> nat"
    and keys :: "'m \<Rightarrow> 'k list"
    and inv :: "'m \<Rightarrow> bool"
  assumes find_empty: "find empty k = None"
    and find_put: "inv m \<Longrightarrow> find (put k v m) k' = (if k' = k then Some v else find m k')"
    and find_erase: "inv m \<Longrightarrow> find (erase k m) k' = (if k' = k then None else find m k')"
    and keys_sorted: "inv m \<Longrightarrow> sorted_wrt (<) (keys m)"
    and keys_dom: "inv m \<Longrightarrow> set (keys m) = dom (find m)"
    and size_keys: "inv m \<Longrightarrow> size_of m = length (keys m)"
    and inv_empty: "inv empty"
    and inv_put: "inv m \<Longrightarrow> inv (put k v m)"
    and inv_erase: "inv m \<Longrightarrow> inv (erase k m)"
begin

lemma keys_distinct: "inv m \<Longrightarrow> distinct (keys m)"
  using keys_sorted strict_sorted_iff by blast

lemma finite_dom: "inv m \<Longrightarrow> finite (dom (find m))"
  using keys_dom [of m] by (metis List.finite_set)

lemma size_card: "inv m \<Longrightarrow> size_of m = card (dom (find m))"
  by (simp add: size_keys keys_distinct distinct_card flip: keys_dom)

lemma dom_put: "inv m \<Longrightarrow> dom (find (put k v m)) = insert k (dom (find m))"
  by (auto simp: find_put split: if_splits)

lemma dom_erase: "inv m \<Longrightarrow> dom (find (erase k m)) = dom (find m) - {k}"
  by (auto simp: find_erase split: if_splits)

lemma size_put:
  "inv m \<Longrightarrow> size_of (put k v m) = (if find m k = None then Suc (size_of m) else size_of m)"
  by (auto simp: size_card inv_put dom_put finite_dom card_insert_if domIff)

lemma size_erase:
  "inv m \<Longrightarrow> size_of (erase k m) = (if find m k = None then size_of m else size_of m - 1)"
  by (auto simp: size_card inv_erase dom_erase finite_dom domIff card_Diff_singleton_if)

lemma size_erase_le: "inv m \<Longrightarrow> size_of (erase k m) \<le> size_of m"
  by (simp add: size_erase)

lemma size_empty: "size_of empty = 0"
  using inv_empty by (simp add: size_card find_empty dom_def)

lemma find_some_key: "inv m \<Longrightarrow> find m k = Some v \<Longrightarrow> k \<in> set (keys m)"
  by (auto simp: keys_dom)

lemma keys_eq: "inv m \<Longrightarrow> inv m' \<Longrightarrow> find m = find m' \<Longrightarrow> keys m = keys m'"
  by (metis keys_dom keys_sorted strict_sorted_equal)

lemma keys_erase: "inv m \<Longrightarrow> keys (erase k m) = filter (\<lambda>x. x \<noteq> k) (keys m)"
proof (rule strict_sorted_equal)
  assume i: "inv m"
  show "sorted_wrt (<) (keys (erase k m))" using i by (simp add: keys_sorted inv_erase)
  show "sorted_wrt (<) (filter (\<lambda>x. x \<noteq> k) (keys m))"
    using keys_sorted [OF i] by (rule sorted_wrt_filter)
  show "set (keys (erase k m)) = set (filter (\<lambda>x. x \<noteq> k) (keys m))"
    using i by (auto simp: keys_dom inv_erase dom_erase)
qed

end

subsection \<open>The sorted sequence implements it\<close>

lemma om_keys_simps [simp]:
  "om_keys [] = []"
  "om_keys ((a, b) # m) = a # om_keys m"
  by (simp_all add: om_keys_def)

lemma om_sorted_simps [simp]:
  "om_sorted []"
  "om_sorted ((a, b) # m) \<longleftrightarrow> (\<forall>k \<in> set (om_keys m). a < k) \<and> om_sorted m"
  by (simp_all add: om_sorted_def)

lemma om_keys_put [simp]: "set (om_keys (om_put k v m)) = insert k (set (om_keys m))"
  by (induction k v m rule: om_put.induct) auto

lemma om_sorted_put: "om_sorted m \<Longrightarrow> om_sorted (om_put k v m)"
  by (induction k v m rule: om_put.induct) auto

lemma om_keys_erase_subset: "set (om_keys (om_erase k m)) \<subseteq> set (om_keys m)"
  by (induction k m rule: om_erase.induct) auto

lemma om_sorted_erase: "om_sorted m \<Longrightarrow> om_sorted (om_erase k m)"
proof (induction k m rule: om_erase.induct)
  case (2 k a b m)
  then show ?case using om_keys_erase_subset [of k m] by auto
qed simp

lemma om_find_None: "k \<notin> set (om_keys m) \<Longrightarrow> om_find m k = None"
  by (induction m k rule: om_find.induct) auto

lemma om_find_put: "om_find (om_put k v m) k' = (if k' = k then Some v else om_find m k')"
  by (induction k v m rule: om_put.induct) auto

lemma om_find_erase:
  "om_sorted m \<Longrightarrow> om_find (om_erase k m) k' = (if k' = k then None else om_find m k')"
  by (induction k m rule: om_erase.induct) (auto intro: om_find_None)

lemma om_keys_dom: "set (om_keys m) = dom (om_find m)"
  by (induction m rule: list.induct) (auto split: if_splits)

lemma om_entry: "om_sorted m \<Longrightarrow> (k, v) \<in> set m \<longleftrightarrow> om_find m k = Some v"
proof (induction m k rule: om_find.induct)
  case (2 a b m k)
  moreover have "k \<in> set (om_keys m)" if "(k, v) \<in> set m" using that by (force simp: om_keys_def)
  ultimately show ?case by auto
qed simp

interpretation om: finite_map
  "om_empty :: ('k::linorder, 'v) omap" om_find om_put om_erase length om_keys om_sorted
proof
  show "om_find (om_empty :: ('k, 'v) omap) k = None" for k by (simp add: om_empty_def)
  show "om_sorted (om_empty :: ('k, 'v) omap)" by (simp add: om_empty_def)
  fix m :: "('k, 'v) omap" and k v k'
  assume "om_sorted m"
  then show "om_find (om_put k v m) k' = (if k' = k then Some v else om_find m k')"
    and "om_find (om_erase k m) k' = (if k' = k then None else om_find m k')"
    and "sorted_wrt (<) (om_keys m)" "set (om_keys m) = dom (om_find m)"
    and "length m = length (om_keys m)"
    and "om_sorted (om_put k v m)" "om_sorted (om_erase k m)"
    by (simp_all add: om_find_put om_find_erase om_keys_dom om_sorted_put om_sorted_erase)
      (simp_all add: om_sorted_def om_keys_def)
qed

lemma om_try_emplace_fresh:
  "om_find m k = None \<Longrightarrow> om_try_emplace k v m = (om_put k v m, True)"
  by (simp add: om_try_emplace_def)

lemma om_try_emplace_taken:
  "om_find m k = Some x \<Longrightarrow> om_try_emplace k v m = (m, False)"
  by (simp add: om_try_emplace_def)

end
