(* ===== verification/Metrics.thy ===== *)
theory Metrics
  imports Runtime_Config Ordered_Map
begin

text \<open>
  \<^verbatim>\<open>src/server/metrics_collector.{hpp,cpp}\<close>: the process-wide counters, gauges, timings
  and bounded logs of events and errors. Every public function runs under one mutex per table,
  and is one step here; the clock readings it makes are arguments.
\<close>

subsection \<open>State\<close>

record timing_data =
  td_count :: i64
  td_sum :: i64
  td_min :: i64
  td_max :: i64
  td_samples :: "i64 list"

record event_data =
  ev_timestamp :: time_point
  ev_name :: string
  ev_tags :: "string list"

record error_data =
  ed_timestamp :: time_point
  ed_type :: string
  ed_details :: string

record metrics_collector =
  mc_counters :: "(string, i64) omap"
  mc_gauges :: "(string, double) omap"
  mc_timings :: "(string, timing_data) omap"
  mc_events :: "event_data list"
  mc_errors :: "error_data list"
  mc_start_time :: time_point

definition new_metrics_collector :: "time_point \<Rightarrow> metrics_collector" where
  "new_metrics_collector now = \<lparr>mc_counters = om_empty, mc_gauges = om_empty, mc_timings = om_empty,
     mc_events = [], mc_errors = [], mc_start_time = now\<rparr>"

subsection \<open>Recording\<close>

text \<open>\<open>m[name] += value\<close>: a missing entry starts at zero.\<close>

definition increment_counter :: "string \<Rightarrow> i64 \<Rightarrow> metrics_collector \<Rightarrow> metrics_collector" where
  "increment_counter name amount m =
     m \<lparr>mc_counters := om_put name
         ((case om_find (mc_counters m) name of None \<Rightarrow> 0 | Some v \<Rightarrow> v) + amount) (mc_counters m)\<rparr>"

definition set_gauge :: "string \<Rightarrow> double \<Rightarrow> metrics_collector \<Rightarrow> metrics_collector" where
  "set_gauge name v m = m \<lparr>mc_gauges := om_put name v (mc_gauges m)\<rparr>"

definition new_timing_data :: timing_data where
  "new_timing_data = \<lparr>td_count = 0, td_sum = 0, td_min = word_of_int INT64_MAX, td_max = 0,
     td_samples = []\<rparr>"

definition smin :: "i64 \<Rightarrow> i64 \<Rightarrow> i64" where
  "smin a b = (if sint b < sint a then b else a)"

definition smax :: "i64 \<Rightarrow> i64 \<Rightarrow> i64" where
  "smax a b = (if sint a < sint b then b else a)"

text \<open>The samples are trimmed before the new one is pushed, the two logs after.\<close>

definition push_sample :: "'a \<Rightarrow> 'a list \<Rightarrow> 'a list" where
  "push_sample x samples = (if length samples > 1000 then tl samples else samples) @ [x]"

definition push_event :: "'a \<Rightarrow> 'a list \<Rightarrow> 'a list" where
  "push_event x events =
     (if length (events @ [x]) > 1000 then tl (events @ [x]) else events @ [x])"

definition push_error :: "'a \<Rightarrow> 'a list \<Rightarrow> 'a list" where
  "push_error x errors =
     (if length (errors @ [x]) > 500 then tl (errors @ [x]) else errors @ [x])"

definition record_timing :: "string \<Rightarrow> i64 \<Rightarrow> metrics_collector \<Rightarrow> metrics_collector" where
  "record_timing name duration m =
     (let t = (case om_find (mc_timings m) name of None \<Rightarrow> new_timing_data | Some t \<Rightarrow> t);
          t' = t \<lparr>td_count := td_count t + 1, td_sum := td_sum t + duration,
                  td_min := smin (td_min t) duration, td_max := smax (td_max t) duration,
                  td_samples := push_sample duration (td_samples t)\<rparr>
      in m \<lparr>mc_timings := om_put name t' (mc_timings m)\<rparr>)"

definition record_event :: "time_point \<Rightarrow> string \<Rightarrow> string list \<Rightarrow> metrics_collector \<Rightarrow> metrics_collector" where
  "record_event now name tags m =
     m \<lparr>mc_events := push_event \<lparr>ev_timestamp = now, ev_name = name, ev_tags = tags\<rparr> (mc_events m)\<rparr>"

definition record_error :: "time_point \<Rightarrow> string \<Rightarrow> string \<Rightarrow> metrics_collector \<Rightarrow> metrics_collector" where
  "record_error now error_type details m =
     increment_counter (''errors.'' @ error_type) 1
       (increment_counter ''errors.total'' 1
         (m \<lparr>mc_errors := push_error \<lparr>ed_timestamp = now, ed_type = error_type, ed_details = details\<rparr>
                (mc_errors m)\<rparr>))"

definition get_counter :: "string \<Rightarrow> metrics_collector \<Rightarrow> i64" where
  "get_counter name m = (case om_find (mc_counters m) name of None \<Rightarrow> 0 | Some v \<Rightarrow> v)"

definition get_gauge :: "string \<Rightarrow> metrics_collector \<Rightarrow> double" where
  "get_gauge name m = (case om_find (mc_gauges m) name of None \<Rightarrow> Fin 0 | Some v \<Rightarrow> v)"

definition get_start_time :: "metrics_collector \<Rightarrow> time_point" where
  "get_start_time m = mc_start_time m"

definition reset_metrics :: "time_point \<Rightarrow> metrics_collector \<Rightarrow> metrics_collector" where
  "reset_metrics now m = m \<lparr>mc_counters := om_empty, mc_gauges := om_empty, mc_timings := om_empty,
     mc_events := [], mc_errors := [], mc_start_time := now\<rparr>"

subsection \<open>Percentiles\<close>

text \<open>\<open>static_cast<size_t>\<close> of a double that is not negative.\<close>

definition double_to_size :: "double \<Rightarrow> nat" where
  "double_to_size d = (case d of Fin x \<Rightarrow> nat (trunc_rat x) | _ \<Rightarrow> 0)"

definition percentile_index :: "nat \<Rightarrow> int \<Rightarrow> double" where
  "percentile_index n percentile =
     dmul (ddiv (double_of_int percentile) (fl 100)) (double_of_int (int n - 1))"

definition calculate_percentile :: "i64 list \<Rightarrow> int \<Rightarrow> double" where
  "calculate_percentile sorted_samples percentile =
     (if sorted_samples = [] then Fin 0
      else
        let index = percentile_index (length sorted_samples) percentile;
            lower_idx = double_to_size (std_floor index);
            upper_idx = double_to_size (std_ceil index)
        in if lower_idx = upper_idx then double_of_int (sint (sorted_samples ! lower_idx))
           else
             let weight = dsub index (double_of_int (int lower_idx))
             in dadd (dmul (double_of_int (sint (sorted_samples ! lower_idx))) (dsub (Fin 1) weight))
                     (dmul (double_of_int (sint (sorted_samples ! upper_idx))) weight))"

subsection \<open>Export\<close>

definition put_all :: "'j ext \<Rightarrow> ('v \<Rightarrow> 'j) \<Rightarrow> (string, 'v) omap \<Rightarrow> 'j" where
  "put_all J f m = fold (\<lambda>(name, v) j. set_key J j name (f v)) m (mk_object J [])"

definition timing_to_json :: "'j ext \<Rightarrow> timing_data \<Rightarrow> 'j" where
  "timing_to_json J t =
     (let put = (\<lambda>k v j. set_key J j k (of_int64 J v));
          putd = (\<lambda>k v j. set_key J j k (of_double J v));
          timing_json =
            putd ''avg_ms'' (if 0 < sint (td_count t)
                              then ddiv (double_of_int (sint (td_sum t))) (double_of_int (sint (td_count t)))
                              else Fin 0)
            (put ''max_ms'' (td_max t) (put ''min_ms'' (td_min t)
            (put ''sum_ms'' (td_sum t) (put ''count'' (td_count t) (mk_object J [])))));
          sorted_samples = sort_key sint (td_samples t)
      in if td_samples t \<noteq> [] then
           putd ''p99_ms'' (calculate_percentile sorted_samples 99)
           (putd ''p95_ms'' (calculate_percentile sorted_samples 95)
           (putd ''p50_ms'' (calculate_percentile sorted_samples 50) timing_json))
         else timing_json)"

text \<open>A steady time stamp as seconds since the epoch: milliseconds since the start, added to the
  system time of the start.\<close>

definition export_timestamp :: "time_point \<Rightarrow> time_point \<Rightarrow> time_point \<Rightarrow> string" where
  "export_timestamp system_start start t =
     int_to_string (sint (to_time_t (system_start + duration_cast 1000000 (t - start) * 1000000)))"

definition event_to_json :: "'j ext \<Rightarrow> time_point \<Rightarrow> time_point \<Rightarrow> event_data \<Rightarrow> 'j" where
  "event_to_json J system_start start e =
     set_key J (set_key J (set_key J (mk_object J [])
       ''timestamp'' (of_string J (export_timestamp system_start start (ev_timestamp e))))
       ''name'' (of_string J (ev_name e)))
       ''tags'' (of_array J (map (of_string J) (ev_tags e)))"

definition error_to_json :: "'j ext \<Rightarrow> time_point \<Rightarrow> time_point \<Rightarrow> error_data \<Rightarrow> 'j" where
  "error_to_json J system_start start e =
     set_key J (set_key J (set_key J (mk_object J [])
       ''timestamp'' (of_string J (export_timestamp system_start start (ed_timestamp e))))
       ''type'' (of_string J (ed_type e)))
       ''details'' (of_string J (ed_details e))"

record export_clock =
  ec_system :: time_point
  ec_steady :: time_point
  ec_system_end :: time_point
  ec_steady_end :: time_point

definition metrics_to_json :: "'j ext \<Rightarrow> export_clock \<Rightarrow> metrics_collector \<Rightarrow> 'j" where
  "metrics_to_json J ck m =
     (let system_start = ec_system ck - (ec_steady ck - mc_start_time m);
          counters = set_key J (mk_object J []) ''counters'' (put_all J (of_int64 J) (mc_counters m));
          gauges = set_key J counters ''gauges'' (put_all J (of_double J) (mc_gauges m));
          timings = set_key J gauges ''timings'' (put_all J (timing_to_json J) (mc_timings m));
          events = set_key J timings ''events''
            (of_array J (map (event_to_json J system_start (mc_start_time m)) (mc_events m)));
          errors = set_key J events ''errors''
            (of_array J (map (error_to_json J system_start (mc_start_time m)) (mc_errors m)))
      in set_key J errors ''system'' (mk_object J
           [(''export_timestamp'', of_int64 J (to_time_t (ec_system_end ck))),
            (''uptime_seconds'',
             of_int64 J (word_of_int (duration_cast 1000000000 (ec_steady_end ck - mc_start_time m))))]))"

definition export_metrics :: "'j ext \<Rightarrow> export_clock \<Rightarrow> metrics_collector \<Rightarrow> string" where
  "export_metrics J ck m =
     (case j_dump J (metrics_to_json J ck m) 2 of Inl e \<Rightarrow> ''{}'' | Inr s \<Rightarrow> s)"

subsection \<open>Bounded logs\<close>

locale bounded_log =
  fixes push :: "'a \<Rightarrow> 'a list \<Rightarrow> 'a list" and bound :: nat
  assumes push_eq: "length xs \<le> bound \<Longrightarrow> push x xs = drop (Suc (length xs) - bound) (xs @ [x])"
    and bound_pos: "0 < bound"
begin

lemma length_push: "length xs \<le> bound \<Longrightarrow> length (push x xs) \<le> bound"
  by (simp add: push_eq)

lemma fold_push:
  "length xs \<le> bound \<Longrightarrow> fold push ys xs = drop (length (xs @ ys) - bound) (xs @ ys)"
proof (induction ys arbitrary: xs)
  case (Cons y ys)
  have "fold push ys (push y xs) =
      drop (length (push y xs @ ys) - bound) (push y xs @ ys)"
    by (rule Cons.IH [OF length_push [OF Cons.prems]])
  also have "\<dots> = drop (length (xs @ y # ys) - bound) (xs @ y # ys)"
    using Cons.prems bound_pos by (cases "length xs = bound") (simp_all add: push_eq)
  finally show ?case by simp
qed simp

lemma length_fold_push: "length xs \<le> bound \<Longrightarrow> length (fold push ys xs) \<le> bound"
  by (induction ys arbitrary: xs) (simp_all add: length_push)

lemma newest_kept: "length xs \<le> bound \<Longrightarrow> x \<in> set (push x xs)"
  using bound_pos by (cases "length xs = bound") (simp_all add: push_eq)

end

interpretation events: bounded_log push_event 1000
  by unfold_locales (auto simp: push_event_def not_less drop_Suc le_less tl_append split: list.split)

interpretation errors: bounded_log push_error 500
  by unfold_locales (auto simp: push_error_def not_less drop_Suc le_less tl_append split: list.split)

interpretation samples: bounded_log push_sample 1001
  by unfold_locales (auto simp: push_sample_def not_less drop_Suc le_less tl_append split: list.split)

subsection \<open>Percentile lemmas\<close>

lemma double_of_int_small: "\<bar>i\<bar> < 2 ^ 53 \<Longrightarrow> double_of_int i = Fin (of_int i)"
  by (simp add: double_of_int_def fl_of_int)

lemma percentile_index_bounds:
  assumes "0 \<le> p" "p \<le> 100" "0 < n" "n \<le> 1001"
  shows "\<exists>x. percentile_index n p = Fin x \<and> 0 \<le> x \<and> x \<le> of_int (int n - 1)"
proof -
  have "\<exists>f. fl (of_int p / 100) = Fin f \<and> 0 \<le> f \<and> f \<le> of_int 1"
    using assms by (intro fl_between) simp_all
  then obtain f where f: "fl (of_int p / 100) = Fin f" "0 \<le> f" "f \<le> 1" by auto
  have n: "(0::rat) \<le> of_int (int n - 1)" using assms(3) by simp
  have "f * of_int (int n - 1) \<le> 1 * of_int (int n - 1)" by (rule mult_right_mono [OF f(3) n])
  then have "\<exists>x. fl (f * of_int (int n - 1)) = Fin x \<and> 0 \<le> x \<and> x \<le> of_int (int n - 1)"
    using f(2) n assms(4) by (intro fl_between) simp_all
  moreover have "percentile_index n p = fl (f * of_int (int n - 1))"
    using assms f(1) double_of_int_small [of p] double_of_int_small [of "int n - 1"]
    by (simp add: percentile_index_def fl_100)
  ultimately show ?thesis by simp
qed

lemma percentile_indices:
  assumes "percentile_index n p = Fin x" "0 \<le> x" "x \<le> of_int (int n - 1)" "0 < n"
  shows "double_to_size (std_floor (percentile_index n p)) = nat \<lfloor>x\<rfloor>"
    and "double_to_size (std_ceil (percentile_index n p)) = nat \<lceil>x\<rceil>"
    and "nat \<lfloor>x\<rfloor> \<le> nat \<lceil>x\<rceil>" and "nat \<lceil>x\<rceil> < n"
proof -
  have c: "\<lceil>x\<rceil> \<le> int n - 1" using assms(3) by (simp only: ceiling_le_iff)
  show "double_to_size (std_floor (percentile_index n p)) = nat \<lfloor>x\<rfloor>"
    and "double_to_size (std_ceil (percentile_index n p)) = nat \<lceil>x\<rceil>"
    by (simp_all add: assms(1) double_to_size_def trunc_rat_def)
  show "nat \<lfloor>x\<rfloor> \<le> nat \<lceil>x\<rceil>" by (intro nat_mono floor_le_ceiling)
  show "nat \<lceil>x\<rceil> < n" using c assms(4) by linarith
qed

lemma percentile_exact:
  assumes "ddiv (double_of_int p) (fl 100) = Fin f" "f * of_int (int n - 1) = of_int (int k)"
    and "0 < n" "n \<le> 1001" "k < n"
  shows "percentile_index n p = Fin (of_int (int k))"
  using assms fl_of_int [of "int k"] double_of_int_small [of "int n - 1"]
  by (simp add: percentile_index_def)

lemma calculate_percentile_at:
  assumes "s \<noteq> []" "percentile_index (length s) p = Fin (of_int (int k))"
  shows "calculate_percentile s p = double_of_int (sint (s ! k))"
  using assms by (simp add: calculate_percentile_def Let_def double_to_size_def trunc_rat_def)

subsection \<open>What every operation keeps\<close>

text \<open>Bounded logs and samples, and tables with ascending keys.\<close>

definition metrics_bounded :: "metrics_collector \<Rightarrow> bool" where
  "metrics_bounded m \<longleftrightarrow>
     length (mc_events m) \<le> 1000 \<and> length (mc_errors m) \<le> 500 \<and>
     om_sorted (mc_counters m) \<and> om_sorted (mc_gauges m) \<and> om_sorted (mc_timings m) \<and>
     (\<forall>name t. om_find (mc_timings m) name = Some t \<longrightarrow>
        td_samples t \<noteq> [] \<and> length (td_samples t) \<le> 1001)"

lemma bounded_new: "metrics_bounded (new_metrics_collector now)"
  by (simp add: metrics_bounded_def new_metrics_collector_def om.find_empty om.inv_empty)

lemma bounded_reset: "metrics_bounded (reset_metrics now m)"
  by (simp add: metrics_bounded_def reset_metrics_def om.find_empty om.inv_empty)

lemma bounded_increment: "metrics_bounded m \<Longrightarrow> metrics_bounded (increment_counter name n m)"
  by (simp add: metrics_bounded_def increment_counter_def om.inv_put)

lemma bounded_gauge: "metrics_bounded m \<Longrightarrow> metrics_bounded (set_gauge name v m)"
  by (simp add: metrics_bounded_def set_gauge_def om.inv_put)

lemma bounded_event: "metrics_bounded m \<Longrightarrow> metrics_bounded (record_event now name tags m)"
  by (simp add: metrics_bounded_def record_event_def events.length_push)

lemma bounded_error: "metrics_bounded m \<Longrightarrow> metrics_bounded (record_error now ty details m)"
  unfolding record_error_def
  by (intro bounded_increment) (simp add: metrics_bounded_def errors.length_push)

lemma push_sample_nonempty: "push_sample d xs \<noteq> []"
  by (simp add: push_sample_def)

lemma bounded_timing:
  assumes "metrics_bounded m"
  shows "metrics_bounded (record_timing name d m)"
proof -
  have "length (td_samples t) \<le> 1001"
    if "(case om_find (mc_timings m) name of None \<Rightarrow> new_timing_data | Some t \<Rightarrow> t) = t" for t
    using assms that by (auto simp: metrics_bounded_def new_timing_data_def split: option.splits)
  then have "length (push_sample d (td_samples (case om_find (mc_timings m) name of None \<Rightarrow> new_timing_data
      | Some t \<Rightarrow> t))) \<le> 1001"
    by (intro samples.length_push) simp
  then show ?thesis
    using assms by (simp add: metrics_bounded_def record_timing_def Let_def om.inv_put om.find_put
        push_sample_nonempty)
qed

text \<open>The collectors a process can have.\<close>

inductive metrics_run :: "metrics_collector \<Rightarrow> bool" where
  start: "metrics_run (new_metrics_collector now)"
| counter: "metrics_run m \<Longrightarrow> metrics_run (increment_counter name n m)"
| gauge: "metrics_run m \<Longrightarrow> metrics_run (set_gauge name v m)"
| timing: "metrics_run m \<Longrightarrow> metrics_run (record_timing name d m)"
| event: "metrics_run m \<Longrightarrow> metrics_run (record_event now name tags m)"
| error: "metrics_run m \<Longrightarrow> metrics_run (record_error now ty details m)"
| reset: "metrics_run m \<Longrightarrow> metrics_run (reset_metrics now m)"

lemma metrics_run_bounded: "metrics_run m \<Longrightarrow> metrics_bounded m"
  by (induction rule: metrics_run.induct)
    (simp_all add: bounded_new bounded_reset bounded_increment bounded_gauge bounded_event bounded_error
      bounded_timing)

lemma mc_counters_put: "get_counter k (m \<lparr>mc_errors := es\<rparr>) = get_counter k m"
  by (simp add: get_counter_def)

lemma get_counter_increment:
  "metrics_bounded m \<Longrightarrow>
     get_counter k (increment_counter name n m) = get_counter k m + (if k = name then n else 0)"
  by (simp add: get_counter_def increment_counter_def metrics_bounded_def om.find_put)

lemma get_counter_record_error:
  assumes "metrics_bounded m"
  shows "get_counter k (record_error now ty details m) =
     get_counter k m + (if k = ''errors.total'' then 1 else 0) + (if k = ''errors.'' @ ty then 1 else 0)"
proof -
  have b: "metrics_bounded (m \<lparr>mc_errors := push_error e (mc_errors m)\<rparr>)" for e
    using assms by (simp add: metrics_bounded_def errors.length_push)
  show ?thesis
    unfolding record_error_def
    using get_counter_increment [OF bounded_increment [OF b]] get_counter_increment [OF b]
    by (simp add: mc_counters_put)
qed

definition error_entry :: "time_point \<times> string \<times> string \<Rightarrow> error_data" where
  "error_entry e = (case e of (t, ty, d) \<Rightarrow> \<lparr>ed_timestamp = t, ed_type = ty, ed_details = d\<rparr>)"

definition record_errors :: "(time_point \<times> string \<times> string) list \<Rightarrow> metrics_collector \<Rightarrow> metrics_collector" where
  "record_errors = fold (\<lambda>(t, ty, d). record_error t ty d)"

lemma record_errors_Cons:
  "record_errors ((t, ty, d) # es) m = record_errors es (record_error t ty d m)"
  by (simp add: record_errors_def)

lemma mc_errors_record_errors:
  "mc_errors (record_errors es m) = fold push_error (map error_entry es) (mc_errors m)"
  by (induction es arbitrary: m)
    (auto simp: record_errors_def record_error_def increment_counter_def error_entry_def)

lemma get_counter_record_errors:
  "metrics_bounded m \<Longrightarrow> k \<noteq> ''total'' \<Longrightarrow>
     get_counter ''errors.total'' (record_errors es m) = get_counter ''errors.total'' m +
       of_nat (length es) + of_nat (length (filter (\<lambda>(t, ty, d). ty = ''total'') es)) \<and>
     get_counter (''errors.'' @ k) (record_errors es m) = get_counter (''errors.'' @ k) m +
       of_nat (length (filter (\<lambda>(t, ty, d). ty = k) es))"
proof (induction es arbitrary: m)
  case (Cons e es)
  obtain t ty d where e: "e = (t, ty, d)" by (cases e) auto
  show ?case
    using Cons.IH [OF bounded_error [OF Cons.prems(1)] Cons.prems(2), of t ty d] Cons.prems
    by (cases "ty = ''total''"; cases "ty = k")
      (simp_all add: record_errors_Cons e get_counter_record_error eq_commute [of _ ty] algebra_simps)
qed (simp add: record_errors_def)

subsection \<open>Properties\<close>

text \<open>A percentile never reads outside the samples, for any percentage and any number of
  samples the collector keeps; the 0th is the smallest, the 100th the largest, and of an odd
  number of samples the 50th is the middle one.\<close>

theorem percentile_within_samples:
  assumes "0 \<le> p" "p \<le> 100" "s \<noteq> []" "length s \<le> 1001"
  shows "double_to_size (std_floor (percentile_index (length s) p)) \<le>
       double_to_size (std_ceil (percentile_index (length s) p)) \<and>
     double_to_size (std_ceil (percentile_index (length s) p)) < length s \<and>
     calculate_percentile s 0 = double_of_int (sint (hd s)) \<and>
     calculate_percentile s 100 = double_of_int (sint (last s)) \<and>
     (length s = 2 * k + 1 \<longrightarrow> calculate_percentile s 50 = double_of_int (sint (s ! k)))"
proof -
  have n: "0 < length s" using assms(3) by simp
  obtain x where x: "percentile_index (length s) p = Fin x" "0 \<le> x" "x \<le> of_int (int (length s) - 1)"
    using percentile_index_bounds [OF assms(1,2) n assms(4)] by blast
  have half: "rnd (1 / 2) = 1 / 2" by code_simp
  have d: "ddiv (double_of_int 0) (fl 100) = Fin 0" "ddiv (double_of_int 100) (fl 100) = Fin 1"
    "ddiv (double_of_int 50) (fl 100) = Fin (1 / 2)"
    using double_of_int_small [of 0] double_of_int_small [of 100] double_of_int_small [of 50]
      fl_of_int [of 1] fl_computes [OF half]
    by (simp_all add: fl_100 fl_zero)
  have "calculate_percentile s 0 = double_of_int (sint (s ! 0))"
    using n assms(4) by (intro calculate_percentile_at percentile_exact [OF d(1)] assms(3)) simp_all
  moreover have pred: "rat_of_nat (length s - Suc 0) = of_nat (length s) - 1"
    using n by (simp add: of_nat_diff Suc_le_eq)
  moreover have "calculate_percentile s 100 = double_of_int (sint (s ! (length s - 1)))"
    using n assms(4) by (intro calculate_percentile_at percentile_exact [OF d(2)] assms(3)) (simp_all add: pred)
  moreover have "calculate_percentile s 50 = double_of_int (sint (s ! k))" if "length s = 2 * k + 1"
    using n assms(4) that by (intro calculate_percentile_at percentile_exact [OF d(3)] assms(3)) simp_all
  ultimately show ?thesis
    using percentile_indices [OF x n] assms(3) by (simp add: hd_conv_nth last_conv_nth)
qed

theorem percentile_within_samples_witness:
  "calculate_percentile [10, 20, 30] 50 = double_of_int (sint (20 :: i64))"
  using percentile_within_samples [of 95 "[10, 20, 30]" 1] by simp

text \<open>The metrics stay bounded whatever is recorded: at most 1000 events, 500 errors and 1001
  samples per timing.\<close>

theorem metrics_stay_bounded:
  assumes "metrics_run m"
  shows "length (mc_events m) \<le> 1000 \<and> length (mc_errors m) \<le> 500 \<and>
     (\<forall>name t. om_find (mc_timings m) name = Some t \<longrightarrow> length (td_samples t) \<le> 1001)"
  using metrics_run_bounded [OF assms] unfolding metrics_bounded_def by blast

theorem metrics_stay_bounded_witness:
  "length (mc_events (record_event 1 ''a'' [] (new_metrics_collector 0))) \<le> 1000"
  using metrics_stay_bounded [OF metrics_run.event [OF metrics_run.start]] by blast

text \<open>C39: The error log keeps exactly the newest 500 errors in their order, while the counters
  count all of them, in total and by type. An error type called \<open>total\<close> would be counted twice.\<close>

theorem error_log_window:
  assumes "metrics_run m" "mc_errors m = []" "k \<noteq> ''total''"
  shows "mc_errors (record_errors es m) = drop (length es - 500) (map error_entry es) \<and>
     get_counter ''errors.total'' (record_errors es m) = get_counter ''errors.total'' m +
       of_nat (length es) + of_nat (length (filter (\<lambda>(t, ty, d). ty = ''total'') es)) \<and>
     get_counter (''errors.'' @ k) (record_errors es m) = get_counter (''errors.'' @ k) m +
       of_nat (length (filter (\<lambda>(t, ty, d). ty = k) es))"
  using get_counter_record_errors [OF metrics_run_bounded [OF assms(1)] assms(3)]
    errors.fold_push [of "[]" "map error_entry es"] assms(2)
  by (simp add: mc_errors_record_errors)

theorem error_log_window_witness:
  "mc_errors (record_errors [(1, ''x'', ''d'')] (new_metrics_collector 0)) = [error_entry (1, ''x'', ''d'')]"
  using error_log_window [OF metrics_run.start, of 0 "''x''" "[(1, ''x'', ''d'')]"]
  by (simp add: new_metrics_collector_def)

text \<open>One error whose details the JSON library refuses to print (they are not valid UTF-8)
  blanks the whole export: as long as it is among the newest 500, \<open>export_metrics\<close> gives
  \<open>{}\<close>, whatever else the collector holds.\<close>

theorem bad_error_blanks_export:
  assumes "json_printing J" and "j_dump J (of_string J bad) 2 = Inl e"
    and "\<lparr>ed_timestamp = t, ed_type = ty, ed_details = bad\<rparr> \<in> set (mc_errors m)"
  shows "export_metrics J ck m = ''{}''"
proof (cases "j_dump J (metrics_to_json J ck m) 2")
  case (Inr s)
  let ?e = "\<lparr>ed_timestamp = t, ed_type = ty, ed_details = bad\<rparr>"
  let ?start = "ec_system ck - (ec_steady ck - mc_start_time m)"
  have laws: "json_laws J" using assms(1) by (rule json_printing.axioms(1))
  note at = json_laws.at_set_same [OF laws] json_laws.at_set_other [OF laws]
    json_laws.object_set [OF laws] json_laws.object_mk [OF laws]
  have "j_at J (metrics_to_json J ck m) ''errors'' =
      Inr (of_array J (map (error_to_json J ?start (mc_start_time m)) (mc_errors m)))"
    by (simp add: metrics_to_json_def Let_def at)
  then obtain s1 where
    "j_dump J (of_array J (map (error_to_json J ?start (mc_start_time m)) (mc_errors m))) 2 = Inr s1"
    using json_printing.print_member [OF assms(1) Inr] by blast
  then obtain s2 where s2: "j_dump J (error_to_json J ?start (mc_start_time m) ?e) 2 = Inr s2"
    using json_printing.print_in_array [OF assms(1)] assms(3) by fastforce
  have "j_at J (error_to_json J ?start (mc_start_time m) ?e) ''details'' = Inr (of_string J bad)"
    by (simp add: error_to_json_def at)
  then show ?thesis
    using json_printing.print_member [OF assms(1) s2] assms(2) by force
qed (simp add: export_metrics_def)

definition poisoned :: metrics_collector where
  "poisoned = record_error 5 ''protocol_error'' [CHR 0xFF] (record_event 1 ''server_start'' []
     (new_metrics_collector 0))"

theorem bad_error_blanks_export_witness: "export_metrics ref_json \<lparr>ec_system = 9, ec_steady = 8, ec_system_end = 9, ec_steady_end = 8\<rparr>
     poisoned = ''{}''"
proof (rule bad_error_blanks_export [OF ref.json_printing_axioms])
  show "j_dump ref_json (of_string ref_json [CHR 0xFF]) 2 = Inl type_error"
    by (simp add: ref_dump_def)
  show "\<lparr>ed_timestamp = 5, ed_type = ''protocol_error'', ed_details = [CHR 0xFF]\<rparr> \<in> set (mc_errors poisoned)"
    by (simp add: poisoned_def record_error_def record_event_def increment_counter_def push_error_def
        new_metrics_collector_def)
qed

end
