(* ===== verification/Connection_Manager.thy ===== *)
theory Connection_Manager
  imports Runtime_Config Ordered_Map Protocol
begin

unbundle bit_operations_syntax

text \<open>
  \<^verbatim>\<open>src/server/connection_manager.{hpp,cpp}\<close>: the table of authenticated sessions. A
  session is a reference (a number); a null pointer is \<open>None\<close>. Every method holds the table's
  mutex for the accesses that matter, so each is one step. The random generator is a parameter:
  the \<open>n\<close>-th number drawn, or \<open>None\<close> when seeding it throws.
\<close>

type_synonym session_ref = nat
type_synonym entropy = "nat \<Rightarrow> u32 option"

record connection_manager =
  cm_sessions :: "(string, session_ref) omap"
  cm_counter :: u64
  cm_fallback_counter :: u64
  cm_draws :: nat

definition new_connection_manager :: connection_manager where
  "new_connection_manager =
     \<lparr>cm_sessions = om_empty, cm_counter = 0, cm_fallback_counter = 0, cm_draws = 0\<rparr>"

definition MAX_SESSION_ID_RETRIES :: nat where "MAX_SESSION_ID_RETRIES = 3"

subsection \<open>Session ids\<close>

definition hex :: string where "hex = ''0123456789abcdef''"

definition hex_string :: "u64 \<Rightarrow> string" where
  "hex_string mixed = map (\<lambda>i. hex ! unat (drop_bit (60 - 4 * i) mixed AND 0xF)) [0..<16]"

definition mix :: "u64 \<Rightarrow> u32 \<Rightarrow> u64" where
  "mix counter r = push_bit 32 counter XOR ucast r"

definition generate_session_id :: "entropy \<Rightarrow> connection_manager \<Rightarrow> string \<times> connection_manager" where
  "generate_session_id rng m =
     (let counter = cm_counter m;
          m1 = m \<lparr>cm_counter := counter + 1, cm_draws := cm_draws m + 1\<rparr>
      in case rng (cm_draws m) of
           Some r \<Rightarrow> (''sess_'' @ hex_string (mix counter r), m1)
         | None \<Rightarrow>
             (''sess_'' @ nat_to_string (unat (cm_fallback_counter m)),
              m1 \<lparr>cm_fallback_counter := cm_fallback_counter m + 1\<rparr>))"

subsection \<open>Operations\<close>

text \<open>The attempts of \<open>register_session\<close>, from number \<open>attempt\<close> on, \<open>left\<close> of them left.\<close>

fun register_attempts ::
  "entropy \<Rightarrow> session_ref \<Rightarrow> nat \<Rightarrow> nat \<Rightarrow> connection_manager \<Rightarrow>
     log_line list \<times> string \<times> connection_manager" where
  "register_attempts rng session attempt 0 m =
     ([log_error ''[ConnectionManager] Session ID collision after all retries''], [], m)"
| "register_attempts rng session attempt (Suc left) m =
     (case generate_session_id rng m of
        (session_id, m1) \<Rightarrow>
          if session_id = [] then
            ([log_error ''[ConnectionManager] Failed to generate session ID''], [], m1)
          else if length session_id > MAX_SESSION_ID_LENGTH then
            ([log_error ''[ConnectionManager] Generated session ID exceeds maximum length''], [], m1)
          else if length (cm_sessions m1) \<ge> MAX_CONNECTIONS then
            ([log_error (''[ConnectionManager] Maximum connections reached ('' @
                nat_to_string MAX_CONNECTIONS @ '')'')], [], m1)
          else
            (case om_try_emplace session_id session (cm_sessions m1) of
               (table, False) \<Rightarrow>
                 (case register_attempts rng session (attempt + 1) left m1 of
                    (l, r) \<Rightarrow>
                      (log_error (''[ConnectionManager] Session ID collision (attempt '' @
                         nat_to_string (attempt + 1) @ ''), retrying: '' @ sanitize_session_id session_id)
                       # l, r))
             | (table, True) \<Rightarrow>
                 ([log_message (''[ConnectionManager] Registered session: '' @
                     sanitize_session_id session_id @ '' (total: '' @ nat_to_string (length table) @ '')'')],
                  session_id, m1 \<lparr>cm_sessions := table\<rparr>)))"

definition register_session ::
  "entropy \<Rightarrow> session_ref option \<Rightarrow> connection_manager \<Rightarrow> log_line list \<times> string \<times> connection_manager" where
  "register_session rng session m =
     (case session of
        None \<Rightarrow> ([log_error ''[ConnectionManager] Cannot register null session''], [], m)
      | Some s \<Rightarrow> register_attempts rng s 0 MAX_SESSION_ID_RETRIES m)"

definition unregister_session :: "string \<Rightarrow> connection_manager \<Rightarrow> log_line list \<times> connection_manager" where
  "unregister_session session_id m =
     (if session_id = [] then ([], m)
      else case om_find (cm_sessions m) session_id of
          None \<Rightarrow> ([], m)
        | Some _ \<Rightarrow>
            (let table = om_erase session_id (cm_sessions m)
             in ([log_message (''[ConnectionManager] Unregistered session: '' @
                    sanitize_session_id session_id @ '' (remaining: '' @ nat_to_string (length table) @ '')'')],
                 m \<lparr>cm_sessions := table\<rparr>)))"

definition get_session :: "string \<Rightarrow> connection_manager \<Rightarrow> session_ref option" where
  "get_session session_id m = om_find (cm_sessions m) session_id"

definition active_session_ids :: "connection_manager \<Rightarrow> string list" where
  "active_session_ids m = om_keys (cm_sessions m)"

definition session_count :: "connection_manager \<Rightarrow> nat" where
  "session_count m = length (cm_sessions m)"

text \<open>The sessions whose \<open>close\<close> is called, in the order of the calls.\<close>

definition stop_all :: "connection_manager \<Rightarrow> log_line list \<times> session_ref list \<times> connection_manager" where
  "stop_all m =
     ([log_message (''[ConnectionManager] Stopped '' @ nat_to_string (session_count m) @ '' session(s).'')],
      map snd (cm_sessions m), m \<lparr>cm_sessions := om_empty\<rparr>)"

subsection \<open>The registry interface\<close>

text \<open>What the sessions and the server rely on. The registry maps ids to sessions; a session is
  added under a fresh id that is not empty, or not at all.\<close>

locale session_registry =
  fixes lookup :: "'m \<Rightarrow> string \<Rightarrow> 's option"
    and add :: "'s \<Rightarrow> 'm \<Rightarrow> string \<times> 'm"
    and remove :: "string \<Rightarrow> 'm \<Rightarrow> 'm"
    and capacity :: nat
    and ok :: "'m \<Rightarrow> bool"
  assumes ok_add: "ok m \<Longrightarrow> ok (snd (add s m))"
    and ok_remove: "ok m \<Longrightarrow> ok (remove sid m)"
    and no_empty_id: "ok m \<Longrightarrow> lookup m [] = None"
    and card_bound: "ok m \<Longrightarrow> finite (dom (lookup m)) \<and> card (dom (lookup m)) \<le> capacity"
    and add_refused: "ok m \<Longrightarrow> fst (add s m) = [] \<Longrightarrow> lookup (snd (add s m)) = lookup m"
    and add_fresh: "ok m \<Longrightarrow> fst (add s m) \<noteq> [] \<Longrightarrow> lookup m (fst (add s m)) = None"
    and add_lookup: "ok m \<Longrightarrow> fst (add s m) \<noteq> [] \<Longrightarrow>
          lookup (snd (add s m)) = (lookup m)(fst (add s m) \<mapsto> s)"
    and remove_lookup: "ok m \<Longrightarrow> lookup (remove sid m) = (lookup m)(sid := None)"
begin

definition owned :: "'s \<Rightarrow> 'm \<Rightarrow> string set" where
  "owned s m = {sid. lookup m sid = Some s}"

lemma owned_add:
  "ok m \<Longrightarrow> owned t (snd (add s m)) =
     (if fst (add s m) \<noteq> [] \<and> t = s then insert (fst (add s m)) (owned t m) else owned t m)"
  using add_refused [of m s] add_fresh [of m s] add_lookup [of m s]
  by (cases "fst (add s m) = []") (auto simp: owned_def)

lemma owned_remove: "ok m \<Longrightarrow> owned t (remove sid m) = owned t m - {sid}"
  by (auto simp: owned_def remove_lookup)

lemma owned_nonempty_id: "ok m \<Longrightarrow> sid \<in> owned s m \<Longrightarrow> sid \<noteq> []"
  using no_empty_id by (auto simp: owned_def)

lemma owned_disjoint: "s \<noteq> t \<Longrightarrow> owned s m \<inter> owned t m = {}"
  by (auto simp: owned_def)

lemma add_remove:
  assumes "ok m" "fst (add s m) \<noteq> []"
  shows "lookup (remove (fst (add s m)) (snd (add s m))) = lookup m"
  using add_fresh [OF assms] add_lookup [OF assms] ok_add [OF assms(1)]
  by (auto simp: remove_lookup fun_eq_iff)

lemma full_refuses:
  assumes "ok m" "card (dom (lookup m)) = capacity"
  shows "fst (add s m) = []"
proof (rule ccontr)
  assume "fst (add s m) \<noteq> []"
  then show False
    using assms add_fresh [of m s] add_lookup [of m s] card_bound [of m] card_bound [OF ok_add [OF assms(1)], of s]
    by (auto simp: domIff)
qed

end

subsection \<open>Ids are well formed\<close>

lemma length_hex_string [simp]: "length (hex_string x) = 16"
  by (simp add: hex_string_def)

lemma hex_nth_valid: "n < 16 \<Longrightarrow> is_valid_session_id_char (hex ! n)"
proof -
  have "list_all is_valid_session_id_char hex"
    by (simp add: hex_def is_valid_session_id_char_def less_eq_char_def)
  then show "n < 16 \<Longrightarrow> is_valid_session_id_char (hex ! n)"
    by (simp add: list_all_length hex_def)
qed

lemma nibble_less: "unat (x AND 0xF :: u64) < 16"
proof -
  have "x AND 0xF \<le> 0xF" by (rule word_and_le1)
  then have "unat (x AND 0xF) \<le> unat (0xF :: u64)" by (simp only: word_le_nat_alt)
  then show ?thesis by simp
qed

lemma hex_string_valid: "c \<in> set (hex_string x) \<Longrightarrow> is_valid_session_id_char c"
  unfolding hex_string_def using hex_nth_valid nibble_less by auto

lemma digit_valid: "is_digit c \<Longrightarrow> is_valid_session_id_char c"
  by (simp add: is_digit_def is_valid_session_id_char_def)

lemma length_nat_to_string: "n < 10 ^ k \<Longrightarrow> 0 < k \<Longrightarrow> length (nat_to_string n) \<le> k"
proof (induction n arbitrary: k rule: nat_to_string.induct)
  case (1 n)
  show ?case
  proof (cases "n < 10")
    case True
    then show ?thesis using "1.prems" by (subst nat_to_string.simps) simp
  next
    case False
    obtain j where k: "k = Suc j" using "1.prems" by (cases k) simp_all
    have "n div 10 < 10 ^ j" using "1.prems" k by (simp add: less_mult_imp_div_less mult.commute)
    moreover have "0 < j" using False "1.prems" k by (cases j) simp_all
    ultimately have "length (nat_to_string (n div 10)) \<le> j" by (rule "1.IH" [OF False])
    then show ?thesis using False k by (subst nat_to_string.simps) simp
  qed
qed

lemma session_id_intro:
  "rest \<noteq> [] \<Longrightarrow> length rest \<le> 123 \<Longrightarrow> (\<And>c. c \<in> set rest \<Longrightarrow> is_valid_session_id_char c) \<Longrightarrow>
     well_formed_session_id (''sess_'' @ rest)"
  unfolding well_formed_session_id_def session_id_char_iff [symmetric] by auto

lemma well_formed_length: "well_formed_session_id sid \<Longrightarrow> length sid \<le> 128"
  unfolding well_formed_session_id_def by blast

lemma generated_id_well_formed: "well_formed_session_id (fst (generate_session_id rng m))"
proof (cases "rng (cm_draws m)")
  case (Some r)
  have "well_formed_session_id (''sess_'' @ hex_string (mix (cm_counter m) r))"
  proof (rule session_id_intro)
    show "hex_string (mix (cm_counter m) r) \<noteq> []"
      by (metis length_hex_string length_0_conv zero_neq_numeral)
  qed (simp_all add: hex_string_valid)
  then show ?thesis by (simp add: generate_session_id_def Let_def Some)
next
  case None
  let ?n = "unat (cm_fallback_counter m)"
  have "?n < 10 ^ 20"
    by (rule less_le_trans [OF unsigned_less]) simp
  then have "length (nat_to_string ?n) \<le> 20" by (rule length_nat_to_string) simp
  then have "well_formed_session_id (''sess_'' @ nat_to_string ?n)"
    using nat_to_string_nonempty digit_valid nat_to_string_digits by (intro session_id_intro) auto
  then show ?thesis by (simp add: generate_session_id_def Let_def None)
qed

lemma generate_frame [frame_simps]:
  "cm_sessions (snd (generate_session_id rng m)) = cm_sessions m"
  "cm_counter (snd (generate_session_id rng m)) = cm_counter m + 1"
  "cm_draws (snd (generate_session_id rng m)) = cm_draws m + 1"
  by (simp_all add: generate_session_id_def Let_def split: option.split)

subsection \<open>Registration\<close>

definition manager_ok :: "connection_manager \<Rightarrow> bool" where
  "manager_ok m \<longleftrightarrow> om_sorted (cm_sessions m) \<and> length (cm_sessions m) \<le> MAX_CONNECTIONS \<and>
     (\<forall>sid \<in> dom (om_find (cm_sessions m)). well_formed_session_id sid)"

text \<open>Refused, or the session is in the table under a fresh well-formed id and nothing else
  changed.\<close>

definition registered_as :: "session_ref \<Rightarrow> string \<Rightarrow> connection_manager \<Rightarrow> connection_manager \<Rightarrow> bool" where
  "registered_as s sid m m' \<longleftrightarrow>
     (if sid = [] then cm_sessions m' = cm_sessions m
      else well_formed_session_id sid \<and> om_find (cm_sessions m) sid = None \<and>
        length (cm_sessions m) < MAX_CONNECTIONS \<and>
        cm_sessions m' = om_put sid s (cm_sessions m))"

lemma register_attempts_registers:
  "register_attempts rng s attempt left m = (l, sid, m') \<Longrightarrow> registered_as s sid m m'"
proof (induction left arbitrary: attempt m l sid m')
  case (Suc left)
  obtain sid1 m1 where g: "generate_session_id rng m = (sid1, m1)" by (cases "generate_session_id rng m")
  have w: "well_formed_session_id sid1" "cm_sessions m1 = cm_sessions m"
    using generated_id_well_formed [of rng m] generate_frame(1) [of rng m] by (simp_all add: g)
  show ?case
  proof (cases "om_find (cm_sessions m) sid1")
    case None
    then show ?thesis
      using Suc.prems w well_formed_session_id_nonempty [OF w(1)]
      by (auto simp: g registered_as_def om_try_emplace_def split: if_splits)
  next
    case (Some t)
    obtain l2 sid2 m2 where r: "register_attempts rng s (attempt + 1) left m1 = (l2, sid2, m2)"
      by (cases "register_attempts rng s (attempt + 1) left m1")
    have "registered_as s sid2 m1 m2" by (rule Suc.IH [OF r])
    then show ?thesis
      using Suc.prems w r Some
      by (auto simp: g registered_as_def om_try_emplace_def split: if_splits)
  qed
qed (auto simp: registered_as_def)

lemma register_session_registers:
  "register_session rng (Some s) m = (l, sid, m') \<Longrightarrow> registered_as s sid m m'"
  unfolding register_session_def by (simp add: register_attempts_registers)

lemma register_registered:
  "registered_as s (fst (snd (register_session rng (Some s) m))) m (snd (snd (register_session rng (Some s) m)))"
  using register_session_registers by (cases "register_session rng (Some s) m") auto

lemma registered_ok: "manager_ok m \<Longrightarrow> registered_as s sid m m' \<Longrightarrow> manager_ok m'"
  by (cases "sid = []")
    (auto simp: manager_ok_def registered_as_def om.inv_put om.find_put om.size_put dom_def split: if_splits)

lemma manager_no_empty:
  assumes "manager_ok m"
  shows "om_find (cm_sessions m) [] = None"
proof (rule ccontr)
  assume "om_find (cm_sessions m) [] \<noteq> None"
  then have "well_formed_session_id []" using assms by (simp add: manager_ok_def domIff)
  then show False using well_formed_session_id_nonempty by blast
qed

lemma unregister_table:
  "manager_ok m \<Longrightarrow> om_find (cm_sessions (snd (unregister_session sid m))) =
     (om_find (cm_sessions m))(sid := None)"
  using manager_no_empty [of m]
  by (auto simp: unregister_session_def manager_ok_def om.find_erase Let_def fun_eq_iff split: option.split)

lemma unregister_ok: "manager_ok m \<Longrightarrow> manager_ok (snd (unregister_session sid m))"
  by (auto simp: unregister_session_def manager_ok_def om.find_erase om.inv_erase Let_def dom_def split: option.split
      if_splits intro: order.trans [OF om.size_erase_le])

interpretation registry: session_registry
  "\<lambda>m. om_find (cm_sessions m)" "\<lambda>s m. snd (register_session rng (Some s) m)"
  "\<lambda>sid m. snd (unregister_session sid m)" MAX_CONNECTIONS manager_ok
  for rng
proof
  fix m s sid
  assume m: "manager_ok m"
  note r = register_registered [of s rng m]
  show "manager_ok (snd (snd (register_session rng (Some s) m)))" by (rule registered_ok [OF m r])
  show "manager_ok (snd (unregister_session sid m))" by (rule unregister_ok [OF m])
  show "om_find (cm_sessions m) [] = None"
    by (rule manager_no_empty [OF m])
  show "finite (dom (om_find (cm_sessions m))) \<and> card (dom (om_find (cm_sessions m))) \<le> MAX_CONNECTIONS"
    using m by (simp add: manager_ok_def om.finite_dom flip: om.size_card)
  show "om_find (cm_sessions (snd (unregister_session sid m))) = (om_find (cm_sessions m))(sid := None)"
    by (rule unregister_table [OF m])
  { assume "fst (snd (register_session rng (Some s) m)) = []"
    then show "om_find (cm_sessions (snd (snd (register_session rng (Some s) m)))) = om_find (cm_sessions m)"
      using r by (simp add: registered_as_def) }
  { assume "fst (snd (register_session rng (Some s) m)) \<noteq> []"
    then show "om_find (cm_sessions m) (fst (snd (register_session rng (Some s) m))) = None"
      and "om_find (cm_sessions (snd (snd (register_session rng (Some s) m)))) =
        (om_find (cm_sessions m))(fst (snd (register_session rng (Some s) m)) \<mapsto> s)"
      using r m by (auto simp: registered_as_def manager_ok_def om.find_put) }
qed

subsection \<open>Ids do not repeat\<close>

lemma hex_inj: "i < 16 \<Longrightarrow> j < 16 \<Longrightarrow> hex ! i = hex ! j \<Longrightarrow> i = j"
proof -
  have "distinct hex" by (simp add: hex_def)
  moreover have "length hex = 16" by (simp add: hex_def)
  ultimately show "i < 16 \<Longrightarrow> j < 16 \<Longrightarrow> hex ! i = hex ! j \<Longrightarrow> i = j"
    using nth_eq_iff_index_eq [of hex i j] by simp
qed

lemma nibble_bits:
  fixes x y :: u64
  assumes "x AND 0xF = y AND 0xF" "k < 4"
  shows "bit x k = bit y k"
proof -
  have m: "(0xF :: u64) = mask 4" by (simp add: mask_eq_exp_minus_1)
  have "bit (x AND 0xF) k = bit (y AND 0xF) k" using assms(1) by simp
  then show ?thesis using assms(2) by (simp add: m bit_and_iff bit_mask_iff)
qed

lemma hex_string_inj:
  assumes "hex_string x = hex_string y"
  shows "x = y"
proof (rule bit_word_eqI)
  fix j assume j: "j < LENGTH(64)"
  define i where "i = 15 - j div 4"
  have i: "i < 16" "60 - 4 * i + j mod 4 = j"
    unfolding i_def using j by (simp, simp, presburger)
  have "hex_string x ! i = hex_string y ! i" using assms by simp
  then have "drop_bit (60 - 4 * i) x AND 0xF = drop_bit (60 - 4 * i) y AND 0xF"
    using i(1) hex_inj nibble_less by (simp add: hex_string_def word_unat_eq_iff)
  then have "bit (drop_bit (60 - 4 * i) x) (j mod 4) = bit (drop_bit (60 - 4 * i) y) (j mod 4)"
    by (rule nibble_bits) simp
  then show "bit x j = bit y j" using i(2) by (simp add: bit_drop_bit_eq)
qed

lemma mix_counter:
  assumes "mix a r = mix b r'"
  shows "take_bit 32 a = take_bit 32 b"
proof (rule bit_word_eqI)
  fix j assume "j < LENGTH(64)"
  have "bit (mix a r) (j + 32) = bit (mix b r') (j + 32)" using assms by simp
  moreover have "\<not> bit r (j + 32)" "\<not> bit r' (j + 32)" by (auto dest: bit_imp_le_length)
  ultimately show "bit (take_bit 32 a) j = bit (take_bit 32 b) j"
    by (auto simp: mix_def bit_simps)
qed

lemma take_bit_small: "unat (a :: u64) < 2 ^ 32 \<Longrightarrow> take_bit 32 a = a"
proof -
  assume "unat a < 2 ^ 32"
  then have "unat (take_bit 32 a) = unat a" unfolding unsigned_take_bit_eq by (rule take_bit_nat_eq_self)
  then show "take_bit 32 a = a" by (rule word_unat_eq_iff [THEN iffD2])
qed

lemma mix_counter_small:
  assumes "mix a r = mix b r'" "unat a < 2 ^ 32" "unat b < 2 ^ 32"
  shows "a = b"
proof -
  have "take_bit 32 a = a" "take_bit 32 b = b" using assms(2,3) by (simp_all only: take_bit_small)
  then show ?thesis using mix_counter [OF assms(1)] by metis
qed

text \<open>Where the ids in the table come from, while fewer than \<open>2\<^sup>3\<^sup>2\<close> have been drawn.\<close>

definition ids_from_counter :: "connection_manager \<Rightarrow> bool" where
  "ids_from_counter m \<longleftrightarrow>
     (cm_draws m \<le> 2 ^ 32 \<longrightarrow>
        unat (cm_counter m) = cm_draws m \<and>
        (\<forall>sid s. om_find (cm_sessions m) sid = Some s \<longrightarrow>
           (\<exists>c r. unat c < cm_draws m \<and> sid = ''sess_'' @ hex_string (mix c r))))"

text \<open>The managers a process can have.\<close>

inductive manager_run :: "entropy \<Rightarrow> connection_manager \<Rightarrow> bool" for rng where
  start: "manager_run rng new_connection_manager"
| register: "manager_run rng m \<Longrightarrow> register_session rng s m = (l, sid, m') \<Longrightarrow> manager_run rng m'"
| unregister: "manager_run rng m \<Longrightarrow> unregister_session sid m = (l, m') \<Longrightarrow> manager_run rng m'"
| stop: "manager_run rng m \<Longrightarrow> stop_all m = (l, ss, m') \<Longrightarrow> manager_run rng m'"

lemma stop_all_ok: "stop_all m = (l, ss, m') \<Longrightarrow> manager_ok m'"
  by (auto simp: stop_all_def manager_ok_def om.inv_empty om.find_empty om.size_empty dom_def)

lemma manager_run_ok: "manager_run rng m \<Longrightarrow> manager_ok m"
proof (induction rule: manager_run.induct)
  case start
  show ?case
    by (simp add: manager_ok_def new_connection_manager_def om.inv_empty om.find_empty om.size_empty dom_def)
next
  case (register m s l sid m')
  then show ?case
    by (cases s) (auto simp: register_session_def intro: registered_ok register_attempts_registers)
next
  case (unregister m sid l m')
  then show ?case using unregister_ok [of m sid] by simp
next
  case (stop m l ss m')
  show ?case by (rule stop_all_ok [OF stop(2)])
qed

lemma unat_succ: "unat (c :: u64) \<le> 2 ^ 32 \<Longrightarrow> unat (c + 1) = Suc (unat c)"
  by (simp add: unat_word_ariths)

lemma fresh_id:
  assumes "ids_from_counter m" "cm_draws m < 2 ^ 32" "rng (cm_draws m) = Some r"
  shows "om_find (cm_sessions m) (fst (generate_session_id rng m)) = None"
proof (rule ccontr)
  assume "om_find (cm_sessions m) (fst (generate_session_id rng m)) \<noteq> None"
  then obtain c r' where c: "unat c < cm_draws m" "hex_string (mix (cm_counter m) r) = hex_string (mix c r')"
    and k: "unat (cm_counter m) = cm_draws m"
    using assms by (auto simp: ids_from_counter_def generate_session_id_def Let_def)
  have "cm_counter m = c"
    using assms(2) c k by (intro mix_counter_small [OF hex_string_inj]) auto
  then show False using c(1) k by simp
qed

lemma register_first_attempt:
  assumes "ids_from_counter m" "cm_draws m < 2 ^ 32" "rng (cm_draws m) = Some r"
    and "length (cm_sessions m) < MAX_CONNECTIONS"
  shows "\<exists>l m'. register_session rng (Some s) m = (l, fst (generate_session_id rng m), m') \<and>
     cm_draws m' = Suc (cm_draws m)"
proof -
  obtain sid m1 where g: "generate_session_id rng m = (sid, m1)" by (cases "generate_session_id rng m")
  have w: "well_formed_session_id sid" "cm_sessions m1 = cm_sessions m" "cm_draws m1 = cm_draws m + 1"
    using generated_id_well_formed [of rng m] generate_frame(1,3) [of rng m] by (simp_all add: g)
  have f: "om_find (cm_sessions m) sid = None" using fresh_id [of m rng r] assms(1-3) by (simp add: g)
  have "length sid \<le> MAX_SESSION_ID_LENGTH"
    using well_formed_length [OF w(1)] by (simp add: MAX_SESSION_ID_LENGTH_def)
  then show ?thesis
    using assms(4) f w well_formed_session_id_nonempty [OF w(1)]
    by (simp add: register_session_def MAX_SESSION_ID_RETRIES_def numeral_3_eq_3 g om_try_emplace_def)
qed

lemma ids_generate:
  assumes "ids_from_counter m" "rng (cm_draws m) = Some r" "generate_session_id rng m = (sid, m1)"
  shows "ids_from_counter m1"
    and "cm_draws m1 \<le> 2 ^ 32 \<Longrightarrow>
      \<exists>c r. unat c < cm_draws m1 \<and> sid = ''sess_'' @ hex_string (mix c r)"
  using assms unat_succ [of "cm_counter m"]
  by (auto simp: ids_from_counter_def generate_session_id_def Let_def) (metis less_Suc_eq)+

lemma ids_register_attempts:
  "ids_from_counter m \<Longrightarrow> (\<And>n. rng n \<noteq> None) \<Longrightarrow> register_attempts rng s attempt left m = (l, sid, m') \<Longrightarrow>
     ids_from_counter m'"
proof (induction left arbitrary: attempt m l sid m')
  case (Suc left)
  obtain sid1 m1 where g: "generate_session_id rng m = (sid1, m1)" by (cases "generate_session_id rng m")
  obtain r where r: "rng (cm_draws m) = Some r" using Suc.prems(2) by blast
  note i = ids_generate [OF Suc.prems(1) r g]
  obtain l2 sid2 m2 where a: "register_attempts rng s (attempt + 1) left m1 = (l2, sid2, m2)"
    by (cases "register_attempts rng s (attempt + 1) left m1")
  have "ids_from_counter m2" by (rule Suc.IH [OF i(1) Suc.prems(2) a])
  moreover have "ids_from_counter (m1 \<lparr>cm_sessions := om_put sid1 s (cm_sessions m1)\<rparr>)"
    using i by (auto simp: ids_from_counter_def om_find_put)
  ultimately show ?case
    using Suc.prems(3) i(1) a
    by (auto simp: g om_try_emplace_def split: if_splits option.splits)
qed auto

lemma manager_run_ids: "manager_run rng m \<Longrightarrow> (\<And>n. rng n \<noteq> None) \<Longrightarrow> ids_from_counter m"
proof (induction rule: manager_run.induct)
  case start
  show ?case by (simp add: ids_from_counter_def new_connection_manager_def om.find_empty)
next
  case (register m s l sid m')
  then show ?case
    using ids_register_attempts [of m rng] by (cases s) (fastforce simp: register_session_def)+
next
  case (unregister m sid l m')
  have "om_find (cm_sessions m') x = Some t \<Longrightarrow> om_find (cm_sessions m) x = Some t" for x t
    using unregister_table [OF manager_run_ok [OF unregister.hyps(1)], of sid] unregister.hyps(2)
    by (auto split: if_splits)
  moreover have "cm_counter m' = cm_counter m" "cm_draws m' = cm_draws m"
    using unregister.hyps(2) by (auto simp: unregister_session_def Let_def split: if_splits option.splits)
  ultimately show ?case using unregister by (simp add: ids_from_counter_def)
next
  case (stop m l ss m')
  then show ?case by (auto simp: stop_all_def ids_from_counter_def om.find_empty)
qed

subsection \<open>Properties\<close>

text \<open>The table never holds more than 1000 sessions, its ids are listed in strictly ascending
  order and every one of them is a well-formed session id, whatever sessions come and go.\<close>

theorem registry_invariant:
  assumes "manager_run rng m"
  shows "session_count m \<le> 1000 \<and> sorted_wrt (<) (active_session_ids m) \<and>
     (\<forall>sid \<in> set (active_session_ids m). well_formed_session_id sid)"
  using manager_run_ok [OF assms]
  by (simp add: session_count_def active_session_ids_def manager_ok_def MAX_CONNECTIONS_def
      om.keys_sorted om.keys_dom)

theorem registry_invariant_witness:
  "session_count (snd (snd (register_session (\<lambda>_. Some 7) (Some 3) new_connection_manager))) \<le> 1000"
  using registry_invariant [OF manager_run.register [OF manager_run.start]]
  by (metis prod.collapse)

text \<open>C30: A registration either changes nothing and returns the empty id, or adds the session under
  a well-formed id nobody had, leaving every other entry as it was; unregistering that id restores
  the table.\<close>

theorem registration_effect:
  assumes "manager_run rng m" and "register_session rng (Some s) m = (l, sid, m')"
  shows "if sid = [] then cm_sessions m' = cm_sessions m
     else well_formed_session_id sid \<and> get_session sid m = None \<and>
       get_session sid m' = Some s \<and> session_count m' = session_count m + 1 \<and>
       (\<forall>other. other \<noteq> sid \<longrightarrow> get_session other m' = get_session other m) \<and>
       (\<forall>x. get_session x (snd (unregister_session sid m')) = get_session x m)"
proof -
  have k: "manager_ok m" by (rule manager_run_ok [OF assms(1)])
  have r: "registered_as s sid m m'" by (rule register_session_registers [OF assms(2)])
  have u: "sid \<noteq> [] \<Longrightarrow> om_find (cm_sessions (snd (unregister_session sid m'))) = om_find (cm_sessions m)"
    using registry.add_remove [OF k, of rng s] assms(2) by simp
  show ?thesis
    using k r u
    by (auto simp: registered_as_def get_session_def session_count_def manager_ok_def om.find_put
        om.size_put)
qed

theorem registration_effect_witness:
  "get_session (fst (snd (register_session (\<lambda>_. Some 7) (Some 3) new_connection_manager)))
     (snd (snd (register_session (\<lambda>_. Some 7) (Some 3) new_connection_manager))) = Some 3"
proof -
  obtain l sid m' where r: "register_session (\<lambda>_. Some 7) (Some 3) new_connection_manager = (l, sid, m')"
    by (cases "register_session (\<lambda>_. Some 7) (Some 3) new_connection_manager")
  have "sid \<noteq> []"
    using register_first_attempt [of new_connection_manager "\<lambda>_. Some 7" 7 3] r
      well_formed_session_id_nonempty [OF generated_id_well_formed]
      manager_run_ids [OF manager_run.start, of "\<lambda>_. Some 7"]
    by (simp add: new_connection_manager_def om_empty_def MAX_CONNECTIONS_def)
  then show ?thesis using registration_effect [OF manager_run.start r] r by simp
qed

text \<open>C32: As long as the random source works, a registration below the limit succeeds at its first
  attempt, for the first \<open>2\<^sup>3\<^sup>2\<close> ids: the counter in the upper half of the id makes a
  collision impossible.\<close>

theorem registration_succeeds_below_limit:
  assumes "manager_run rng m" and "\<And>n. rng n \<noteq> None"
    and "cm_draws m < 2 ^ 32" and "session_count m < 1000"
  shows "\<exists>l sid m'. register_session rng (Some s) m = (l, sid, m') \<and> sid \<noteq> [] \<and>
     get_session sid m = None \<and> cm_draws m' = cm_draws m + 1"
proof -
  have i: "ids_from_counter m" by (rule manager_run_ids [OF assms(1,2)])
  obtain r where r: "rng (cm_draws m) = Some r" using assms(2) by blast
  show ?thesis
    using register_first_attempt [OF i assms(3), of rng r s] fresh_id [of m rng r] i r assms(3,4)
      well_formed_session_id_nonempty [OF generated_id_well_formed, of rng m]
    by (auto simp: session_count_def MAX_CONNECTIONS_def get_session_def)
qed

theorem registration_succeeds_below_limit_witness:
  "\<exists>l sid m'. register_session (\<lambda>_. Some 7) (Some 3) new_connection_manager = (l, sid, m') \<and> sid \<noteq> []"
  using registration_succeeds_below_limit [OF manager_run.start, of "\<lambda>_. Some 7" 3]
  by (auto simp: new_connection_manager_def session_count_def om_empty_def)

end
