(* ===== verification/World.thy ===== *)
theory World
  imports Metrics Connection_Manager Protocol
begin

text \<open>
  What the objects of the process share: the clock, the random source, the session table, the
  configuration, the metrics, the installed error logger and the log. A handler takes the world
  and returns it updated. The clock is a parameter: its \<open>n\<close>-th reading is \<open>w_clock w n\<close>.
  The table is \<open>None\<close> once the server that owns it is gone, so that a session's weak
  pointer no longer locks.
\<close>

record world =
  w_clock :: "nat \<Rightarrow> time_point"
  w_ticks :: nat
  w_rng :: entropy
  w_manager :: "connection_manager option"
  w_config :: runtime_config
  w_metrics :: metrics_collector
  w_sink :: error_sink
  w_log :: "log_line list"
  w_raw_stderr :: "string list"

definition steady_now :: "world \<Rightarrow> time_point" where
  "steady_now w = w_clock w (w_ticks w)"

definition tick :: "world \<Rightarrow> world" where
  "tick w = w \<lparr>w_ticks := w_ticks w + 1\<rparr>"

definition emit :: "log_line list \<Rightarrow> world \<Rightarrow> world" where
  "emit lines w = w \<lparr>w_log := w_log w @ lines\<rparr>"

definition with_metrics :: "(metrics_collector \<Rightarrow> metrics_collector) \<Rightarrow> world \<Rightarrow> world" where
  "with_metrics f w = w \<lparr>w_metrics := f (w_metrics w)\<rparr>"

text \<open>\<open>log_protocol_error\<close>: the installed sink gets the message.\<close>

definition log_protocol_error :: "string \<Rightarrow> world \<Rightarrow> world" where
  "log_protocol_error msg w =
     (case w_sink w of
        Empty_sink \<Rightarrow> w
      | Default_sink \<Rightarrow> w \<lparr>w_raw_stderr := w_raw_stderr w @ [msg @ [CHR 0x0A]]\<rparr>
      | Server_sink \<Rightarrow>
          tick (with_metrics (record_error (steady_now w) ''protocol_error'' msg)
            (emit [log_error msg] w)))"

definition report :: "string list \<Rightarrow> world \<Rightarrow> world" where
  "report msgs = fold log_protocol_error msgs"

definition unregister :: "string \<Rightarrow> world \<Rightarrow> world" where
  "unregister sid w =
     (case w_manager w of
        None \<Rightarrow> w
      | Some m \<Rightarrow> (case unregister_session sid m of
            (lines, m') \<Rightarrow> emit lines (w \<lparr>w_manager := Some m'\<rparr>)))"

lemma manager_tick [frame_simps]: "w_manager (tick w) = w_manager w"
  by (simp add: tick_def)

lemma manager_emit [frame_simps]: "w_manager (emit l w) = w_manager w"
  by (simp add: emit_def)

lemma manager_with_metrics [frame_simps]: "w_manager (with_metrics f w) = w_manager w"
  by (simp add: with_metrics_def)

lemma manager_log_protocol_error [frame_simps]: "w_manager (log_protocol_error msg w) = w_manager w"
  by (simp add: log_protocol_error_def frame_simps split: error_sink.split)

lemma manager_report [frame_simps]: "w_manager (report msgs w) = w_manager w"
  by (induction msgs arbitrary: w) (simp_all add: report_def frame_simps)

lemma manager_unregister [frame_simps]:
  "w_manager (unregister sid w) = map_option (\<lambda>m. snd (unregister_session sid m)) (w_manager w)"
  by (simp add: unregister_def frame_simps split: option.split prod.split)

lemma config_tick [frame_simps]: "w_config (tick w) = w_config w"
  by (simp add: tick_def)

lemma config_emit [frame_simps]: "w_config (emit l w) = w_config w"
  by (simp add: emit_def)

lemma config_with_metrics [frame_simps]: "w_config (with_metrics f w) = w_config w"
  by (simp add: with_metrics_def)

lemma config_log_protocol_error [frame_simps]: "w_config (log_protocol_error msg w) = w_config w"
  by (simp add: log_protocol_error_def frame_simps split: error_sink.split)

lemma config_report [frame_simps]: "w_config (report msgs w) = w_config w"
  by (induction msgs arbitrary: w) (simp_all add: report_def frame_simps)

lemma config_unregister [frame_simps]: "w_config (unregister sid w) = w_config w"
  by (simp add: unregister_def frame_simps split: option.split prod.split)

text \<open>What every handler may do to the world without saying so: read the clock, log, and count and
  record in the metrics. The table and the configuration stay, and bounded metrics stay bounded.\<close>

definition only_notes :: "world \<Rightarrow> world \<Rightarrow> bool" where
  "only_notes w w' \<longleftrightarrow> w_manager w' = w_manager w \<and> w_config w' = w_config w \<and>
     (metrics_bounded (w_metrics w) \<longrightarrow> metrics_bounded (w_metrics w'))"

lemma metrics_unchanged [frame_simps]:
  "w_metrics (tick w) = w_metrics w" "w_metrics (emit l w) = w_metrics w"
  "w_metrics (with_metrics f w) = f (w_metrics w)" "w_metrics (unregister sid w) = w_metrics w"
  by (simp_all add: tick_def emit_def with_metrics_def unregister_def split: option.split prod.split)

lemma only_notes_trans: "only_notes w w' \<Longrightarrow> only_notes w' w'' \<Longrightarrow> only_notes w w''"
  by (simp add: only_notes_def)

lemma only_notes_manager: "only_notes w w' \<Longrightarrow> w_manager w' = w_manager w"
  by (simp add: only_notes_def)

lemma only_notes_basic [simp, intro]:
  "only_notes w w" "only_notes w (tick w)" "only_notes w (emit l w)"
  by (simp_all add: only_notes_def frame_simps)

lemma only_notes_unregister [simp, intro]:
  "only_notes w w' \<Longrightarrow> only_notes (unregister sid w) (unregister sid w')"
  by (simp add: only_notes_def frame_simps)

lemma only_notes_log_protocol_error: "only_notes w (log_protocol_error msg w)"
  by (simp add: only_notes_def log_protocol_error_def frame_simps bounded_error split: error_sink.split)

lemma only_notes_report [simp, intro]: "only_notes w (report msgs w)"
proof (induction msgs arbitrary: w)
  case (Cons m msgs)
  show ?case
    using only_notes_trans [OF only_notes_log_protocol_error Cons.IH] by (simp add: report_def)
qed (simp add: report_def)

lemma clock_unchanged [frame_simps]:
  "w_clock (tick w) = w_clock w" "w_clock (emit l w) = w_clock w"
  "w_clock (with_metrics f w) = w_clock w"
  by (simp_all add: tick_def emit_def with_metrics_def)

lemma clock_log_protocol_error [frame_simps]: "w_clock (log_protocol_error msg w) = w_clock w"
  by (simp add: log_protocol_error_def frame_simps split: error_sink.split)

lemma clock_report [frame_simps]: "w_clock (report msgs w) = w_clock w"
  by (induction msgs arbitrary: w) (simp_all add: report_def frame_simps)

lemma clock_unregister [frame_simps]: "w_clock (unregister sid w) = w_clock w"
  by (simp add: unregister_def frame_simps split: option.split prod.split)

end
