(* ===== verification/Session.thy ===== *)
theory Session
  imports World Session_Metrics
begin

text \<open>
  \<^verbatim>\<open>src/server/websocket_session.{hpp,cpp}\<close>: one client connection. All handlers run on
  the session's strand, one at a time; \<open>close\<close> and \<open>send\<close> may be called from anywhere and
  take effect between two handlers. The record holds the object's fields and, below them, what
  the session has under way in Boost.Asio: posted tasks, pending reads and waits, outstanding
  writes. How those operations end is up to the environment; starting one is an effect here.
  Counters (not flags) of pending operations make it a theorem that two never overlap.
  The two histories at the end hold the messages ever accepted for sending and the messages
  written; no handler reads them. Allocation failure is modelled where the code recovers from it by
  more than skipping a log line: in \<open>do_write\<close> and in \<open>run\<close>. When
  a lost connection cannot be logged (\<open>connection_lost_unlogged\<close>, not an event) the code does not recover.
\<close>

datatype conn_state = Unauthenticated | Authenticated | Closed

datatype error_kind = Ws_closed | Operation_aborted | Access_denied | Address_in_use
  | Bad_descriptor | Other_error

text \<open>An error code with the text its \<open>message()\<close> gives.\<close>

datatype error_code = No_error | Err error_kind string

datatype task = Do_write_task | Close_task

record session =
  se_self :: session_ref
  se_state :: conn_state
  se_session_id :: string
  se_write_queue :: "string list"
  se_writing :: bool
  se_close_requested :: bool
  se_close_initiated :: bool
  se_last_sequence_number :: i64
  se_message_timestamps :: "time_point list"
  se_last_activity :: time_point
  se_message_count :: i64
  se_metrics :: session_metrics
  se_current_stack :: i64
  se_handshake_timeout :: i64
  se_read_message_max :: nat
  se_tasks :: "task list"
  se_accepting :: nat
  se_reading :: nat
  se_in_flight :: "string list"
  se_ws_closing :: nat
  se_socket_open :: bool
  se_tcp_close_error :: "string option"  \<comment> \<open>what closing the TCP socket will answer\<close>
  se_waits :: nat
  se_expiry :: time_point
  se_timer_done :: "error_code list"
  se_queued :: "string list"
  se_sent :: "string list"

type_synonym st = "world \<times> session"

definition new_session :: "session_ref \<Rightarrow> i64 \<Rightarrow> string option \<Rightarrow> world \<Rightarrow> st" where
  "new_session ref handshake_timeout tcp_close_error w =
     (tick w, \<lparr>se_self = ref, se_state = Unauthenticated, se_session_id = [], se_write_queue = [],
        se_writing = False, se_close_requested = False, se_close_initiated = False,
        se_last_sequence_number = - 1, se_message_timestamps = [], se_last_activity = steady_now w,
        se_message_count = 0, se_metrics = new_session_metrics, se_current_stack = PLACEHOLDER_STACK,
        se_handshake_timeout = handshake_timeout, se_read_message_max = 0,
        se_tasks = [], se_accepting = 0, se_reading = 0, se_in_flight = [], se_ws_closing = 0,
        se_socket_open = True, se_tcp_close_error = tcp_close_error, se_waits = 0, se_expiry = 0,
        se_timer_done = [], se_queued = [], se_sent = []\<rparr>)"

subsection \<open>Shorthands\<close>

definition say :: "log_line \<Rightarrow> st \<Rightarrow> st" where
  "say line st = (emit [line] (fst st), snd st)"

definition on_world :: "(world \<Rightarrow> world) \<Rightarrow> st \<Rightarrow> st" where
  "on_world f st = (f (fst st), snd st)"

definition on_session :: "(session \<Rightarrow> session) \<Rightarrow> st \<Rightarrow> st" where
  "on_session f st = (fst st, f (snd st))"

text \<open>The timer: a wait ends with \<open>operation_aborted\<close> when it is cancelled or when the
  expiry is set anew.\<close>

definition timer_cancel :: "session \<Rightarrow> session" where
  "timer_cancel s = s \<lparr>se_waits := 0,
     se_timer_done := se_timer_done s @ replicate (se_waits s) (Err Operation_aborted ''Operation canceled'')\<rparr>"

definition expires_after :: "time_point \<Rightarrow> st \<Rightarrow> st" where
  "expires_after d st =
     (tick (fst st), (timer_cancel (snd st)) \<lparr>se_expiry := steady_now (fst st) + d\<rparr>)"

definition start_wait :: "session \<Rightarrow> session" where
  "start_wait s = s \<lparr>se_waits := se_waits s + 1\<rparr>"

subsection \<open>Sending and closing\<close>

definition queue_message :: "string \<Rightarrow> st \<Rightarrow> bool \<times> st" where
  "queue_message message st =
     (let s = snd st in
      if se_state s = Closed \<or> se_close_requested s then (False, st)
      else if length (se_write_queue s) \<ge> MAX_WRITE_QUEUE_SIZE then
        (False, say (log_error (''[WebSocketSession] Write queue full for session '' @
           sanitize_session_id (se_session_id s) @ '', dropping message'')) st)
      else
        let should_post = \<not> se_writing s
        in (True, (fst st, s \<lparr>se_write_queue := se_write_queue s @ [message], se_writing := True,
              se_tasks := se_tasks s @ (if should_post then [Do_write_task] else []),
              se_queued := se_queued s @ [message]\<rparr>)))"

definition send :: "string \<Rightarrow> st \<Rightarrow> bool \<times> st" where
  "send message st = queue_message message st"

definition send_protocol_error :: "'j ext \<Rightarrow> string \<Rightarrow> string \<Rightarrow> st \<Rightarrow> st" where
  "send_protocol_error J error_code message st =
     (let sid = se_session_id (snd st);
          err = \<lparr>em_error_code = error_code, em_message = message,
                 em_session_id = (if sid \<noteq> [] then Some sid else None)\<rparr>
      in case serialize_error J err of
           Inl e \<Rightarrow> st
         | Inr text \<Rightarrow>
             (case send text st of
                (True, st') \<Rightarrow> st'
              | (False, st') \<Rightarrow>
                  on_session (\<lambda>s. s \<lparr>se_metrics := increment_errors 1 (se_metrics s)\<rparr>)
                    (say (log_error (''[WebSocketSession] Failed to send protocol error for session '' @
                       sanitize_session_id sid)) st')))"

definition do_close :: "st \<Rightarrow> st" where
  "do_close st =
     (let s = snd st; prev_state = se_state s in
      if se_close_initiated s then st
      else
        let s1 = s \<lparr>se_close_initiated := True, se_state := Closed\<rparr> in
        if prev_state = Closed then (fst st, s1)
        else
          let s2 = timer_cancel s1;
              w2 = (if se_session_id s2 \<noteq> [] then unregister (se_session_id s2) (fst st) else fst st)
          in if prev_state = Unauthenticated then
               (case se_tcp_close_error s2 of
                  None \<Rightarrow> w2
                | Some msg \<Rightarrow> emit [log_error (''[WebSocketSession] TCP close error: '' @ msg)] w2,
                s2 \<lparr>se_socket_open := False\<rparr>)
             else (w2, s2 \<lparr>se_ws_closing := se_ws_closing s2 + 1\<rparr>))"

text \<open>The body \<open>close\<close> dispatches to the strand, and its two ways of getting there: at once
  when the caller is on the strand, as a posted task otherwise.\<close>

definition close_body :: "st \<Rightarrow> st" where
  "close_body st = (if \<not> se_writing (snd st) then do_close st else st)"

definition close :: "st \<Rightarrow> st" where
  "close st =
     (let s1 = (snd st) \<lparr>se_close_requested := True\<rparr>
      in if se_state s1 = Closed then (fst st, s1) else close_body (fst st, s1))"

definition close_from_outside :: "st \<Rightarrow> st" where
  "close_from_outside st =
     (let s1 = (snd st) \<lparr>se_close_requested := True\<rparr>
      in if se_state s1 = Closed then (fst st, s1)
         else (fst st, s1 \<lparr>se_tasks := se_tasks s1 @ [Close_task]\<rparr>))"

text \<open>The completion of \<open>async_close\<close>: on an error the socket is closed by force.\<close>

definition on_ws_close :: "error_code \<Rightarrow> st \<Rightarrow> st" where
  "on_ws_close ec st =
     (case ec of
        No_error \<Rightarrow> st
      | Err _ msg \<Rightarrow> on_session (\<lambda>s. s \<lparr>se_socket_open := False\<rparr>)
          (say (log_error (''[WebSocketSession] Close error: '' @ msg)) st))"

text \<open>The pattern of every refusal: log, tell the client, close.\<close>

definition refuse :: "'j ext \<Rightarrow> string \<Rightarrow> string \<Rightarrow> string \<Rightarrow> st \<Rightarrow> st" where
  "refuse J line error_code message st =
     close (send_protocol_error J error_code message (say (log_error line) st))"

subsection \<open>Writing\<close>

definition do_write :: "st \<Rightarrow> st" where
  "do_write st =
     (let s = snd st in
      if se_state s = Closed then (fst st, s \<lparr>se_writing := False\<rparr>)
      else case se_write_queue s of
          [] \<Rightarrow> (fst st, s \<lparr>se_writing := False\<rparr>)
        | msg_str # rest \<Rightarrow>
            (fst st, s \<lparr>se_write_queue := rest, se_in_flight := se_in_flight s @ [msg_str]\<rparr>))"

text \<open>\<open>do_write\<close> when there is no memory for its copy of the message: the message is lost and the
  session closed.\<close>

definition do_write_lost :: "st \<Rightarrow> st" where
  "do_write_lost st =
     (let s = snd st in
      if se_state s = Closed then (fst st, s \<lparr>se_writing := False\<rparr>)
      else case se_write_queue s of
          [] \<Rightarrow> (fst st, s \<lparr>se_writing := False\<rparr>)
        | msg_str # rest \<Rightarrow>
            close (on_session (\<lambda>s. s \<lparr>se_writing := False\<rparr>)
              (say (log_error (''[WebSocketSession] Exception in do_write (allocation failure) - closing session '' @
                 sanitize_session_id (se_session_id s)))
                (fst st, s \<lparr>se_write_queue := rest\<rparr>))))"

definition on_write :: "error_code \<Rightarrow> u64 \<Rightarrow> st \<Rightarrow> st" where
  "on_write ec bytes_transferred st =
     (case ec of
        Err _ msg \<Rightarrow>
          let st1 = say (log_error (''[WebSocketSession] Write error for '' @
                sanitize_session_id (se_session_id (snd st)) @ '': '' @ msg)) st;
              dropped = length (se_write_queue (snd st1));
              st2 = on_session (\<lambda>s. s \<lparr>se_writing := False, se_close_requested := True,
                se_write_queue := []\<rparr>) st1;
              st3 = (if dropped > 0 then say (log_error (''[WebSocketSession] Dropped '' @
                nat_to_string dropped @ '' queued message(s) on write error'')) st2 else st2)
          in do_close st3
      | No_error \<Rightarrow>
          let st1 = on_session (\<lambda>s. s \<lparr>se_metrics := increment_bytes_sent bytes_transferred
                (increment_messages_sent 1 (se_metrics s)), se_writing := False\<rparr>) st;
              s1 = snd st1
          in if se_close_requested s1 \<and> se_write_queue s1 = [] then do_close st1
             else if se_write_queue s1 \<noteq> [] then
               on_session (\<lambda>s. s \<lparr>se_writing := True, se_tasks := se_tasks s @ [Do_write_task]\<rparr>) st1
             else st1)"

subsection \<open>Checks on every message\<close>

definition check_rate_limit_or_close :: "'j ext \<Rightarrow> st \<Rightarrow> bool \<times> st" where
  "check_rate_limit_or_close J st =
     (let now = steady_now (fst st);
          c = w_config (fst st);
          window_start = now - get_rate_limit_window c;
          kept = filter (\<lambda>timestamp. \<not> timestamp < window_start) (se_message_timestamps (snd st));
          should_close = length kept \<ge> get_max_messages_per_window c;
          st1 = (tick (fst st), (snd st) \<lparr>se_message_timestamps :=
                   (if should_close then kept else kept @ [now])\<rparr>)
      in if should_close then
           let session_id_str = se_session_id (snd st1);
               id_str = (if session_id_str = [] then ''(unauthenticated)'' else sanitize_session_id session_id_str)
           in (False, refuse J (''[WebSocketSession] Rate limit exceeded (max '' @
                 nat_to_string (get_max_messages_per_window c) @ '' messages per window) for session '' @ id_str)
                 SESSION_CLOSED ''Rate limit exceeded'' st1)
         else (True, st1))"

definition check_suspicious_activity :: "st \<Rightarrow> bool \<times> st" where
  "check_suspicious_activity st =
     (let now = steady_now (fst st);
          s = snd st;
          count = se_message_count s + 1;
          elapsed = duration_cast 1000000000 (now - se_last_activity s);
          st1 = (tick (fst st), s \<lparr>se_message_count := count, se_last_activity := now\<rparr>)
      in if sint count > 100 \<and> elapsed = 0 then
           (True, say (log_error (''[WebSocketSession] Rapid message burst detected: '' @
              int_to_string (sint count) @ '' messages in < 1s'')) st1)
         else (False, st1))"

definition validate_session_id :: "'j ext \<Rightarrow> string \<Rightarrow> st \<Rightarrow> bool \<times> st" where
  "validate_session_id J provided_session_id st =
     (if provided_session_id = [] then
        (False, refuse J ''[WebSocketSession] Empty session ID provided'' PROTOCOL_ERROR
           ''Session ID is required'' st)
      else if length provided_session_id > MAX_SESSION_ID_LENGTH then
        (False, refuse J (''[WebSocketSession] Session ID too long: '' @
           nat_to_string (length provided_session_id) @ '' > '' @ nat_to_string MAX_SESSION_ID_LENGTH)
           PROTOCOL_ERROR ''Session ID exceeds maximum length'' st)
      else
        let expected_id = se_session_id (snd st)
        in if provided_session_id \<noteq> expected_id then
             (False, refuse J (''[WebSocketSession] Session ID mismatch: expected '' @
                sanitize_session_id expected_id @ '', got '' @ sanitize_session_id provided_session_id)
                PROTOCOL_ERROR ''Session ID mismatch'' st)
           else (True, st))"

subsection \<open>Message handlers\<close>

text \<open>A handler ends normally (\<open>None\<close>) or with the exception that serialising its answer
  threw, which \<open>on_read\<close> catches.\<close>

definition answer_handshake :: "'j ext \<Rightarrow> string \<Rightarrow> st \<Rightarrow> exn option \<times> st" where
  "answer_handshake J new_session_id st =
     (let resp = \<lparr>hr_session_id = new_session_id, hr_seat_number = PLACEHOLDER_SEAT,
                  hr_starting_stack = PLACEHOLDER_STACK\<rparr>
      in case serialize_handshake_response J resp of
           Inl e \<Rightarrow> (Some e, st)
         | Inr text \<Rightarrow>
             (case send text st of
                (False, st1) \<Rightarrow>
                  (None, close (say (log_error
                     (''[WebSocketSession] Failed to send handshake response for session: '' @ new_session_id)) st1))
              | (True, st1) \<Rightarrow>
                  (None, say (log_message (''[WebSocketSession] Handshake successful for session: '' @
                     sanitize_session_id new_session_id))
                     (on_session (\<lambda>s. s \<lparr>se_state := Authenticated\<rparr>) st1))))"

definition begin_session :: "'j ext \<Rightarrow> st \<Rightarrow> exn option \<times> st" where
  "begin_session J st =
     (case w_manager (fst st) of
        None \<Rightarrow>
          (None, refuse J ''[WebSocketSession] Warning: No connection manager, session ID invalid''
             PROTOCOL_ERROR ''Connection manager not available'' st)
      | Some mgr \<Rightarrow>
          (case register_session (w_rng (fst st)) (Some (se_self (snd st))) mgr of
             (lines, new_session_id, mgr') \<Rightarrow>
               let st1 = on_world (\<lambda>w. emit lines (w \<lparr>w_manager := Some mgr'\<rparr>)) st
               in if new_session_id = [] then
                    (None, refuse J ''[WebSocketSession] Failed to register session - ID collision''
                       PROTOCOL_ERROR ''Failed to generate unique session ID'' st1)
                  else answer_handshake J new_session_id
                    (on_session (\<lambda>s. s \<lparr>se_session_id := new_session_id\<rparr>) st1)))"

definition handle_handshake_message :: "'j ext \<Rightarrow> string \<Rightarrow> st \<Rightarrow> exn option \<times> st" where
  "handle_handshake_message J message st =
     (case parse_handshake J message of
        (reports, handshake_opt) \<Rightarrow>
          let st1 = on_world (report reports) st
          in case handshake_opt of
               None \<Rightarrow>
                 (None, refuse J ''[WebSocketSession] Handshake error: Protocol error (Not HANDSHAKE)''
                    MALFORMED_HANDSHAKE ''Expected HANDSHAKE message'' st1)
             | Some handshake_msg \<Rightarrow>
                 if hm_protocol_version handshake_msg \<noteq> PROTOCOL_VERSION then
                   (None, refuse J (''[WebSocketSession] Handshake error: Incompatible version '' @
                      trunc_field (hm_protocol_version handshake_msg) 32)
                      INCOMPATIBLE_VERSION (''Expected '' @ PROTOCOL_VERSION) st1)
                 else
                   begin_session J
                     (case hm_client_name handshake_msg of
                        None \<Rightarrow> st1
                      | Some cname \<Rightarrow>
                          say (log_message (''[WebSocketSession] Client Name: '' @ trunc_field cname 32)) st1))"

text \<open>The sequence check of a parsed action that carries the right session id.\<close>

definition apply_action :: "'j ext \<Rightarrow> string \<Rightarrow> action_message \<Rightarrow> st \<Rightarrow> st" where
  "apply_action J sid action st =
     (let seq = am_sequence_number action;
          last_seq = se_last_sequence_number (snd st);
          gap = (seq :: u64) - last_seq;
          max_gap = get_max_sequence_gap (w_config (fst st))
      in if sint seq \<le> sint last_seq then
           refuse J (''[WebSocketSession] Invalid sequence number '' @
              int_to_string (sint seq) @ '' (expected > '' @ int_to_string (sint last_seq) @ '')'')
              PROTOCOL_ERROR ''Invalid sequence number - possible replay attack'' st
         else if gap > max_gap then
           refuse J (''[WebSocketSession] Sequence number too far ahead: '' @
              int_to_string (sint seq) @ '' (gap: '' @ nat_to_string (unat gap) @
              '', max allowed: '' @ int_to_string (sint max_gap) @ '')'')
              PROTOCOL_ERROR ''Sequence number gap too large'' st
         else
           say (log_message (''[WebSocketSession] Validated ACTION from '' @
              sanitize_session_id sid @ '': type='' @ am_action_type action @ '' seq='' @
              int_to_string (sint seq)))
              (on_session (\<lambda>s. s \<lparr>se_last_sequence_number := seq\<rparr>) st))"

definition handle_action :: "'j ext \<Rightarrow> 'j parsed_message_header \<Rightarrow> string \<Rightarrow> st \<Rightarrow> exn option \<times> st" where
  "handle_action J header sid st =
     (case parse_action_from_envelope J (ph_envelope_json header) of
        (reports, action_opt) \<Rightarrow>
          let st1 = on_world (report reports) st
          in case action_opt of
               None \<Rightarrow>
                 (None, refuse J (''[WebSocketSession] Failed to parse ACTION message from '' @
                    sanitize_session_id sid) MALFORMED_MESSAGE ''Invalid ACTION message format'' st1)
             | Some action \<Rightarrow>
                 (case validate_session_id J (am_session_id action) st1 of
                    (False, st2) \<Rightarrow> (None, st2)
                  | (True, st2) \<Rightarrow>
                      (None, apply_action J sid action st2)))"

definition apply_reload :: "'j ext \<Rightarrow> string \<Rightarrow> reload_request_message \<Rightarrow> st \<Rightarrow> exn option \<times> st" where
  "apply_reload J sid request st =
     (let st1 = say (log_message (''[WebSocketSession] Validated RELOAD_REQUEST from '' @
             sanitize_session_id sid)) st;
          new_stack = smin (se_current_stack (snd st1) + rq_requested_amount request)
             (word_of_int MAX_AMOUNT);
          resp = \<lparr>rr_granted = True, rr_new_stack = new_stack\<rparr>
      in case serialize_reload_response J resp of
           Inl e \<Rightarrow> (Some e, st1)
         | Inr text \<Rightarrow>
             (case send text st1 of
                (False, st2) \<Rightarrow>
                  (None, close (say (log_error (''[WebSocketSession] Failed to send RELOAD_RESPONSE to ''
                     @ sanitize_session_id sid)) st2))
              | (True, st2) \<Rightarrow>
                  (None, on_session (\<lambda>s. s \<lparr>se_current_stack := new_stack\<rparr>) st2)))"

definition handle_reload_msg :: "'j ext \<Rightarrow> 'j parsed_message_header \<Rightarrow> string \<Rightarrow> st \<Rightarrow> exn option \<times> st" where
  "handle_reload_msg J header sid st =
     (case parse_reload_from_envelope J (ph_envelope_json header) of
        (reports, reload_opt) \<Rightarrow>
          let st1 = on_world (report reports) st
          in case reload_opt of
               None \<Rightarrow>
                 (None, refuse J (''[WebSocketSession] Failed to parse RELOAD_REQUEST from '' @
                    sanitize_session_id sid) MALFORMED_MESSAGE ''Invalid RELOAD_REQUEST format'' st1)
             | Some request \<Rightarrow>
                 (case validate_session_id J (rq_session_id request) st1 of
                    (False, st2) \<Rightarrow> (None, st2)
                  | (True, st2) \<Rightarrow>
                      apply_reload J sid request st2))"

definition handle_disconnect_msg :: "'j ext \<Rightarrow> 'j parsed_message_header \<Rightarrow> string \<Rightarrow> st \<Rightarrow> exn option \<times> st" where
  "handle_disconnect_msg J header sid st =
     (case parse_disconnect_from_envelope J (ph_envelope_json header) of
        (reports, disconnect_opt) \<Rightarrow>
          let st1 = on_world (report reports) st
          in case disconnect_opt of
               None \<Rightarrow>
                 (None, refuse J (''[WebSocketSession] Failed to parse DISCONNECT from '' @
                    sanitize_session_id sid) MALFORMED_MESSAGE ''Invalid DISCONNECT format'' st1)
             | Some request \<Rightarrow>
                 (case validate_session_id J (dm_session_id request) st1 of
                    (False, st2) \<Rightarrow> (None, st2)
                  | (True, st2) \<Rightarrow>
                      (None, close (say (log_message (''[WebSocketSession] Validated DISCONNECT from '' @
                         sanitize_session_id sid)) st2))))"

definition handle_authenticated_message :: "'j ext \<Rightarrow> string \<Rightarrow> st \<Rightarrow> exn option \<times> st" where
  "handle_authenticated_message J message st =
     (case extract_message_type_and_json J message of
        (reports, header_opt) \<Rightarrow>
          let st1 = on_world (report reports) st
          in case header_opt of
               None \<Rightarrow>
                 (None, refuse J (''[WebSocketSession] Invalid message format from '' @
                    sanitize_session_id (se_session_id (snd st1)) @ '': missing message_type'')
                    MALFORMED_MESSAGE ''Missing or invalid message_type field'' st1)
             | Some header \<Rightarrow>
                 let msg_type = ph_message_type header;
                     sid = se_session_id (snd st1)
                 in if msg_type = ACTION then handle_action J header sid st1
                    else if msg_type = RELOAD_REQUEST then handle_reload_msg J header sid st1
                    else if msg_type = DISCONNECT then handle_disconnect_msg J header sid st1
                    else (None, refuse J (''[WebSocketSession] Unknown message type '' @ [CHR 0x27] @
                       trunc_field msg_type 64 @ [CHR 0x27] @ '' from '' @ sanitize_session_id sid)
                       PROTOCOL_ERROR (''Unknown message type: '' @ trunc_field msg_type 64) st1))"

subsection \<open>Reading\<close>

text \<open>\<open>do_read\<close> is always called on the strand, so the dispatched body runs at once.\<close>

definition do_read :: "st \<Rightarrow> st" where
  "do_read st =
     (let s = snd st in
      if se_state s = Closed \<or> se_close_requested s then st
      else (fst st, s \<lparr>se_reading := se_reading s + 1\<rparr>))"

text \<open>The two ways a read can fail differ in the log lines only.\<close>

definition connection_lost :: "log_line \<Rightarrow> log_line \<Rightarrow> st \<Rightarrow> st" where
  "connection_lost unauthenticated_line line st =
     (let st1 = on_session (\<lambda>s. timer_cancel (s \<lparr>se_state := Closed\<rparr>)) st;
          sid = se_session_id (snd st1)
      in if sid = [] then say unauthenticated_line st1
         else on_world (unregister sid) (say line st1))"

text \<open>The same when the log line cannot be allocated: what follows it is skipped.\<close>

definition connection_lost_unlogged :: "st \<Rightarrow> st" where
  "connection_lost_unlogged st = on_session (\<lambda>s. timer_cancel (s \<lparr>se_state := Closed\<rparr>)) st"

definition handle_message :: "'j ext \<Rightarrow> conn_state \<Rightarrow> string \<Rightarrow> st \<Rightarrow> st" where
  "handle_message J current_state message st =
     (case (if current_state = Unauthenticated then handle_handshake_message J message st
            else handle_authenticated_message J message st) of
        (Some e, st1) \<Rightarrow>
          refuse J (''[WebSocketSession] Unhandled exception in message handler: '' @ what e)
            PROTOCOL_ERROR ''Internal server error'' st1
      | (None, st1) \<Rightarrow>
          if se_state (snd st1) \<noteq> Closed \<and> \<not> se_close_requested (snd st1)
          then do_read (expires_after (get_ws_idle_timeout (w_config (fst st1))) st1)
          else st1)"

definition on_read :: "'j ext \<Rightarrow> error_code \<Rightarrow> u64 \<Rightarrow> string \<Rightarrow> st \<Rightarrow> st" where
  "on_read J ec bytes_transferred message st =
     (let current_state = se_state (snd st);
          sid = se_session_id (snd st) in
      if current_state = Closed then st
      else case ec of
          Err Ws_closed _ \<Rightarrow>
            connection_lost (log_message ''[WebSocketSession] Unauthenticated client disconnected'')
              (log_message (''[WebSocketSession] Client disconnected: '' @ sanitize_session_id sid)) st
        | Err _ msg \<Rightarrow>
            connection_lost (log_error (''[WebSocketSession] Read error (unauthenticated): '' @ msg))
              (log_error (''[WebSocketSession] Read error for '' @ sanitize_session_id sid @ '': '' @ msg)) st
        | No_error \<Rightarrow>
            let st1 = on_session (\<lambda>s. s \<lparr>se_metrics := increment_bytes_received bytes_transferred
                  (increment_messages_received 1 (se_metrics s))\<rparr>) st
            in case check_rate_limit_or_close J st1 of
                 (False, st2) \<Rightarrow> st2
               | (True, st2) \<Rightarrow>
                   (case check_suspicious_activity st2 of
                      (True, st3) \<Rightarrow>
                        refuse J (''[WebSocketSession] Suspicious activity detected '' @ em_dash @
                          '' closing session '' @ sanitize_session_id (se_session_id (snd st3)))
                          SESSION_CLOSED ''Suspicious activity detected'' st3
                    | (False, st3) \<Rightarrow> handle_message J current_state message st3))"

subsection \<open>Accepting\<close>

definition on_accept :: "error_code \<Rightarrow> st \<Rightarrow> st" where
  "on_accept ec st =
     (let s = snd st in
      case ec of
        Err kind msg \<Rightarrow>
          if se_state s = Closed then st
          else if se_close_requested s then on_session (\<lambda>s. (timer_cancel s) \<lparr>se_state := Closed\<rparr>) st
          else
            let st1 = (if kind \<noteq> Ws_closed
                       then say (log_error (''[WebSocketSession] Accept failed: '' @ msg)) st else st)
            in on_session (\<lambda>s. (timer_cancel s) \<lparr>se_state := Closed\<rparr>) st1
      | No_error \<Rightarrow>
          if se_state s = Closed \<or> se_close_requested s then st
          else do_read (say (log_message
                 ''[WebSocketSession] Connection accepted. Waiting for handshake...'') st))"

definition do_accept :: "st \<Rightarrow> st" where
  "do_accept st = on_session (\<lambda>s. s \<lparr>se_accepting := se_accepting s + 1\<rparr>) st"

subsection \<open>The deadline\<close>

definition check_deadline :: "st \<Rightarrow> st" where
  "check_deadline st = on_session start_wait st"

definition on_deadline :: "'j ext \<Rightarrow> error_code \<Rightarrow> st \<Rightarrow> st" where
  "on_deadline J ec st =
     (let s = snd st in
      case ec of
        Err Operation_aborted _ \<Rightarrow>
          if se_state s \<noteq> Closed \<and> \<not> se_close_requested s then check_deadline st else st
      | Err _ msg \<Rightarrow>
          if se_state s = Closed then st
          else
            let st1 = say (log_error (''[WebSocketSession] Timer error: '' @ msg)) st
            in if \<not> se_close_requested (snd st1) then check_deadline st1 else st1
      | No_error \<Rightarrow>
          if se_state s = Closed then st
          else if se_state s = Unauthenticated then
            refuse J ''[WebSocketSession] Handshake timeout'' SESSION_CLOSED ''Handshake timeout'' st
          else
            refuse J (''[WebSocketSession] Idle timeout for session '' @ sanitize_session_id (se_session_id s))
              SESSION_CLOSED ''Idle timeout'' st)"

subsection \<open>Start and end\<close>

text \<open>The step of \<open>run\<close> that throws, when one does.\<close>

datatype run_stage = Setting_expiry | Starting_wait | Starting_accept

definition run_failed :: "string \<Rightarrow> st \<Rightarrow> st" where
  "run_failed msg st =
     on_session (\<lambda>s. timer_cancel (s \<lparr>se_state := Closed\<rparr>))
       (say (log_error (''[WebSocketSession] run() initialization error: '' @ msg)) st)"

definition run :: "(run_stage \<times> string) option \<Rightarrow> st \<Rightarrow> st" where
  "run fault st =
     (let st1 = on_session (\<lambda>s. s \<lparr>se_read_message_max := get_max_message_size (w_config (fst st))\<rparr>) st;
          st2 = expires_after (seconds (se_handshake_timeout (snd st1))) st1;
          st3 = check_deadline st2
      in case fault of
           None \<Rightarrow> do_accept st3
         | Some (Setting_expiry, msg) \<Rightarrow> run_failed msg st1
         | Some (Starting_wait, msg) \<Rightarrow> run_failed msg st2
         | Some (Starting_accept, msg) \<Rightarrow> run_failed msg st3)"

text \<open>The destructor: what it leaves in the world.\<close>

definition destroy :: "st \<Rightarrow> world" where
  "destroy st =
     (let s = timer_cancel (snd st) in
      if se_state s \<noteq> Closed \<and> se_session_id s \<noteq> [] then unregister (se_session_id s) (fst st)
      else fst st)"

definition run_task :: "task \<Rightarrow> st \<Rightarrow> st" where
  "run_task t st = (case t of Do_write_task \<Rightarrow> do_write st | Close_task \<Rightarrow> close_body st)"

definition is_authenticated :: "session \<Rightarrow> bool" where
  "is_authenticated s \<longleftrightarrow> se_state s = Authenticated"

subsection \<open>Events\<close>

text \<open>What can happen to a session: the strand runs the oldest posted task, a pending operation
  completes, the timer expires, or \<open>send\<close> or \<open>close\<close> is called from outside. A read
  completes without error only with a message the size limit admits. The timer can expire only
  once its time has come; the clock may be read by others in between (\<open>tick\<close>). The task that writes
  may find no memory for its copy of the message (\<open>Write_out_of_memory\<close>).\<close>

datatype event =
    Run_task
  | Write_out_of_memory
  | Accept_done error_code
  | Read_done error_code u64 string
  | Write_done error_code u64
  | Ws_close_done error_code
  | Timer_expires
  | Timer_fails string
  | Timer_handler
  | External_send string
  | External_close
  | Clock_ticks

definition enabled :: "event \<Rightarrow> st \<Rightarrow> bool" where
  "enabled ev st =
     (let s = snd st in
      case ev of
        Run_task \<Rightarrow> se_tasks s \<noteq> []
      | Write_out_of_memory \<Rightarrow> se_tasks s \<noteq> [] \<and> hd (se_tasks s) = Do_write_task
      | Accept_done _ \<Rightarrow> 0 < se_accepting s
      | Read_done ec _ message \<Rightarrow> 0 < se_reading s \<and> (ec = No_error \<longrightarrow> length message \<le> se_read_message_max s)
      | Write_done _ _ \<Rightarrow> se_in_flight s \<noteq> []
      | Ws_close_done _ \<Rightarrow> 0 < se_ws_closing s
      | Timer_expires \<Rightarrow> 0 < se_waits s \<and> se_expiry s \<le> steady_now (fst st)
      | Timer_fails _ \<Rightarrow> 0 < se_waits s
      | Timer_handler \<Rightarrow> se_timer_done s \<noteq> []
      | External_send _ \<Rightarrow> True
      | External_close \<Rightarrow> True
      | Clock_ticks \<Rightarrow> True)"

definition timer_completes :: "error_code \<Rightarrow> session \<Rightarrow> session" where
  "timer_completes ec s = s \<lparr>se_waits := 0, se_timer_done := se_timer_done s @ replicate (se_waits s) ec\<rparr>"

definition perform :: "'j ext \<Rightarrow> event \<Rightarrow> st \<Rightarrow> st" where
  "perform J ev st =
     (let s = snd st in
      case ev of
        Run_task \<Rightarrow> run_task (hd (se_tasks s)) (fst st, s \<lparr>se_tasks := tl (se_tasks s)\<rparr>)
      | Write_out_of_memory \<Rightarrow> do_write_lost (fst st, s \<lparr>se_tasks := tl (se_tasks s)\<rparr>)
      | Accept_done ec \<Rightarrow> on_accept ec (fst st, s \<lparr>se_accepting := se_accepting s - 1\<rparr>)
      | Read_done ec bytes message \<Rightarrow>
          on_read J ec bytes message (fst st, s \<lparr>se_reading := se_reading s - 1\<rparr>)
      | Write_done ec bytes \<Rightarrow>
          on_write ec bytes (fst st, s \<lparr>se_in_flight := tl (se_in_flight s),
            se_sent := se_sent s @ (if ec = No_error then [hd (se_in_flight s)] else [])\<rparr>)
      | Ws_close_done ec \<Rightarrow> on_ws_close ec (fst st, s \<lparr>se_ws_closing := se_ws_closing s - 1\<rparr>)
      | Timer_expires \<Rightarrow> (fst st, timer_completes No_error s)
      | Timer_fails msg \<Rightarrow> (fst st, timer_completes (Err Other_error msg) s)
      | Timer_handler \<Rightarrow>
          on_deadline J (hd (se_timer_done s)) (fst st, s \<lparr>se_timer_done := tl (se_timer_done s)\<rparr>)
      | External_send message \<Rightarrow> snd (send message st)
      | External_close \<Rightarrow> close_from_outside st
      | Clock_ticks \<Rightarrow> (tick (fst st), s))"

end
