(* ===== verification/Session_Laws.thy ===== *)
theory Session_Laws
  imports Session Protocol_Correct
begin

text \<open>
  How properties of a session survive its handlers. The interface between the handlers and an
  invariant is the locale \<open>handler_invariant\<close>: the few ways in which a handler changes the
  session or the session table (\<open>refusal_invariant\<close>: those of the checks every message
  passes and of a refusal). Inside it every handler
  is shown, once, to keep the property;
  \<open>session_invariant\<close> extends it to all events. The invariants of the session are
  interpretations of these locales.
\<close>

definition is_open :: "session \<Rightarrow> bool" where
  "is_open s \<longleftrightarrow> se_state s \<noteq> Closed \<and> \<not> se_close_requested s"

subsection \<open>Projections\<close>

lemma say_parts [simp]: "snd (say l st) = snd st" "w_manager (fst (say l st)) = w_manager (fst st)"
    "w_config (fst (say l st)) = w_config (fst st)"
  by (simp_all add: say_def frame_simps)

lemma on_world_parts [simp]: "snd (on_world f st) = snd st" "fst (on_world f st) = f (fst st)"
  by (simp_all add: on_world_def)

lemma on_session_parts [simp]: "snd (on_session f st) = f (snd st)" "fst (on_session f st) = fst st"
  by (simp_all add: on_session_def)

lemma say_notes [simp, intro]: "only_notes w (fst st) \<Longrightarrow> only_notes w (fst (say l st))"
  by (simp add: say_def only_notes_trans)

lemma manager_kept [simp]:
  "w_manager (tick w) = w_manager w" "w_manager (emit l w) = w_manager w"
  "w_manager (report ms w) = w_manager w" "w_config (tick w) = w_config w"
  "w_config (emit l w) = w_config w" "w_config (report ms w) = w_config w"
  by (simp_all add: frame_simps)

lemma close_not_open: "\<not> is_open (snd (close st))"
  by (simp add: close_def Let_def close_body_def do_close_def is_open_def timer_cancel_def split: option.split)

lemma refuse_not_open: "\<not> is_open (snd (refuse J l c m st))"
  by (simp add: refuse_def close_not_open)

lemma send_result:
  "fst (send m st) \<longleftrightarrow> is_open (snd st) \<and> length (se_write_queue (snd st)) < MAX_WRITE_QUEUE_SIZE"
  by (simp add: send_def queue_message_def is_open_def Let_def not_le)

text \<open>What an accepted message does to the session.\<close>

definition enqueue :: "string \<Rightarrow> session \<Rightarrow> session" where
  "enqueue m s = s \<lparr>se_write_queue := se_write_queue s @ [m], se_writing := True,
     se_tasks := se_tasks s @ (if \<not> se_writing s then [Do_write_task] else []),
     se_queued := se_queued s @ [m]\<rparr>"

lemma send_accepted: "fst (send m st) \<Longrightarrow> snd (send m st) = (fst st, enqueue m (snd st))"
  by (simp add: send_def queue_message_def enqueue_def Let_def split: if_splits)

lemma send_rejected: "\<not> fst (send m st) \<Longrightarrow> snd (snd (send m st)) = snd st \<and>
    only_notes (fst st) (fst (snd (send m st)))"
  by (auto simp: send_def queue_message_def Let_def)

lemma enqueue_fields [simp]:
  "se_state (enqueue m s) = se_state s" "se_session_id (enqueue m s) = se_session_id s"
  "se_close_requested (enqueue m s) = se_close_requested s" "is_open (enqueue m s) = is_open s"
  "se_self (enqueue m s) = se_self s" "se_current_stack (enqueue m s) = se_current_stack s"
  "se_last_sequence_number (enqueue m s) = se_last_sequence_number s"
  by (simp_all add: enqueue_def is_open_def)

subsection \<open>Handlers\<close>

locale refusal_invariant =
  fixes P :: "world \<Rightarrow> session \<Rightarrow> bool"
  assumes frame: "P w s \<Longrightarrow> only_notes w w' \<Longrightarrow> P w' s"
    and metrics: "P w s \<Longrightarrow> messages_sent sm = messages_sent (se_metrics s) \<Longrightarrow> P w (s\<lparr>se_metrics := sm\<rparr>)"
    and timestamps: "P w s \<Longrightarrow> P w (s\<lparr>se_message_timestamps := ts\<rparr>)"
    and activity: "P w s \<Longrightarrow> P w (s\<lparr>se_message_count := c, se_last_activity := t\<rparr>)"
    and enqueue: "P w s \<Longrightarrow> is_open s \<Longrightarrow> length (se_write_queue s) < MAX_WRITE_QUEUE_SIZE \<Longrightarrow>
          P w (enqueue m s)"
    and close: "P w s \<Longrightarrow> P (fst (close (w, s))) (snd (close (w, s)))"
begin

text \<open>The property of a pair, and what keeps it.\<close>

definition holds :: "st \<Rightarrow> bool" where
  "holds st \<longleftrightarrow> P (fst st) (snd st)"

lemma holds_say: "holds st \<Longrightarrow> holds (say l st)"
  unfolding holds_def by (auto intro: frame)

lemma holds_report: "holds st \<Longrightarrow> holds (on_world (report ms) st)"
  unfolding holds_def by (auto intro: frame)

lemma holds_send: "holds st \<Longrightarrow> holds (snd (send m st))"
  unfolding holds_def
  using send_result [of m st] send_accepted [of m st] send_rejected [of m st]
  by (cases "fst (send m st)") (auto intro: enqueue frame)

lemma holds_metrics: "holds st \<Longrightarrow> holds (on_session (\<lambda>s. s\<lparr>se_metrics := increment_errors n (se_metrics s)\<rparr>) st)"
    "holds st \<Longrightarrow> holds (on_session (\<lambda>s. s\<lparr>se_metrics := increment_bytes_received b
       (increment_messages_received k (se_metrics s))\<rparr>) st)"
  unfolding holds_def
  by (simp_all add: metrics increment_errors_def increment_bytes_received_def increment_messages_received_def)

lemma holds_send_protocol_error: "holds st \<Longrightarrow> holds (send_protocol_error J c m st)"
  unfolding send_protocol_error_def Let_def
  using holds_send [of st]
  by (auto split: sum.split prod.split bool.split intro!: holds_metrics holds_say) (metis snd_conv)+

lemma holds_close: "holds st \<Longrightarrow> holds (close st)"
  unfolding holds_def using close [of "fst st" "snd st"] by simp

lemma holds_refuse: "holds st \<Longrightarrow> holds (refuse J l c m st)"
  unfolding refuse_def by (intro holds_close holds_send_protocol_error holds_say)

lemma holds_rate_limit: "holds st \<Longrightarrow> holds (snd (check_rate_limit_or_close J st))"
proof -
  assume "holds st"
  then have "holds (tick (fst st), (snd st)\<lparr>se_message_timestamps := ts\<rparr>)" for ts
    unfolding holds_def by (auto intro: frame timestamps)
  then show ?thesis by (simp add: check_rate_limit_or_close_def Let_def holds_refuse)
qed

lemma holds_suspicious: "holds st \<Longrightarrow> holds (snd (check_suspicious_activity st))"
proof -
  assume "holds st"
  then have "holds (tick (fst st), (snd st)\<lparr>se_message_count := c, se_last_activity := t\<rparr>)" for c t
    unfolding holds_def by (auto intro: frame activity)
  then show ?thesis by (simp add: check_suspicious_activity_def Let_def holds_say)
qed

lemma holds_validate: "holds st \<Longrightarrow> holds (snd (validate_session_id J sid st))"
  by (simp add: validate_session_id_def Let_def holds_refuse)

end

text \<open>The interface of the message handlers.\<close>

locale handler_invariant = refusal_invariant +
  assumes refused: "P w s \<Longrightarrow> w_manager w = Some mgr \<Longrightarrow>
          register_session (w_rng w) (Some (se_self s)) mgr = (l, [], mgr') \<Longrightarrow>
          P (w\<lparr>w_manager := Some mgr'\<rparr>) s"
    and registered: "P w s \<Longrightarrow> w_manager w = Some mgr \<Longrightarrow> se_state s = Unauthenticated \<Longrightarrow>
          se_session_id s = [] \<Longrightarrow>
          register_session (w_rng w) (Some (se_self s)) mgr = (l, sid, mgr') \<Longrightarrow> sid \<noteq> [] \<Longrightarrow>
          P (w\<lparr>w_manager := Some mgr'\<rparr>) (s\<lparr>se_session_id := sid\<rparr>)"
    and authenticate: "P w s \<Longrightarrow> is_open s \<Longrightarrow> se_state s = Unauthenticated \<Longrightarrow> se_session_id s \<noteq> [] \<Longrightarrow>
          P w (s\<lparr>se_state := Authenticated\<rparr>)"
    and sequence: "P w s \<Longrightarrow> se_state s = Authenticated \<Longrightarrow>
          sint (se_last_sequence_number s) < sint seq \<Longrightarrow>
          seq - se_last_sequence_number s \<le> get_max_sequence_gap (w_config w) \<Longrightarrow>
          P w (s\<lparr>se_last_sequence_number := seq\<rparr>)"
    and stack: "P w s \<Longrightarrow> is_open s \<Longrightarrow> se_state s = Authenticated \<Longrightarrow> amount_in_bounds a \<Longrightarrow>
          P w (s\<lparr>se_current_stack := smin (se_current_stack s + a) (word_of_int MAX_AMOUNT)\<rparr>)"
begin

lemma holds_answer:
  assumes "holds st" "se_state (snd st) = Unauthenticated" "se_session_id (snd st) \<noteq> []"
  shows "holds (snd (answer_handshake J sid st))"
proof -
  have sent: "holds (on_session (\<lambda>s. s\<lparr>se_state := Authenticated\<rparr>) st1)" if "send t st = (True, st1)" for t st1
  proof -
    have "st1 = (fst st, enqueue t (snd st))" "is_open (snd st)" "holds st1"
      using that send_accepted [of t st] send_result [of t st] holds_send [OF assms(1), of t] by simp_all
    then show ?thesis
      using authenticate [of "fst st" "enqueue t (snd st)"] assms(2,3) unfolding holds_def by simp
  qed
  have unsent: "holds st1" if "send t st = (False, st1)" for t st1
    using that holds_send [OF assms(1), of t] by simp
  show ?thesis
    by (auto simp: answer_handshake_def Let_def assms(1) intro: holds_say holds_close dest: sent unsent
        split: sum.split prod.split bool.split)
qed

lemma holds_begin_session:
  assumes "holds st" "se_state (snd st) = Unauthenticated" "se_session_id (snd st) = []"
  shows "holds (snd (begin_session J st))"
proof (cases "w_manager (fst st)")
  case None
  then show ?thesis by (simp add: begin_session_def holds_refuse assms(1))
next
  case (Some mgr)
  obtain lines sid mgr' where r:
    "register_session (w_rng (fst st)) (Some (se_self (snd st))) mgr = (lines, sid, mgr')"
    by (cases "register_session (w_rng (fst st)) (Some (se_self (snd st))) mgr")
  define st1 where "st1 = on_world (\<lambda>w. emit lines (w\<lparr>w_manager := Some mgr'\<rparr>)) st"
  show ?thesis
  proof (cases "sid = []")
    case True
    then have "P ((fst st)\<lparr>w_manager := Some mgr'\<rparr>) (snd st)"
      using refused assms(1) Some r unfolding holds_def by blast
    then have "holds st1" unfolding holds_def st1_def by (auto intro: frame)
    then show ?thesis using True by (simp add: begin_session_def Some r Let_def holds_refuse flip: st1_def)
  next
    case False
    have "P ((fst st)\<lparr>w_manager := Some mgr'\<rparr>) ((snd st)\<lparr>se_session_id := sid\<rparr>)"
      using registered [OF _ Some assms(2,3) r False] assms(1) unfolding holds_def .
    then have "holds (on_session (\<lambda>s. s\<lparr>se_session_id := sid\<rparr>) st1)"
      unfolding holds_def st1_def by (auto intro: frame)
    then show ?thesis
      using False assms(2) by (simp add: begin_session_def Some r Let_def holds_answer st1_def)
  qed
qed

lemma holds_handshake:
  assumes "holds st" "se_state (snd st) = Unauthenticated" "se_session_id (snd st) = []"
  shows "holds (snd (handle_handshake_message J message st))"
  using assms
  by (auto simp: handle_handshake_message_def Let_def holds_report holds_refuse holds_say
      intro!: holds_begin_session split: prod.split option.split)

lemma validate_result:
  assumes "validate_session_id J sid st = (b, st1)"
  shows "b \<Longrightarrow> st1 = st" and "holds st \<Longrightarrow> holds st1"
  using assms holds_validate [of st J sid]
  by (auto simp: validate_session_id_def Let_def split: if_splits)

lemma holds_apply_action:
  "holds st \<Longrightarrow> se_state (snd st) = Authenticated \<Longrightarrow> holds (apply_action J sid action st)"
  using sequence unfolding apply_action_def Let_def
  by (auto intro!: holds_refuse holds_say) (simp add: holds_def not_le not_less)

lemma holds_apply_reload:
  assumes "holds st" "se_state (snd st) = Authenticated" "amount_in_bounds (rq_requested_amount request)"
  shows "holds (snd (apply_reload J sid request st))"
proof -
  define st1 where "st1 = say (log_message (''[WebSocketSession] Validated RELOAD_REQUEST from '' @
      sanitize_session_id sid)) st"
  define n where "n = smin (se_current_stack (snd st1) + rq_requested_amount request) (word_of_int MAX_AMOUNT)"
  have h: "holds st1" "snd st1 = snd st" using assms(1) by (simp_all add: st1_def holds_say)
  have sent: "holds (on_session (\<lambda>s. s\<lparr>se_current_stack := n\<rparr>) st2)" if "send t st1 = (True, st2)" for t st2
  proof -
    have "st2 = (fst st1, enqueue t (snd st1))" "is_open (snd st1)" "holds st2"
      using that send_accepted [of t st1] send_result [of t st1] holds_send [OF h(1), of t] by simp_all
    then show ?thesis
      using stack [of "fst st1" "enqueue t (snd st1)", OF _ _ _ assms(3)] assms(2) h(2)
      unfolding holds_def n_def by simp
  qed
  have unsent: "holds st2" if "send t st1 = (False, st2)" for t st2
    using that holds_send [OF h(1), of t] by simp
  show ?thesis
    unfolding apply_reload_def Let_def st1_def [symmetric] n_def [symmetric]
    by (auto simp: h(1) intro: holds_say holds_close dest: sent unsent split: sum.split prod.split bool.split)
qed

lemma holds_action:
  assumes "holds st" "se_state (snd st) = Authenticated"
  shows "holds (snd (handle_action J header sid st))"
  using assms
  by (auto simp: handle_action_def Let_def split: prod.split option.split bool.split
      intro!: holds_refuse holds_report holds_apply_action dest: validate_result)

lemma holds_reload:
  assumes "holds st" "se_state (snd st) = Authenticated"
  shows "holds (snd (handle_reload_msg J header sid st))"
proof -
  have "amount_in_bounds (rq_requested_amount m)"
    if "parse_reload_from_envelope J j = (l, Some m)" for j l m
    using that parse_reload_from_envelope_Some [of J j m] by (simp add: reload_acceptable_def)
  then show ?thesis
    using assms
    by (auto simp: handle_reload_msg_def Let_def split: prod.split option.split bool.split
        intro!: holds_refuse holds_report holds_apply_reload dest: validate_result)
qed

lemma holds_disconnect:
  assumes "holds st"
  shows "holds (snd (handle_disconnect_msg J header sid st))"
  using assms
  by (auto simp: handle_disconnect_msg_def Let_def split: prod.split option.split bool.split
      intro!: holds_refuse holds_report holds_say holds_close dest: validate_result)

lemma holds_authenticated_message:
  assumes "holds st" "se_state (snd st) = Authenticated"
  shows "holds (snd (handle_authenticated_message J message st))"
  using assms
  by (auto simp: handle_authenticated_message_def Let_def split: prod.split option.split
      intro!: holds_refuse holds_report holds_action holds_reload holds_disconnect)

end

text \<open>A session that has left the unauthenticated state does not return to it.\<close>

lemma do_close_state: "se_state (snd (do_close st)) = (if se_close_initiated (snd st) then se_state (snd st) else Closed)"
  by (simp add: do_close_def Let_def timer_cancel_def split: option.split)

lemma close_state: "se_state (snd (close st)) = Closed \<or> se_state (snd (close st)) = se_state (snd st)"
  by (simp add: close_def Let_def close_body_def do_close_state)

interpretation known: handler_invariant "\<lambda>w s. se_state s \<noteq> Unauthenticated"
proof unfold_locales
  show "se_state (snd (close (w, s))) \<noteq> Unauthenticated" if "se_state s \<noteq> Unauthenticated" for w s
    using that close_state [of "(w, s)"] by auto
qed auto

lemma authenticated_message_state:
  "se_state (snd st) = Authenticated \<Longrightarrow>
     se_state (snd (snd (handle_authenticated_message J message st))) \<noteq> Unauthenticated"
  using known.holds_authenticated_message [of st J message] by (simp add: known.holds_def)

text \<open>After a handshake message the session is open only if it is authenticated.\<close>

lemma answer_open:
  "fst (answer_handshake J sid st) = None \<Longrightarrow> is_open (snd (snd (answer_handshake J sid st))) \<Longrightarrow>
     se_state (snd (snd (answer_handshake J sid st))) = Authenticated"
  by (auto simp: answer_handshake_def Let_def close_not_open split: sum.splits prod.splits bool.splits)

lemma handshake_open:
  "fst (handle_handshake_message J message st) = None \<Longrightarrow>
     is_open (snd (snd (handle_handshake_message J message st))) \<Longrightarrow>
     se_state (snd (snd (handle_handshake_message J message st))) = Authenticated"
  by (auto simp: handle_handshake_message_def begin_session_def Let_def refuse_not_open answer_open
      split: prod.splits option.splits if_splits)

text \<open>What a message that passes the two checks leaves alone.\<close>

lemma rate_limit_passed:
  assumes "check_rate_limit_or_close J st = (True, st1)"
  shows "se_state (snd st1) = se_state (snd st)" "se_session_id (snd st1) = se_session_id (snd st)"
  using assms by (auto simp: check_rate_limit_or_close_def Let_def split: if_splits)

lemma suspicious_passed:
  assumes "check_suspicious_activity st = (False, st1)"
  shows "se_state (snd st1) = se_state (snd st)" "se_session_id (snd st1) = se_session_id (snd st)"
  using assms by (auto simp: check_suspicious_activity_def Let_def split: if_splits)

lemma rate_limit_closes:
  "\<not> fst (check_rate_limit_or_close J st) \<Longrightarrow> \<not> is_open (snd (snd (check_rate_limit_or_close J st)))"
  unfolding check_rate_limit_or_close_def Let_def
  by (simp only: if_split_asm fst_conv snd_conv refuse_not_open not_True_eq_False simp_thms
      if_bool_eq_disj if_distrib [of fst] if_distrib [of snd] if_distrib [of is_open])

subsection \<open>Events\<close>

text \<open>
  An invariant of all events. \<open>P\<close> holds between events, \<open>Q\<close> while a message that was read is
  handled, \<open>R\<close> while the deadline's handler runs. A message that arrives before the session is
  authenticated finds no session id yet; \<open>perform_holds\<close> takes that from its caller.
\<close>

locale session_invariant = reading: handler_invariant Q + deadline: refusal_invariant R
  for P Q R :: "world \<Rightarrow> session \<Rightarrow> bool" +
  assumes stable_frame: "P w s \<Longrightarrow> only_notes w w' \<Longrightarrow> P w' s"
    and read_begins: "P w s \<Longrightarrow> 0 < se_reading s \<Longrightarrow> Q w (s\<lparr>se_reading := se_reading s - 1\<rparr>)"
    and read_ends: "Q w s \<Longrightarrow> \<not> is_open s \<Longrightarrow> P w s"
    and read_again: "Q w s \<Longrightarrow> is_open s \<Longrightarrow> se_state s = Authenticated \<Longrightarrow>
          P w ((timer_cancel s)\<lparr>se_expiry := e, se_reading := se_reading s + 1\<rparr>)"
    and read_failed: "Q w s \<Longrightarrow> se_state s \<noteq> Closed \<Longrightarrow>
          P (if se_session_id s = [] then w else unregister (se_session_id s) w)
            (timer_cancel (s\<lparr>se_state := Closed\<rparr>))"
    and read_ignored: "P w s \<Longrightarrow> 0 < se_reading s \<Longrightarrow> se_state s = Closed \<Longrightarrow>
          P w (s\<lparr>se_reading := se_reading s - 1\<rparr>)"
    and deadline_begins: "P w s \<Longrightarrow> se_timer_done s = ec # d \<Longrightarrow> R w (s\<lparr>se_timer_done := d\<rparr>)"
    and deadline_ends: "R w s \<Longrightarrow> \<not> is_open s \<Longrightarrow> P w s"
    and deadline_again: "P w s \<Longrightarrow> se_timer_done s = ec # d \<Longrightarrow> is_open s \<Longrightarrow>
          P w (start_wait (s\<lparr>se_timer_done := d\<rparr>))"
    and timer_done: "P w s \<Longrightarrow> 0 < se_waits s \<Longrightarrow> P w (timer_completes tec s)"
    and accept_failed: "P w s \<Longrightarrow> 0 < se_accepting s \<Longrightarrow> se_state s \<noteq> Closed \<Longrightarrow>
          P w ((timer_cancel (s\<lparr>se_accepting := se_accepting s - 1\<rparr>))\<lparr>se_state := Closed\<rparr>)"
    and accept_ignored: "P w s \<Longrightarrow> 0 < se_accepting s \<Longrightarrow> \<not> is_open s \<Longrightarrow>
          P w (s\<lparr>se_accepting := se_accepting s - 1\<rparr>)"
    and accepted: "P w s \<Longrightarrow> 0 < se_accepting s \<Longrightarrow> is_open s \<Longrightarrow>
          P w (s\<lparr>se_accepting := se_accepting s - 1, se_reading := se_reading s + 1\<rparr>)"
    and write_task: "P w s \<Longrightarrow> se_tasks s = Do_write_task # ts \<Longrightarrow>
          P (fst (do_write (w, s\<lparr>se_tasks := ts\<rparr>))) (snd (do_write (w, s\<lparr>se_tasks := ts\<rparr>)))"
    and write_lost: "P w s \<Longrightarrow> se_tasks s = Do_write_task # ts \<Longrightarrow> se_state s \<noteq> Closed \<Longrightarrow>
          se_write_queue s = m # rest \<Longrightarrow> s' = s\<lparr>se_tasks := ts, se_write_queue := rest, se_writing := False\<rparr> \<Longrightarrow>
          P (fst (close (w, s'))) (snd (close (w, s')))"
    and close_task: "P w s \<Longrightarrow> se_tasks s = Close_task # ts \<Longrightarrow>
          P (fst (close_body (w, s\<lparr>se_tasks := ts\<rparr>))) (snd (close_body (w, s\<lparr>se_tasks := ts\<rparr>)))"
    and write_done: "P w s \<Longrightarrow> se_in_flight s = m # ms \<Longrightarrow>
          s' = s\<lparr>se_in_flight := ms, se_sent := se_sent s @ (if wec = No_error then [m] else [])\<rparr> \<Longrightarrow>
          P (fst (on_write wec b (w, s'))) (snd (on_write wec b (w, s')))"
    and ws_closed: "P w s \<Longrightarrow> 0 < se_ws_closing s \<Longrightarrow>
          P w (s\<lparr>se_ws_closing := se_ws_closing s - 1, se_socket_open := o'\<rparr>)"
    and sent_outside: "P w s \<Longrightarrow> is_open s \<Longrightarrow> length (se_write_queue s) < MAX_WRITE_QUEUE_SIZE \<Longrightarrow>
          P w (enqueue m s)"
    and closed_outside: "P w s \<Longrightarrow> P (fst (close_from_outside (w, s))) (snd (close_from_outside (w, s)))"
begin

definition stable :: "st \<Rightarrow> bool" where
  "stable st \<longleftrightarrow> P (fst st) (snd st)"

lemma refused_stable: "reading.holds st \<Longrightarrow> stable (refuse J l c m st)"
  using reading.holds_refuse [of st J l c m] read_ends refuse_not_open [of J l c m st]
  unfolding reading.holds_def stable_def by blast

lemma handle_message_stable:
  assumes "reading.holds st" and "se_state (snd st) = current" "current \<noteq> Closed"
    and "current = Unauthenticated \<Longrightarrow> se_session_id (snd st) = []"
  shows "stable (handle_message J current message st)"
proof -
  define r where "r = (if current = Unauthenticated then handle_handshake_message J message st
     else handle_authenticated_message J message st)"
  have h: "reading.holds (snd r)"
    using assms reading.holds_handshake [of st] reading.holds_authenticated_message [of st]
    unfolding r_def by (cases current) simp_all
  have auth: "se_state (snd (snd r)) = Authenticated" if "fst r = None" "is_open (snd (snd r))"
  proof (cases "current = Unauthenticated")
    case True
    then show ?thesis using that handshake_open [of J message st] by (simp add: r_def)
  next
    case False
    then have "se_state (snd st) = Authenticated" using assms(2,3) by (cases current) simp_all
    then have "se_state (snd (snd r)) \<noteq> Unauthenticated"
      using authenticated_message_state [of st J message] False by (simp add: r_def)
    then show ?thesis using that(2) by (cases "se_state (snd (snd r))") (simp_all add: is_open_def)
  qed
  show ?thesis
  proof (cases "fst r")
    case None
    show ?thesis
    proof (cases "is_open (snd (snd r))")
      case True
      then have "P (fst (snd r)) ((timer_cancel (snd (snd r)))\<lparr>se_expiry := e, se_reading := se_reading (snd (snd r)) + 1\<rparr>)" for e
        using h auth [OF None True] read_again unfolding reading.holds_def by simp
      then have "P (tick (fst (snd r))) ((timer_cancel (snd (snd r)))\<lparr>se_expiry := e, se_reading := se_reading (snd (snd r)) + 1\<rparr>)" for e
        by (rule stable_frame) simp
      then show ?thesis
        using True None
        by (cases r) (simp add: handle_message_def flip: r_def, simp add: do_read_def expires_after_def stable_def
            is_open_def timer_cancel_def)
    next
      case False
      then show ?thesis
        using h None read_ends unfolding reading.holds_def
        by (cases r) (auto simp: handle_message_def stable_def is_open_def simp flip: r_def)
    qed
  next
    case (Some e)
    then show ?thesis
      using refused_stable [OF h] by (cases r) (simp add: handle_message_def flip: r_def)
  qed
qed

lemma connection_lost_stable:
  assumes "reading.holds st" "se_state (snd st) \<noteq> Closed"
  shows "stable (connection_lost l1 l2 st)"
proof -
  have p: "P (if se_session_id (snd st) = [] then fst st else unregister (se_session_id (snd st)) (fst st))
      (timer_cancel ((snd st)\<lparr>se_state := Closed\<rparr>))"
    using read_failed assms unfolding reading.holds_def by blast
  have sid: "se_session_id (timer_cancel ((snd st)\<lparr>se_state := Closed\<rparr>)) = se_session_id (snd st)"
    by (simp add: timer_cancel_def)
  show ?thesis
    using p unfolding stable_def
    by (auto simp: connection_lost_def Let_def sid frame_simps elim!: stable_frame split: if_splits)
qed

lemma rate_limit_stable:
  assumes "reading.holds st" "check_rate_limit_or_close J st = (False, st1)"
  shows "stable st1"
proof -
  have "\<not> is_open (snd st1)" using rate_limit_closes [of J st] assms(2) by simp
  moreover have "reading.holds st1" using reading.holds_rate_limit [OF assms(1), of J] assms(2) by simp
  ultimately show ?thesis using read_ends unfolding reading.holds_def stable_def by blast
qed

lemma on_read_stable:
  assumes "reading.holds st" "se_state (snd st) \<noteq> Closed"
    and quiet: "se_state (snd st) = Unauthenticated \<Longrightarrow> se_session_id (snd st) = []"
  shows "stable (on_read J ec b message st)"
proof (cases ec)
  case (Err kind msg)
  then show ?thesis
    using assms connection_lost_stable [OF assms(1,2)] by (cases kind) (simp_all add: on_read_def Let_def)
next
  case No_error
  define st1 where "st1 = on_session (\<lambda>s. s\<lparr>se_metrics := increment_bytes_received b
      (increment_messages_received 1 (se_metrics s))\<rparr>) st"
  have h1: "reading.holds st1" "se_state (snd st1) = se_state (snd st)"
    "se_session_id (snd st1) = se_session_id (snd st)"
    using reading.holds_metrics(2) [OF assms(1)] by (simp_all add: st1_def)
  have h2: "reading.holds st2" if "check_rate_limit_or_close J st1 = (True, st2)" for st2
    using reading.holds_rate_limit [OF h1(1), of J] that by simp
  have h3: "reading.holds st3" if "reading.holds st2" "check_suspicious_activity st2 = (c, st3)" for st2 st3 c
    using reading.holds_suspicious [OF that(1)] that(2) by simp
  have m: "stable (handle_message J (se_state (snd st)) message st3)"
    if "check_rate_limit_or_close J st1 = (True, st2)" "check_suspicious_activity st2 = (False, st3)" for st2 st3
    using h3 [OF h2 [OF that(1)] that(2)] h1(2,3) quiet assms(2)
      rate_limit_passed [OF that(1)] suspicious_passed [OF that(2)]
    by (intro handle_message_stable) simp_all
  obtain passed st2 where c: "check_rate_limit_or_close J st1 = (passed, st2)"
    by (cases "check_rate_limit_or_close J st1")
  obtain suspicious st3 where a: "check_suspicious_activity st2 = (suspicious, st3)"
    by (cases "check_suspicious_activity st2")
  show ?thesis
  proof (cases passed)
    case True
    then have "reading.holds st3" using h3 [OF h2 a] c by simp
    then show ?thesis
      using m [of st2 st3] refused_stable assms(2) c a True
      by (cases suspicious) (simp_all add: on_read_def Let_def No_error flip: st1_def)
  next
    case False
    then show ?thesis
      using rate_limit_stable [OF h1(1)] assms(2) c
      by (simp add: on_read_def Let_def No_error flip: st1_def)
  qed
qed

lemma on_deadline_stable:
  assumes "P w s" "se_timer_done s = ec # d"
  shows "stable (on_deadline J ec (w, s\<lparr>se_timer_done := d\<rparr>))"
proof -
  have r: "R w' (s\<lparr>se_timer_done := d\<rparr>)" if "only_notes w w'" for w'
    using deadline_begins [OF assms] deadline.frame that by blast
  have closed: "stable (w', s\<lparr>se_timer_done := d\<rparr>)"
    if "only_notes w w'" "\<not> is_open s" for w'
    using r [OF that(1)] that(2) deadline_ends unfolding stable_def is_open_def by simp
  have again: "stable (w', start_wait (s\<lparr>se_timer_done := d\<rparr>))"
    if "only_notes w w'" "is_open s" for w'
    using deadline_again [OF assms that(2)] stable_frame [OF _ that(1)] unfolding stable_def by simp
  have refused: "stable (refuse J l c m (w, s\<lparr>se_timer_done := d\<rparr>))" for l c m
    using deadline.holds_refuse [of "(w, s\<lparr>se_timer_done := d\<rparr>)" J l c m] r [of w] deadline_ends
      refuse_not_open [of J l c m] unfolding deadline.holds_def stable_def by simp
  show ?thesis
  proof (cases ec)
    case No_error
    then show ?thesis using refused closed [of w] by (auto simp: on_deadline_def is_open_def Let_def)
  next
    case (Err kind msg)
    then show ?thesis
      using closed again
      by (cases kind) (auto simp: on_deadline_def Let_def is_open_def check_deadline_def on_session_def say_def)
  qed
qed

lemma on_accept_stable:
  assumes "P w s" "0 < se_accepting s"
  shows "stable (on_accept ec (w, s\<lparr>se_accepting := se_accepting s - 1\<rparr>))"
proof (cases "is_open s")
  case True
  then show ?thesis
    using accepted [OF assms True] accept_failed [OF assms]
    by (cases ec) (auto simp: on_accept_def stable_def is_open_def do_read_def Let_def say_def
        elim!: stable_frame)
next
  case False
  then show ?thesis
    using accept_ignored [OF assms False] accept_failed [OF assms]
    by (cases ec) (auto simp: on_accept_def stable_def is_open_def Let_def)
qed

lemma send_stable: "stable st \<Longrightarrow> stable (snd (send m st))"
  using send_result [of m st] send_accepted [of m st] send_rejected [of m st] sent_outside
  unfolding stable_def by (cases "fst (send m st)") (auto intro: stable_frame)

lemma do_write_lost_stable:
  assumes "P w s" "se_tasks s = Do_write_task # ts"
  shows "stable (do_write_lost (w, s\<lparr>se_tasks := ts\<rparr>))"
proof (cases "se_state s = Closed \<or> se_write_queue s = []")
  case True
  then have "do_write_lost (w, s\<lparr>se_tasks := ts\<rparr>) = do_write (w, s\<lparr>se_tasks := ts\<rparr>)"
    by (auto simp: do_write_lost_def do_write_def Let_def split: list.split)
  then show ?thesis using write_task [OF assms] by (simp add: stable_def)
next
  case False
  then obtain m rest where q: "se_write_queue s = m # rest" by (cases "se_write_queue s") auto
  define l where "l = log_error (''[WebSocketSession] Exception in do_write (allocation failure) - closing session '' @
      sanitize_session_id (se_session_id s))"
  have "P (emit [l] w) s" by (rule stable_frame [OF assms(1)]) simp
  note p = write_lost [OF this assms(2) _ q refl]
  have "do_write_lost (w, s\<lparr>se_tasks := ts\<rparr>) =
      close (emit [l] w, s\<lparr>se_tasks := ts, se_write_queue := rest, se_writing := False\<rparr>)"
    using False by (simp add: do_write_lost_def Let_def q on_session_def say_def l_def)
  then show ?thesis using p False by (simp add: stable_def)
qed

lemma ws_close_stable:
  assumes "P w s" "0 < se_ws_closing s"
  shows "stable (on_ws_close ec (w, s\<lparr>se_ws_closing := se_ws_closing s - 1\<rparr>))"
  using ws_closed [OF assms, of "se_socket_open s"] ws_closed [OF assms, of False]
  by (cases ec) (auto simp: on_ws_close_def stable_def elim!: stable_frame)

theorem perform_stable:
  assumes "stable st" "enabled ev st"
    and quiet: "0 < se_reading (snd st) \<Longrightarrow> se_state (snd st) = Unauthenticated \<Longrightarrow> se_session_id (snd st) = []"
  shows "stable (perform J ev st)"
proof -
  obtain w s where st: "st = (w, s)" by (cases st)
  have p: "P w s" using assms(1) by (simp add: stable_def st)
  show ?thesis
  proof (cases ev)
    case Run_task
    then obtain t ts where ts: "se_tasks s = t # ts"
      using assms(2) by (cases "se_tasks s") (simp_all add: enabled_def st)
    then show ?thesis
      using Run_task write_task [OF p] close_task [OF p]
      by (cases t) (simp_all add: perform_def st run_task_def stable_def)
  next
    case Write_out_of_memory
    then obtain ts where ts: "se_tasks s = Do_write_task # ts"
      using assms(2) by (cases "se_tasks s") (simp_all add: enabled_def st)
    then show ?thesis
      using do_write_lost_stable [OF p ts] Write_out_of_memory by (simp add: perform_def st)
  next
    case (Accept_done ec)
    then show ?thesis using assms(2) on_accept_stable [OF p] by (simp add: perform_def enabled_def st)
  next
    case (Read_done ec b message)
    have r: "0 < se_reading s" using assms(2) by (simp add: Read_done enabled_def st)
    show ?thesis
    proof (cases "se_state s = Closed")
      case True
      then show ?thesis
        using read_ignored [OF p r] by (simp add: Read_done perform_def st on_read_def stable_def)
    next
      case False
      then show ?thesis
        using read_begins [OF p r] quiet r
        by (simp add: Read_done perform_def st) (intro on_read_stable; simp add: reading.holds_def)
    qed
  next
    case (Write_done ec b)
    then obtain m ms where "se_in_flight s = m # ms"
      using assms(2) by (cases "se_in_flight s") (simp_all add: enabled_def st)
    then show ?thesis
      using write_done [OF p _ refl, of m ms ec b] Write_done
      by (cases "ec = No_error") (simp_all add: perform_def st stable_def)
  next
    case (Ws_close_done ec)
    then show ?thesis using assms(2) ws_close_stable [OF p] by (simp add: perform_def enabled_def st)
  next
    case Timer_expires
    then show ?thesis using assms(2) timer_done [OF p] by (simp add: perform_def enabled_def st stable_def)
  next
    case (Timer_fails msg)
    then show ?thesis using assms(2) timer_done [OF p] by (simp add: perform_def enabled_def st stable_def)
  next
    case Timer_handler
    then obtain ec d where d: "se_timer_done s = ec # d"
      using assms(2) by (cases "se_timer_done s") (simp_all add: enabled_def st)
    then show ?thesis using on_deadline_stable [OF p d, of J] Timer_handler by (simp add: perform_def st)
  next
    case (External_send m)
    then show ?thesis using send_stable [OF assms(1)] by (simp add: perform_def)
  next
    case External_close
    then show ?thesis using closed_outside [OF p] by (simp add: perform_def stable_def st)
  next
    case Clock_ticks
    then show ?thesis using p by (auto simp: perform_def stable_def st intro: stable_frame)
  qed
qed

end

end
