(* ===== verification/Session_Invariants.thy ===== *)
theory Session_Invariants
  imports Session_Laws "HOL-Library.Sublist"
begin

text \<open>
  The invariants of a session, each an interpretation of \<open>session_invariant\<close>: the writing side,
  the pending operations, the data it keeps, its order of states, and its entry in the table.
\<close>

subsection \<open>The order of states\<close>

fun rank :: "conn_state \<Rightarrow> nat" where
  "rank Unauthenticated = 0" | "rank Authenticated = 1" | "rank Closed = 2"

instantiation conn_state :: linorder
begin

definition less_eq_conn_state :: "conn_state \<Rightarrow> conn_state \<Rightarrow> bool" where
  "less_eq_conn_state a b \<longleftrightarrow> rank a \<le> rank b"

definition less_conn_state :: "conn_state \<Rightarrow> conn_state \<Rightarrow> bool" where
  "less_conn_state a b \<longleftrightarrow> rank a < rank b"

instance
proof
  fix x y :: conn_state
  show "x \<le> y \<Longrightarrow> y \<le> x \<Longrightarrow> x = y" by (cases x; cases y) (simp_all add: less_eq_conn_state_def)
qed (auto simp: less_eq_conn_state_def less_conn_state_def)

end

lemma state_order [simp]: "Unauthenticated \<le> st" "st \<le> Closed" "st \<le> Authenticated \<longleftrightarrow> st \<noteq> Closed"
    "Closed \<le> st \<longleftrightarrow> st = Closed"
  by (cases st; simp add: less_eq_conn_state_def)+

lemmas do_close_cases = close_def close_body_def do_close_def Let_def
lemmas handler_fields = timer_cancel_def timer_completes_def start_wait_def

subsection \<open>The writing side\<close>

definition pipeline_shape :: "session \<Rightarrow> bool" where
  "pipeline_shape s \<longleftrightarrow>
     count_list (se_tasks s) Do_write_task + length (se_in_flight s) = of_bool (se_writing s) \<and>
     length (se_write_queue s) \<le> MAX_WRITE_QUEUE_SIZE \<and>
     (se_close_initiated s \<longrightarrow> se_state s = Closed \<and> se_in_flight s = [] \<and> se_ws_closing s \<le> 1) \<and>
     (\<not> se_close_initiated s \<longrightarrow> se_ws_closing s = 0) \<and>
     prefix (se_sent s @ se_in_flight s) (se_queued s)"

definition write_pipeline :: "session \<Rightarrow> bool" where
  "write_pipeline s \<longleftrightarrow> pipeline_shape s \<and>
     (se_state s \<noteq> Closed \<longrightarrow>
        se_queued s = se_sent s @ se_in_flight s @ se_write_queue s \<and>
        (se_write_queue s \<noteq> [] \<longrightarrow> se_writing s) \<and>
        (Do_write_task \<in> set (se_tasks s) \<longrightarrow> se_write_queue s \<noteq> []) \<and>
        (se_close_requested s \<longrightarrow> se_writing s \<or> Close_task \<in> set (se_tasks s)))"

lemma count_list_zero: "count_list xs x = 0 \<longleftrightarrow> x \<notin> set xs"
  by (induction xs) auto

lemma Suc_of_bool [simp]: "Suc n = of_bool b \<longleftrightarrow> b \<and> n = 0"
  by (cases b) auto

lemma do_close_pipeline:
  "pipeline_shape s \<Longrightarrow> \<not> se_writing s \<Longrightarrow> write_pipeline (snd (do_close (w, s)))"
  by (auto simp: do_close_def Let_def write_pipeline_def pipeline_shape_def timer_cancel_def
      split: option.split)

lemma close_body_pipeline:
  "pipeline_shape s \<Longrightarrow> se_writing s \<Longrightarrow> write_pipeline s \<Longrightarrow> write_pipeline (snd (close_body (w, s)))"
  "pipeline_shape s \<Longrightarrow> \<not> se_writing s \<Longrightarrow> write_pipeline (snd (close_body (w, s)))"
  by (simp_all add: close_body_def do_close_pipeline)

interpretation pipeline_refusal: refusal_invariant "\<lambda>w. write_pipeline"
proof unfold_locales
  fix w s
  assume s: "write_pipeline s"
  show "write_pipeline (s\<lparr>se_metrics := m\<rparr>)" for m
    using s by (simp add: write_pipeline_def pipeline_shape_def)
  show "write_pipeline (enqueue m s)" if "is_open s" "length (se_write_queue s) < MAX_WRITE_QUEUE_SIZE" for m
    using s that by (auto simp: write_pipeline_def pipeline_shape_def enqueue_def count_list_zero is_open_def)
  have "pipeline_shape (s\<lparr>se_close_requested := True\<rparr>)"
    using s by (simp add: write_pipeline_def pipeline_shape_def)
  then show "write_pipeline (snd (close (w, s)))"
    using s do_close_pipeline [of "s\<lparr>se_close_requested := True\<rparr>" w]
    by (auto simp: close_def Let_def close_body_def write_pipeline_def pipeline_shape_def)
qed (simp_all add: write_pipeline_def pipeline_shape_def)

interpretation pipeline_handler: handler_invariant "\<lambda>w. write_pipeline"
  by unfold_locales (simp_all add: write_pipeline_def pipeline_shape_def is_open_def)

lemma do_write_pipeline:
  assumes "write_pipeline s" "se_tasks s = Do_write_task # ts"
  shows "write_pipeline (snd (do_write (w, s\<lparr>se_tasks := ts\<rparr>)))"
  using assms by (auto simp: do_write_def Let_def write_pipeline_def pipeline_shape_def count_list_zero
      split: list.split)

lemma on_write_pipeline:
  assumes "write_pipeline s" "se_in_flight s = m # ms"
    and "s' = s\<lparr>se_in_flight := ms, se_sent := se_sent s @ (if ec = No_error then [m] else [])\<rparr>"
  shows "write_pipeline (snd (on_write ec b (w, s')))"
proof (cases ec)
  case No_error
  define s1 where "s1 = s\<lparr>se_in_flight := ms, se_sent := se_sent s @ [m], se_metrics := increment_bytes_sent b
      (increment_messages_sent 1 (se_metrics s)), se_writing := False\<rparr>"
  have "pipeline_shape s1" "\<not> se_writing s1"
    using assms by (auto simp: write_pipeline_def pipeline_shape_def s1_def)
  then have "write_pipeline (snd (do_close (w, s1)))" by (rule do_close_pipeline)
  then show ?thesis
    using assms
    by (auto simp: No_error on_write_def on_session_def Let_def s1_def write_pipeline_def pipeline_shape_def
        count_list_zero)
next
  case (Err k msg)
  have p: "pipeline_shape (s\<lparr>se_in_flight := ms, se_writing := False,
      se_close_requested := True, se_write_queue := []\<rparr>)"
    using assms by (auto simp: write_pipeline_def pipeline_shape_def dest: append_prefixD)
  show ?thesis
    using do_close_pipeline [OF p] by (simp add: assms(3) Err on_write_def on_session_def Let_def say_def)
qed

lemma write_lost_pipeline:
  assumes "write_pipeline s" "se_tasks s = Do_write_task # ts" "se_state s \<noteq> Closed"
    and "s' = s\<lparr>se_tasks := ts, se_write_queue := rest, se_writing := False\<rparr>" "se_write_queue s = m # rest"
  shows "write_pipeline (snd (close (w, s')))"
proof -
  have "pipeline_shape (s'\<lparr>se_close_requested := True\<rparr>)"
    using assms by (auto simp: write_pipeline_def pipeline_shape_def)
  then have "write_pipeline (snd (do_close (w, s'\<lparr>se_close_requested := True\<rparr>)))"
    using assms(4) by (intro do_close_pipeline) simp_all
  then show ?thesis using assms(3,4) by (simp add: close_def close_body_def Let_def)
qed

interpretation pipeline: session_invariant "\<lambda>w. write_pipeline" "\<lambda>w. write_pipeline" "\<lambda>w. write_pipeline"
proof unfold_locales
  fix w s
  assume s: "write_pipeline s"
  note d = write_pipeline_def pipeline_shape_def handler_fields
  show "write_pipeline (snd (do_write (w, s\<lparr>se_tasks := ts\<rparr>)))" if "se_tasks s = Do_write_task # ts" for ts
    by (rule do_write_pipeline [OF s that])
  show "write_pipeline (snd (close (w, s')))"
    if "se_tasks s = Do_write_task # ts" "se_state s \<noteq> Closed" "se_write_queue s = m # rest"
      "s' = s\<lparr>se_tasks := ts, se_write_queue := rest, se_writing := False\<rparr>" for ts m rest s'
    by (rule write_lost_pipeline [OF s that(1,2,4,3)])
  show "write_pipeline (snd (close_body (w, s\<lparr>se_tasks := ts\<rparr>)))" if "se_tasks s = Close_task # ts" for ts
  proof -
    have "pipeline_shape (s\<lparr>se_tasks := ts\<rparr>)" "se_writing s \<Longrightarrow> write_pipeline (s\<lparr>se_tasks := ts\<rparr>)"
      using s that by (auto simp: d)
    then show ?thesis using close_body_pipeline [of "s\<lparr>se_tasks := ts\<rparr>" w] by (cases "se_writing s") simp_all
  qed
  show "write_pipeline (snd (on_write ec b (w, s')))" 
    if "se_in_flight s = m # ms"
       "s' = s\<lparr>se_in_flight := ms, se_sent := se_sent s @ (if ec = No_error then [m] else [])\<rparr>" for m ms ec b s'
    by (rule on_write_pipeline [OF s that])
  show "write_pipeline (snd (close_from_outside (w, s)))"
    using s by (auto simp: close_from_outside_def Let_def d)
  show "write_pipeline (enqueue m s)" if "is_open s" "length (se_write_queue s) < MAX_WRITE_QUEUE_SIZE" for m
    by (rule pipeline_refusal.enqueue [OF s that])
qed (auto simp: write_pipeline_def pipeline_shape_def handler_fields)

subsection \<open>Pending operations\<close>

text \<open>How many operations can bring in data, and how many ends of a wait are due.\<close>

definition inputs :: "session \<Rightarrow> nat" where
  "inputs s = se_accepting s + se_reading s"

definition deadlines :: "session \<Rightarrow> nat" where
  "deadlines s = se_waits s + length (se_timer_done s)"

definition nameless :: "session \<Rightarrow> bool" where
  "nameless s \<longleftrightarrow> (0 < se_accepting s \<longrightarrow> se_session_id s = [] \<and> se_state s \<noteq> Authenticated) \<and>
     (0 < se_reading s \<longrightarrow> se_state s = Unauthenticated \<longrightarrow> se_session_id s = [])"

definition armed :: "session \<Rightarrow> bool" where
  "armed s \<longleftrightarrow> inputs s \<le> 1 \<and> deadlines s \<le> 1 \<and>
     (is_open s \<longrightarrow> inputs s = 1 \<and> deadlines s = 1) \<and> nameless s"

definition armed_reading :: "session \<Rightarrow> bool" where
  "armed_reading s \<longleftrightarrow> inputs s = 0 \<and> deadlines s \<le> 1 \<and> (is_open s \<longrightarrow> deadlines s = 1)"

definition armed_deadline :: "session \<Rightarrow> bool" where
  "armed_deadline s \<longleftrightarrow> inputs s \<le> 1 \<and> deadlines s = 0 \<and> (is_open s \<longrightarrow> inputs s = 1) \<and> nameless s"

lemmas armed_defs = armed_def armed_reading_def armed_deadline_def inputs_def deadlines_def nameless_def
  is_open_def handler_fields

text \<open>What closing changes besides the flags: the wait is cancelled.\<close>

lemma do_close_pending:
  "inputs (snd (do_close st)) = inputs (snd st)" "deadlines (snd (do_close st)) = deadlines (snd st)"
  "se_session_id (snd (do_close st)) = se_session_id (snd st)"
  "se_accepting (snd (do_close st)) = se_accepting (snd st)"
  "se_reading (snd (do_close st)) = se_reading (snd st)"
  "se_close_requested (snd (do_close st)) = se_close_requested (snd st)"
  by (simp_all add: do_close_def Let_def inputs_def deadlines_def timer_cancel_def split: option.split)

lemma do_close_nameless: "nameless (snd st) \<Longrightarrow> nameless (snd (do_close st))"
  by (auto simp: nameless_def do_close_pending do_close_state split: if_splits)

lemma do_close_open: "is_open (snd (do_close st)) \<Longrightarrow> is_open (snd st) \<and> se_close_initiated (snd st)"
  by (simp add: is_open_def do_close_pending do_close_state split: if_splits)

lemma do_close_armed: "armed (snd st) \<Longrightarrow> armed (snd (do_close st))"
  using do_close_nameless do_close_open by (auto simp: armed_def do_close_pending)

lemma close_pending:
  "inputs (snd (close st)) = inputs (snd st)" "deadlines (snd (close st)) = deadlines (snd st)"
  by (simp_all add: close_def close_body_def Let_def do_close_pending) (simp_all add: inputs_def deadlines_def)

lemma close_nameless: "nameless (snd st) \<Longrightarrow> nameless (snd (close st))"
  using do_close_nameless [of "(fst st, (snd st)\<lparr>se_close_requested := True\<rparr>)"]
  by (auto simp: close_def close_body_def Let_def nameless_def)

lemma close_armed: "armed (snd st) \<Longrightarrow> armed (snd (close st))"
  using close_not_open [of st] close_nameless [of st] by (auto simp: armed_def close_pending)

interpretation armed_reading: handler_invariant "\<lambda>w. armed_reading"
proof unfold_locales
  show "armed_reading s \<Longrightarrow> armed_reading (snd (close (w, s)))" for w s
    using close_not_open [of "(w, s)"] by (auto simp: armed_reading_def close_pending)
qed (auto simp: armed_defs enqueue_def)

interpretation armed_deadline: refusal_invariant "\<lambda>w. armed_deadline"
proof unfold_locales
  show "armed_deadline s \<Longrightarrow> armed_deadline (snd (close (w, s)))" for w s
    using close_not_open [of "(w, s)"] close_nameless [of "(w, s)"] by (auto simp: armed_deadline_def close_pending)
qed (auto simp: armed_defs enqueue_def)

lemma on_write_armed:
  assumes "armed (snd st)"
  shows "armed (snd (on_write ec b st))"
proof (cases ec)
  case No_error
  define s1 where "s1 = (snd st)\<lparr>se_metrics := increment_bytes_sent b
      (increment_messages_sent 1 (se_metrics (snd st))), se_writing := False\<rparr>"
  have "armed s1" "armed (s1\<lparr>se_writing := True, se_tasks := ts\<rparr>)" for ts
    using assms by (simp_all add: s1_def armed_defs)
  then show ?thesis
    using do_close_armed [of "(fst st, s1)"] assms
    by (auto simp: on_write_def No_error on_session_def Let_def s1_def)
next
  case (Err k msg)
  have "armed ((snd st)\<lparr>se_writing := False, se_close_requested := True, se_write_queue := []\<rparr>)"
    using assms by (auto simp: armed_defs)
  then show ?thesis
    using do_close_armed by (simp add: on_write_def Err on_session_def Let_def say_def)
qed

interpretation armed: session_invariant "\<lambda>w. armed" "\<lambda>w. armed_reading" "\<lambda>w. armed_deadline"
proof unfold_locales
  fix w s
  assume s: "armed s"
  show "armed (snd (do_write (w, s\<lparr>se_tasks := ts\<rparr>)))" for ts
    using s by (auto simp: do_write_def Let_def armed_defs split: list.split)
  show "armed (snd (close (w, s')))"
    if "s' = s\<lparr>se_tasks := ts, se_write_queue := rest, se_writing := False\<rparr>" for ts rest s'
    using s by (intro close_armed) (simp add: that armed_defs)
  show "armed (snd (close_body (w, s\<lparr>se_tasks := ts\<rparr>)))" for ts
    using s do_close_armed [of "(w, s\<lparr>se_tasks := ts\<rparr>)"] by (auto simp: close_body_def armed_defs)
  show "armed (snd (on_write ec b (w, s')))"
    if "s' = s\<lparr>se_in_flight := ms, se_sent := se_sent s @ (if ec = No_error then [m] else [])\<rparr>" for m ms ec b s'
    using s by (intro on_write_armed) (simp add: that armed_defs)
  show "armed (snd (close_from_outside (w, s)))"
    using s by (auto simp: close_from_outside_def Let_def armed_defs)
qed (auto simp: armed_defs enqueue_def)

subsection \<open>The session's data\<close>

text \<open>Most of what a handler does leaves the data alone: everything but registering,
  authenticating, an action and a reload. An invariant of the data is shown for those four only.\<close>

definition same_data :: "session \<Rightarrow> session \<Rightarrow> bool" where
  "same_data s s' \<longleftrightarrow> se_current_stack s' = se_current_stack s \<and>
     se_last_sequence_number s' = se_last_sequence_number s \<and> se_session_id s' = se_session_id s \<and>
     se_self s' = se_self s \<and> (se_state s' = se_state s \<or> se_state s' = Closed)"

lemma same_data_refl [intro]: "same_data s s"
  by (simp add: same_data_def)

lemma same_data_trans: "same_data s s' \<Longrightarrow> same_data s' s'' \<Longrightarrow> same_data s s''"
  by (auto simp: same_data_def)

lemma do_close_same_data: "same_data s (snd (do_close (w, s)))"
  by (simp add: do_close_def Let_def timer_cancel_def same_data_def split: option.split)

lemma do_close_keeps: "same_data s s' \<Longrightarrow> same_data s (snd (do_close (w, s')))"
  by (rule same_data_trans [OF _ do_close_same_data])

lemma close_same_data: "same_data s (snd (close (w, s)))"
  using do_close_keeps [of s "s\<lparr>se_close_requested := True\<rparr>" w]
  by (auto simp: close_def close_body_def Let_def same_data_def)

lemma do_write_same_data: "same_data s (snd (do_write (w, s\<lparr>se_tasks := ts\<rparr>)))"
  by (auto simp: do_write_def Let_def same_data_def split: list.split)

lemma do_write_lost_same_data: "same_data s (snd (do_write_lost (w, s\<lparr>se_tasks := ts\<rparr>)))"
proof -
  have "same_data s (snd (close (w', s\<lparr>se_tasks := ts, se_write_queue := rest, se_writing := False\<rparr>)))" for w' rest
    by (rule same_data_trans [OF _ close_same_data]) (simp add: same_data_def)
  then show ?thesis
    by (auto simp: do_write_lost_def Let_def on_session_def say_def same_data_def split: list.split)
qed

lemma on_write_same_data: "same_data s (snd (on_write ec b (w, s\<lparr>se_in_flight := ms, se_sent := sent\<rparr>)))"
  by (cases ec) (auto simp: on_write_def on_session_def say_def Let_def intro!: do_close_keeps,
      simp_all add: same_data_def)

locale data_invariant =
  fixes I :: "session \<Rightarrow> bool"
  assumes same: "I s \<Longrightarrow> same_data s s' \<Longrightarrow> I s'"
    and named: "I s \<Longrightarrow> se_state s = Unauthenticated \<Longrightarrow> se_session_id s = [] \<Longrightarrow> sid \<noteq> [] \<Longrightarrow>
          I (s\<lparr>se_session_id := sid\<rparr>)"
    and authenticated: "I s \<Longrightarrow> se_state s = Unauthenticated \<Longrightarrow> se_session_id s \<noteq> [] \<Longrightarrow>
          I (s\<lparr>se_state := Authenticated\<rparr>)"
    and acted: "I s \<Longrightarrow> se_state s = Authenticated \<Longrightarrow> sint (se_last_sequence_number s) < sint seq \<Longrightarrow>
          I (s\<lparr>se_last_sequence_number := seq\<rparr>)"
    and reloaded: "I s \<Longrightarrow> se_state s = Authenticated \<Longrightarrow> amount_in_bounds a \<Longrightarrow>
          I (s\<lparr>se_current_stack := smin (se_current_stack s + a) (word_of_int MAX_AMOUNT)\<rparr>)"

sublocale data_invariant \<subseteq> data: session_invariant "\<lambda>w. I" "\<lambda>w. I" "\<lambda>w. I"
proof unfold_locales
  fix w s
  assume s: "I s"
  note same_s = same [OF s]
  show "I (snd (close (w, s)))" by (rule same_s [OF close_same_data])
  show "I (snd (do_write (w, s\<lparr>se_tasks := ts\<rparr>)))" for ts by (rule same_s [OF do_write_same_data])
  show "I (snd (close (w, s')))"
    if "s' = s\<lparr>se_tasks := ts, se_write_queue := rest, se_writing := False\<rparr>" for ts rest s'
    by (rule same_s [OF same_data_trans [OF _ close_same_data]]) (simp add: that same_data_def)
  show "I (snd (on_write ec b (w, s')))"
    if "s' = s\<lparr>se_in_flight := ms, se_sent := se_sent s @ (if ec = No_error then [m] else [])\<rparr>" for m ms ec b s'
    unfolding that by (rule same_s [OF on_write_same_data])
  show "I (snd (close_body (w, s\<lparr>se_tasks := ts\<rparr>)))" for ts
    using do_close_keeps [of s "s\<lparr>se_tasks := ts\<rparr>" w] by (intro same_s) (auto simp: close_body_def same_data_def)
  show "I (snd (close_from_outside (w, s)))"
    by (intro same_s) (simp add: close_from_outside_def Let_def same_data_def)
  show "I (s\<lparr>se_session_id := sid\<rparr>)"
    if "se_state s = Unauthenticated" "se_session_id s = []" "sid \<noteq> []" for sid
    by (rule named [OF s that])
  show "I (s\<lparr>se_state := Authenticated\<rparr>)" if "se_state s = Unauthenticated" "se_session_id s \<noteq> []"
    by (rule authenticated [OF s that])
  show "I (s\<lparr>se_last_sequence_number := seq\<rparr>)"
    if "se_state s = Authenticated" "sint (se_last_sequence_number s) < sint seq" for seq
    by (rule acted [OF s that])
  show "I (s\<lparr>se_current_stack := smin (se_current_stack s + a) (word_of_int MAX_AMOUNT)\<rparr>)"
    if "se_state s = Authenticated" "amount_in_bounds a" for a
    by (rule reloaded [OF s that])
qed (auto elim!: same simp: same_data_def handler_fields enqueue_def)

definition data_ok :: "session \<Rightarrow> bool" where
  "data_ok s \<longleftrightarrow>
     0 \<le> sint (se_current_stack s) \<and> sint (se_current_stack s) \<le> MAX_AMOUNT \<and>
     - 1 \<le> sint (se_last_sequence_number s) \<and>
     (se_state s = Authenticated \<longrightarrow> se_session_id s \<noteq> []) \<and>
     (se_state s = Unauthenticated \<longrightarrow>
        se_last_sequence_number s = - 1 \<and> se_current_stack s = PLACEHOLDER_STACK)"

lemma reloaded_stack:
  assumes "0 \<le> sint (x :: i64)" "sint x \<le> MAX_AMOUNT" "amount_in_bounds a"
  shows "sint (smin (x + a) (word_of_int MAX_AMOUNT)) = min (sint x + sint a) MAX_AMOUNT"
proof -
  have "sint (x + a) = sint x + sint a"
    using assms by (intro sint_add_small) (simp_all add: amount_in_bounds_def MAX_AMOUNT_def)
  moreover have "sint (word_of_int MAX_AMOUNT :: i64) = MAX_AMOUNT" by (simp add: MAX_AMOUNT_def)
  ultimately show ?thesis by (simp add: smin_def min_def)
qed

interpretation data_ok: data_invariant data_ok
proof
  fix s a
  assume s: "data_ok s" "se_state s = Authenticated" and a: "amount_in_bounds a"
  then show "data_ok (s\<lparr>se_current_stack := smin (se_current_stack s + a) (word_of_int MAX_AMOUNT)\<rparr>)"
    using reloaded_stack [OF _ _ a, of "se_current_stack s"]
    by (auto simp: data_ok_def amount_in_bounds_def MAX_AMOUNT_def)
qed (auto simp: data_ok_def same_data_def)

text \<open>From \<open>s\<close> on, a session only goes forward.\<close>

definition ahead :: "session \<Rightarrow> session \<Rightarrow> bool" where
  "ahead s s' \<longleftrightarrow> se_state s \<le> se_state s' \<and>
     sint (se_last_sequence_number s) \<le> sint (se_last_sequence_number s') \<and>
     (se_session_id s \<noteq> [] \<longrightarrow> se_session_id s' = se_session_id s) \<and> se_self s' = se_self s"

interpretation ahead: data_invariant "ahead s0" for s0
  by unfold_locales (auto simp: ahead_def same_data_def)

end
