(* ===== verification/Session_Table.thy ===== *)
theory Session_Table
  imports Session_Invariants
begin

text \<open>
  A session and its entry in the session table. \<open>linked\<close> says that the table names the session
  only under its own id and only while it is not closed, and that the entries of the other
  sessions are what they were (\<open>others\<close>). \<open>exact\<close> is the situation before the server stops:
  then the entry of a session that has an id is there until it closes, and no other entry is lost.
\<close>

definition entry_ok ::
  "bool \<Rightarrow> (string \<Rightarrow> session_ref option) \<Rightarrow> session_ref \<Rightarrow> string \<Rightarrow> bool \<Rightarrow> (string \<Rightarrow> session_ref option) \<Rightarrow> bool" where
  "entry_ok exact others self sid gone table \<longleftrightarrow>
     (\<forall>x. table x = Some self \<longrightarrow> x = sid \<and> \<not> gone) \<and>
     (\<forall>x r. r \<noteq> self \<longrightarrow> table x = Some r \<longrightarrow> others x = Some r) \<and>
     (exact \<longrightarrow> (sid \<noteq> [] \<and> \<not> gone \<longrightarrow> table sid = Some self) \<and>
        (\<forall>x r. r \<noteq> self \<longrightarrow> others x = Some r \<longrightarrow> table x = Some r))"

definition linked :: "bool \<Rightarrow> (string \<Rightarrow> session_ref option) \<Rightarrow> world \<Rightarrow> session \<Rightarrow> bool" where
  "linked exact others w s \<longleftrightarrow>
     (\<exists>m. w_manager w = Some m \<and> manager_ok m \<and>
        entry_ok exact others (se_self s) (se_session_id s) (se_state s = Closed) (om_find (cm_sessions m)))"

lemma linked_cong:
  "linked exact others w s \<Longrightarrow> w_manager w' = w_manager w \<Longrightarrow> se_self s' = se_self s \<Longrightarrow>
     se_session_id s' = se_session_id s \<Longrightarrow> (se_state s' = Closed \<longleftrightarrow> se_state s = Closed) \<Longrightarrow>
     linked exact others w' s'"
  by (simp add: linked_def)

lemma entry_leave:
  assumes "entry_ok exact others self sid False table" "table [] = None"
  shows "entry_ok exact others self sid True (table(sid := None))"
  using assms unfolding entry_ok_def fun_upd_apply
  by (intro conjI allI impI) (metis option.distinct(1) option.inject)+

lemma entry_enter:
  assumes "entry_ok exact others self [] False table" "table [] = None" "table sid = None" "sid \<noteq> []"
  shows "entry_ok exact others self sid False (table(sid \<mapsto> self))"
  using assms unfolding entry_ok_def fun_upd_apply
  by (intro conjI allI impI) (metis option.distinct(1) option.inject)+

lemma entry_gone: "entry_ok exact others self sid True table \<Longrightarrow> table x \<noteq> Some self"
  by (simp add: entry_ok_def)

subsection \<open>Leaving the table\<close>

lemma leave:
  assumes "linked exact others w s" "se_state s \<noteq> Closed"
    and "se_self s' = se_self s" "se_session_id s' = se_session_id s" "se_state s' = Closed"
    and "w_manager w' = w_manager (if se_session_id s = [] then w else unregister (se_session_id s) w)"
  shows "linked exact others w' s'"
proof -
  obtain m where m: "w_manager w = Some m" and l: "manager_ok m"
    "entry_ok exact others (se_self s) (se_session_id s) False (om_find (cm_sessions m))"
    using assms(1,2) by (auto simp: linked_def)
  obtain m' where m': "w_manager w' = Some m'"
    using m assms(6) by (cases "se_session_id s = []") (auto simp: manager_unregister)
  have t: "manager_ok m'" "om_find (cm_sessions m') = (om_find (cm_sessions m))(se_session_id s := None)"
    using assms(6) m m' l(1) unregister_ok unregister_table manager_no_empty [of m]
    by (auto simp: manager_unregister fun_eq_iff split: if_splits)
  then show ?thesis
    using entry_leave [OF l(2) manager_no_empty [OF l(1)]] m' assms(3-5) by (simp add: linked_def)
qed

lemma do_close_manager:
  "w_manager (fst (do_close (w, s))) =
     (if se_close_initiated s \<or> se_state s = Closed \<or> se_session_id s = [] then w_manager w
      else w_manager (unregister (se_session_id s) w))"
  by (cases "se_tcp_close_error s") (auto simp: do_close_def Let_def timer_cancel_def)

lemma do_close_linked:
  assumes "linked exact others w s"
  shows "linked exact others (fst (do_close (w, s))) (snd (do_close (w, s)))"
proof -
  have same: "se_self (snd (do_close (w, s))) = se_self s"
    "se_session_id (snd (do_close (w, s))) = se_session_id s"
    using do_close_same_data [of s w] by (simp_all add: same_data_def)
  show ?thesis
  proof (cases "se_close_initiated s \<or> se_state s = Closed")
  case True
  then show ?thesis
    using same by (intro linked_cong [OF assms]) (auto simp: do_close_manager do_close_state)
next
  case False
  then show ?thesis
    using same by (intro leave [OF assms]) (auto simp: do_close_manager do_close_state)
  qed
qed

lemma close_body_linked:
  "linked exact others w s \<Longrightarrow> linked exact others (fst (close_body (w, s))) (snd (close_body (w, s)))"
  by (simp add: close_body_def do_close_linked)

lemma close_linked:
  assumes "linked exact others w s"
  shows "linked exact others (fst (close (w, s))) (snd (close (w, s)))"
proof -
  have l: "linked exact others w (s\<lparr>se_close_requested := True\<rparr>)" by (rule linked_cong [OF assms]) simp_all
  then show ?thesis using close_body_linked [OF l] by (simp add: close_def Let_def)
qed

lemma on_write_linked:
  assumes "linked exact others w s"
  shows "linked exact others (fst (on_write ec b (w, s))) (snd (on_write ec b (w, s)))"
proof -
  have c: "linked exact others (fst (do_close (w', s'))) (snd (do_close (w', s')))"
    if "w_manager w' = w_manager w" "se_self s' = se_self s" "se_session_id s' = se_session_id s"
      "se_state s' = se_state s" for w' s'
    using do_close_linked linked_cong [OF assms that(1,2,3)] that(4) by simp
  show ?thesis
    using assms
    by (cases ec) (auto simp: on_write_def on_session_def say_def Let_def intro!: c,
        (rule linked_cong [OF assms]; simp)+)
qed

subsection \<open>Entering it\<close>

lemma enter:
  assumes "linked exact others w s" "w_manager w = Some m"
    and "register_session rng (Some (se_self s)) m = (l, sid, m')"
    and "se_session_id s = []" "se_state s \<noteq> Closed"
  shows "linked exact others (w\<lparr>w_manager := Some m'\<rparr>) (s\<lparr>se_session_id := sid\<rparr>)"
proof -
  have l: "manager_ok m" "entry_ok exact others (se_self s) [] False (om_find (cm_sessions m))"
    using assms by (simp_all add: linked_def)
  have r: "registered_as (se_self s) sid m m'" by (rule register_session_registers [OF assms(3)])
  have ok: "manager_ok m'" by (rule registered_ok [OF l(1) r])
  show ?thesis
  proof (cases "sid = []")
    case True
    then show ?thesis using l r ok assms(4,5) by (simp add: linked_def registered_as_def)
  next
    case False
    then have "om_find (cm_sessions m') = (om_find (cm_sessions m))(sid \<mapsto> se_self s)"
      "om_find (cm_sessions m) sid = None"
      using r l(1) by (auto simp: registered_as_def manager_ok_def om.find_put)
    then show ?thesis
      using entry_enter [OF l(2) manager_no_empty [OF l(1)] _ False] ok assms(5) by (simp add: linked_def)
  qed
qed

lemma enter_refused:
  assumes "linked exact others w s" "w_manager w = Some m"
    and "register_session rng (Some (se_self s)) m = (l, [], m')"
  shows "linked exact others (w\<lparr>w_manager := Some m'\<rparr>) s"
proof -
  have r: "registered_as (se_self s) [] m m'" by (rule register_session_registers [OF assms(3)])
  have "manager_ok m" using assms(1,2) by (simp add: linked_def)
  then have "manager_ok m'" by (rule registered_ok [OF _ r])
  moreover have "cm_sessions m' = cm_sessions m" using r by (simp add: registered_as_def)
  ultimately show ?thesis using assms(1,2) by (simp add: linked_def)
qed

subsection \<open>The link is kept\<close>

text \<open>A failed accept closes the session without unregistering it; it never has an id then.\<close>

definition tied :: "bool \<Rightarrow> (string \<Rightarrow> session_ref option) \<Rightarrow> world \<Rightarrow> session \<Rightarrow> bool" where
  "tied exact others w s \<longleftrightarrow> armed s \<and> linked exact others w s"

definition tied_reading :: "bool \<Rightarrow> (string \<Rightarrow> session_ref option) \<Rightarrow> world \<Rightarrow> session \<Rightarrow> bool" where
  "tied_reading exact others w s \<longleftrightarrow> armed_reading s \<and> linked exact others w s"

definition tied_deadline :: "bool \<Rightarrow> (string \<Rightarrow> session_ref option) \<Rightarrow> world \<Rightarrow> session \<Rightarrow> bool" where
  "tied_deadline exact others w s \<longleftrightarrow> armed_deadline s \<and> linked exact others w s"

lemmas tied_defs = tied_def tied_reading_def tied_deadline_def

lemma linked_same:
  "linked exact others w s \<Longrightarrow> se_self s' = se_self s \<Longrightarrow> se_session_id s' = se_session_id s \<Longrightarrow>
     (se_state s' = Closed \<longleftrightarrow> se_state s = Closed) \<Longrightarrow> linked exact others w s'"
  by (rule linked_cong) simp_all

lemma linked_enqueue [simp]: "linked exact others w (enqueue m s) = linked exact others w s"
  by (simp add: linked_def)

interpretation tied_reading: handler_invariant "tied_reading exact others" for exact others
proof unfold_locales
  fix w s
  assume s: "tied_reading exact others w s"
  note a = s [unfolded tied_defs, THEN conjunct1] and l = s [unfolded tied_defs, THEN conjunct2]
  note same = linked_same [OF l]
  show "tied_reading exact others w' s" if "only_notes w w'" for w'
    using a linked_cong [OF l only_notes_manager [OF that]] by (simp add: tied_defs)
  show "tied_reading exact others w (s\<lparr>se_metrics := sm\<rparr>)"
    if "messages_sent sm = messages_sent (se_metrics s)" for sm
    using armed_reading.metrics [OF a that] same by (simp add: tied_defs)
  show "tied_reading exact others w (s\<lparr>se_message_timestamps := ts\<rparr>)" for ts
    using armed_reading.timestamps [OF a] same by (simp add: tied_defs)
  show "tied_reading exact others w (s\<lparr>se_message_count := c, se_last_activity := t\<rparr>)" for c t
    using armed_reading.activity [OF a] same by (simp add: tied_defs)
  show "tied_reading exact others w (enqueue m s)"
    if "is_open s" "length (se_write_queue s) < MAX_WRITE_QUEUE_SIZE" for m
    using armed_reading.enqueue [OF a that] l by (simp add: tied_defs)
  show "tied_reading exact others (fst (close (w, s))) (snd (close (w, s)))"
    using armed_reading.close [OF a] close_linked [OF l] by (simp add: tied_defs)
  show "tied_reading exact others (w\<lparr>w_manager := Some mgr'\<rparr>) s"
    if "w_manager w = Some mgr" "register_session (w_rng w) (Some (se_self s)) mgr = (ls, [], mgr')" for mgr ls mgr'
    using a enter_refused [OF l that] by (simp add: tied_defs)
  show "tied_reading exact others (w\<lparr>w_manager := Some mgr'\<rparr>) (s\<lparr>se_session_id := sid\<rparr>)"
    if "w_manager w = Some mgr" "se_state s = Unauthenticated" "se_session_id s = []"
      "register_session (w_rng w) (Some (se_self s)) mgr = (ls, sid, mgr')" "sid \<noteq> []" for mgr ls sid mgr'
    using armed_reading.registered [OF a that] enter [OF l that(1,4,3)] that(2) by (simp add: tied_defs)
  show "tied_reading exact others w (s\<lparr>se_state := Authenticated\<rparr>)"
    if "is_open s" "se_state s = Unauthenticated" "se_session_id s \<noteq> []"
    using armed_reading.authenticate [OF a that] same that by (simp add: tied_defs)
  show "tied_reading exact others w (s\<lparr>se_last_sequence_number := seq\<rparr>)"
    if "se_state s = Authenticated" "sint (se_last_sequence_number s) < sint seq"
      "seq - se_last_sequence_number s \<le> get_max_sequence_gap (w_config w)" for seq
    using armed_reading.sequence [OF a that] same by (simp add: tied_defs)
  show "tied_reading exact others w (s\<lparr>se_current_stack := smin (se_current_stack s + x) (word_of_int MAX_AMOUNT)\<rparr>)"
    if "is_open s" "se_state s = Authenticated" "amount_in_bounds x" for x
    using armed_reading.stack [OF a that] same by (simp add: tied_defs)
qed

interpretation tied_deadline: refusal_invariant "tied_deadline exact others" for exact others
proof unfold_locales
  fix w s
  assume s: "tied_deadline exact others w s"
  note a = s [unfolded tied_defs, THEN conjunct1] and l = s [unfolded tied_defs, THEN conjunct2]
  note same = linked_same [OF l]
  show "tied_deadline exact others w' s" if "only_notes w w'" for w'
    using a linked_cong [OF l only_notes_manager [OF that]] by (simp add: tied_defs)
  show "tied_deadline exact others w (s\<lparr>se_metrics := sm\<rparr>)"
    if "messages_sent sm = messages_sent (se_metrics s)" for sm
    using armed_deadline.metrics [OF a that] same by (simp add: tied_defs)
  show "tied_deadline exact others w (s\<lparr>se_message_timestamps := ts\<rparr>)" for ts
    using armed_deadline.timestamps [OF a] same by (simp add: tied_defs)
  show "tied_deadline exact others w (s\<lparr>se_message_count := c, se_last_activity := t\<rparr>)" for c t
    using armed_deadline.activity [OF a] same by (simp add: tied_defs)
  show "tied_deadline exact others w (enqueue m s)"
    if "is_open s" "length (se_write_queue s) < MAX_WRITE_QUEUE_SIZE" for m
    using armed_deadline.enqueue [OF a that] l by (simp add: tied_defs)
  show "tied_deadline exact others (fst (close (w, s))) (snd (close (w, s)))"
    using armed_deadline.close [OF a] close_linked [OF l] by (simp add: tied_defs)
qed

interpretation tied: session_invariant "tied exact others" "tied_reading exact others" "tied_deadline exact others"
  for exact others
proof unfold_locales
  fix w s
  assume s: "tied exact others w s"
  note a = s [unfolded tied_defs, THEN conjunct1] and l = s [unfolded tied_defs, THEN conjunct2]
  note same = linked_same [OF l]
  note parts = tied_defs handler_fields
  show "tied exact others w' s" if "only_notes w w'" for w'
    using a linked_cong [OF l only_notes_manager [OF that]] by (simp add: tied_defs)
  show "tied_reading exact others w (s\<lparr>se_reading := se_reading s - 1\<rparr>)" if "0 < se_reading s"
    using armed.read_begins [OF a that] same by (simp add: tied_defs)
  show "tied exact others w (s\<lparr>se_reading := se_reading s - 1\<rparr>)" if "0 < se_reading s" "se_state s = Closed"
    using armed.read_ignored [OF a that] same by (simp add: tied_defs)
  show "tied_deadline exact others w (s\<lparr>se_timer_done := d\<rparr>)" if "se_timer_done s = ec # d" for ec d
    using armed.deadline_begins [OF a that] same by (simp add: tied_defs)
  show "tied exact others w (start_wait (s\<lparr>se_timer_done := d\<rparr>))"
    if "se_timer_done s = ec # d" "is_open s" for ec d
    using armed.deadline_again [OF a that] same by (simp add: parts)
  show "tied exact others w (timer_completes tec s)" if "0 < se_waits s" for tec
    using armed.timer_done [OF a that] same by (simp add: parts)
  show "tied exact others w ((timer_cancel (s\<lparr>se_accepting := se_accepting s - 1\<rparr>))\<lparr>se_state := Closed\<rparr>)"
    if "0 < se_accepting s" "se_state s \<noteq> Closed"
  proof -
    have "se_session_id s = []" using a that by (auto simp: armed_def nameless_def)
    then show ?thesis
      using armed.accept_failed [OF a that] leave [OF l that(2)] by (simp add: parts)
  qed
  show "tied exact others w (s\<lparr>se_accepting := se_accepting s - 1\<rparr>)" if "0 < se_accepting s" "\<not> is_open s"
    using armed.accept_ignored [OF a that] same by (simp add: tied_defs)
  show "tied exact others w (s\<lparr>se_accepting := se_accepting s - 1, se_reading := se_reading s + 1\<rparr>)"
    if "0 < se_accepting s" "is_open s"
    using armed.accepted [OF a that] same by (simp add: tied_defs)
  show "tied exact others (fst (do_write (w, s\<lparr>se_tasks := ts\<rparr>))) (snd (do_write (w, s\<lparr>se_tasks := ts\<rparr>)))"
    if "se_tasks s = Do_write_task # ts" for ts
  proof -
    have "fst (do_write (w, s\<lparr>se_tasks := ts\<rparr>)) = w"
      "se_state (snd (do_write (w, s\<lparr>se_tasks := ts\<rparr>))) = se_state s"
      by (simp_all add: do_write_def Let_def split: list.split)
    then show ?thesis
      using armed.write_task [OF a that] do_write_same_data [of s w ts] same
      by (simp add: tied_defs same_data_def)
  qed
  show "tied exact others (fst (close (w, s'))) (snd (close (w, s')))"
    if "se_tasks s = Do_write_task # ts" "se_state s \<noteq> Closed" "se_write_queue s = m # rest"
      "s' = s\<lparr>se_tasks := ts, se_write_queue := rest, se_writing := False\<rparr>" for ts m rest s'
    using armed.write_lost [OF a that] close_linked [OF same, of s'] that(4) by (simp add: tied_defs)
  show "tied exact others (fst (close_body (w, s\<lparr>se_tasks := ts\<rparr>))) (snd (close_body (w, s\<lparr>se_tasks := ts\<rparr>)))"
    if "se_tasks s = Close_task # ts" for ts
    using armed.close_task [OF a that] close_body_linked [OF same, of "s\<lparr>se_tasks := ts\<rparr>"] by (simp add: tied_defs)
  show "tied exact others (fst (on_write ec b (w, s'))) (snd (on_write ec b (w, s')))"
    if "se_in_flight s = m # ms"
      "s' = s\<lparr>se_in_flight := ms, se_sent := se_sent s @ (if ec = No_error then [m] else [])\<rparr>" for m ms ec b s'
    using armed.write_done [OF a that] on_write_linked [OF same, of s'] that(2) by (simp add: tied_defs)
  show "tied exact others w (s\<lparr>se_ws_closing := se_ws_closing s - 1, se_socket_open := op\<rparr>)"
    if "0 < se_ws_closing s" for op
    using armed.ws_closed [OF a that] same by (simp add: tied_defs)
  show "tied exact others w (enqueue m s)"
    if "is_open s" "length (se_write_queue s) < MAX_WRITE_QUEUE_SIZE" for m
    using armed.sent_outside [OF a that] l by (simp add: tied_defs)
  show "tied exact others (fst (close_from_outside (w, s))) (snd (close_from_outside (w, s)))"
    using armed.closed_outside [OF a] same by (simp add: tied_defs close_from_outside_def Let_def)
next
  fix w s
  assume s: "tied_reading exact others w s"
  note a = s [unfolded tied_defs, THEN conjunct1] and l = s [unfolded tied_defs, THEN conjunct2]
  show "tied exact others w s" if "\<not> is_open s" using armed.read_ends [OF a that] l by (simp add: tied_defs)
  show "tied exact others w ((timer_cancel s)\<lparr>se_expiry := e, se_reading := se_reading s + 1\<rparr>)"
    if "is_open s" "se_state s = Authenticated" for e
    using armed.read_again [OF a that] linked_same [OF l] by (simp add: tied_defs timer_cancel_def)
  show "tied exact others (if se_session_id s = [] then w else unregister (se_session_id s) w)
      (timer_cancel (s\<lparr>se_state := Closed\<rparr>))" if "se_state s \<noteq> Closed"
    using armed.read_failed [OF a that] leave [OF l that, of "timer_cancel (s\<lparr>se_state := Closed\<rparr>)"]
    by (simp add: tied_defs timer_cancel_def)
next
  fix w s
  assume s: "tied_deadline exact others w s" "\<not> is_open s"
  then show "tied exact others w s" using armed.deadline_ends [of s] by (simp add: tied_defs)
qed

end
