(* ===== verification/Session_Properties.thy ===== *)
theory Session_Properties
  imports Session_Table
begin

text \<open>
  What holds of a session in every state it can reach, whatever its peer, the network, the timer
  and the other sessions do.
\<close>

subsection \<open>Reachable states\<close>

text \<open>Between two events of the session anything may happen to the world.\<close>

inductive session_reach :: "'j ext \<Rightarrow> st \<Rightarrow> bool" for J where
  start: "session_reach J (run fault (new_session ref handshake_timeout tcp_close_error w))"
| step: "session_reach J st \<Longrightarrow> enabled ev st \<Longrightarrow> session_reach J (perform J ev st)"
| elsewhere: "session_reach J (w, s) \<Longrightarrow> session_reach J (w', s)"

lemma started:
  "snd (run None (new_session ref ht e w)) =
     (snd (new_session ref ht e w)) \<lparr>se_read_message_max := get_max_message_size (w_config w),
        se_expiry := steady_now (tick w) + seconds ht, se_waits := 1, se_accepting := 1\<rparr>"
  by (simp add: run_def new_session_def expires_after_def check_deadline_def do_accept_def on_session_def
      timer_cancel_def start_wait_def frame_simps)

lemma started_fields [simp]:
  fixes ref ht e w
  defines "s \<equiv> snd (run None (new_session ref ht e w))"
  shows "se_state s = Unauthenticated" "se_session_id s = []" "se_self s = ref" "se_tasks s = []"
    "se_in_flight s = []" "se_writing s = False" "se_write_queue s = []" "se_queued s = []"
    "se_sent s = []" "se_accepting s = 1" "se_reading s = 0" "se_waits s = 1" "se_timer_done s = []"
    "se_close_requested s = False" "se_close_initiated s = False" "se_ws_closing s = 0"
    "se_last_sequence_number s = - 1" "se_current_stack s = PLACEHOLDER_STACK"
    "se_message_timestamps s = []" "se_message_count s = 0"
    "w_manager (fst (run None (new_session ref ht e w))) = w_manager w"
  unfolding s_def
  by (simp_all only: started) (simp_all add: new_session_def run_def expires_after_def check_deadline_def
      do_accept_def on_session_def)

text \<open>Whether or not something throws while it starts.\<close>

lemma begun [simp]:
  fixes fault ref ht e w
  defines "s \<equiv> snd (run fault (new_session ref ht e w))"
  shows "se_session_id s = []" "se_self s = ref" "armed s" "write_pipeline s" "data_ok s"
    "w_manager (fst (run fault (new_session ref ht e w))) = w_manager w"
    "only_notes w (fst (run fault (new_session ref ht e w)))"
proof -
  note parts = run_def run_failed_def new_session_def expires_after_def check_deadline_def do_accept_def on_session_def
    say_def timer_cancel_def start_wait_def frame_simps Let_def
  have s: "se_session_id s = []" "se_self s = ref" "se_last_sequence_number s = - 1"
    "se_current_stack s = PLACEHOLDER_STACK" "se_state s \<noteq> Authenticated"
    "se_tasks s = []" "se_in_flight s = []" "se_writing s = False" "se_write_queue s = []" "se_queued s = []"
    "se_sent s = []" "se_reading s = 0" "se_close_requested s = False" "se_close_initiated s = False"
    "se_ws_closing s = 0" "length (se_timer_done s) + se_waits s \<le> 1"
    "se_state s = Unauthenticated \<Longrightarrow> se_accepting s = 1 \<and> length (se_timer_done s) + se_waits s = 1"
    "se_state s = Closed \<Longrightarrow> se_accepting s = 0"
    unfolding s_def by (simp_all add: parts split: option.splits prod.splits run_stage.splits)
  show "se_session_id s = []" "se_self s = ref" by (fact s)+
  show "write_pipeline s" using s by (simp add: write_pipeline_def pipeline_shape_def)
  show "data_ok s" using s by (simp add: data_ok_def PLACEHOLDER_STACK_def MAX_AMOUNT_def)
  show "armed s" using s by (cases "se_state s") (simp_all add: armed_defs)
  show "w_manager (fst (run fault (new_session ref ht e w))) = w_manager w"
    "only_notes w (fst (run fault (new_session ref ht e w)))"
    by (simp_all add: only_notes_def parts split: option.split prod.split run_stage.split)
qed

lemma reach_armed: "session_reach J st \<Longrightarrow> armed (snd st)"
proof (induction rule: session_reach.induct)
  case (start fault ref ht e w)
  show ?case by simp
next
  case (step st ev)
  then show ?case
    using armed.perform_stable [of st ev J] by (simp add: armed.stable_def armed_def nameless_def)
qed simp

lemma reach_quiet:
  "session_reach J st \<Longrightarrow> 0 < se_reading (snd st) \<Longrightarrow> se_state (snd st) = Unauthenticated \<Longrightarrow>
     se_session_id (snd st) = []"
  using reach_armed [of J st] by (simp add: armed_def nameless_def)

lemma reach_pipeline: "session_reach J st \<Longrightarrow> write_pipeline (snd st)"
proof (induction rule: session_reach.induct)
  case (start fault ref ht e w)
  show ?case by simp
next
  case (step st ev)
  then show ?case
    using pipeline.perform_stable [of st ev J] reach_quiet [of J st] by (simp add: pipeline.stable_def)
qed simp

lemma reach_data: "session_reach J st \<Longrightarrow> data_ok (snd st)"
proof (induction rule: session_reach.induct)
  case (start fault ref ht e w)
  show ?case by simp
next
  case (step st ev)
  then show ?case
    using data_ok.data.perform_stable [of st ev J] reach_quiet [of J st] by (simp add: data_ok.data.stable_def)
qed simp

lemmas reach_invariants = reach_armed reach_pipeline reach_data

text \<open>A run to test with: a message is accepted from outside and its write is under way.\<close>

definition quiet_world :: world where
  "quiet_world = \<lparr>w_clock = (\<lambda>n. int n), w_ticks = 0, w_rng = (\<lambda>_. Some 7),
     w_manager = Some new_connection_manager, w_config = initial_config,
     w_metrics = new_metrics_collector 0, w_sink = Server_sink, w_log = [], w_raw_stderr = []\<rparr>"

definition fresh :: st where
  "fresh = run None (new_session 0 10 None quiet_world)"

definition writing_one :: st where
  "writing_one = perform ref_json Run_task (perform ref_json (External_send ''hi'') fresh)"

lemmas fresh_fields [simp] = started_fields [of 0 10 None quiet_world, folded fresh_def]

lemma fresh_reach: "session_reach ref_json fresh"
  unfolding fresh_def by (rule session_reach.start)

lemma send_enabled: "enabled (External_send m) st"
  by (simp add: enabled_def)

lemma queued_fresh: "snd (perform ref_json (External_send m) fresh) = enqueue m (snd fresh)"
  by (simp add: perform_def send_def queue_message_def Let_def enqueue_def
      MAX_WRITE_QUEUE_SIZE_def)

lemma writing_one_reach: "session_reach ref_json writing_one"
  unfolding writing_one_def
  by (intro session_reach.step fresh_reach send_enabled) (simp add: enabled_def queued_fresh enqueue_def Let_def)

lemma writing_one_rest: "se_write_queue (snd writing_one) = []" "se_tasks (snd writing_one) = []"
  by (simp_all add: writing_one_def perform_def [of _ Run_task] Let_def queued_fresh enqueue_def run_task_def
      do_write_def)

lemma writing_one_state:
  "se_in_flight (snd writing_one) = [''hi'']" "se_queued (snd writing_one) = [''hi'']"
  "se_state (snd writing_one) = Unauthenticated" "is_open (snd writing_one)"
  by (simp_all add: writing_one_def perform_def [of _ Run_task] Let_def queued_fresh enqueue_def run_task_def do_write_def is_open_def)

subsection \<open>Properties\<close>



text \<open>An unbounded channel: what it holds and what it has delivered.\<close>

inductive channel_step :: "string list \<times> string list \<Rightarrow> string list \<times> string list \<Rightarrow> bool" where
  accept: "channel_step (q, out) (q @ [m], out)"
| deliver: "channel_step (m # q, out) (q, out @ [m])"

definition channel :: "session \<Rightarrow> string list \<times> string list" where
  "channel s = (se_in_flight s @ se_write_queue s, se_sent s)"

lemma channel_accepts: "channel_step\<^sup>*\<^sup>* (q, out) (q @ ms, out)"
proof (induction ms rule: rev_induct)
  case (snoc m ms)
  then show ?case using channel_step.accept [of "q @ ms" out m] by simp
qed simp

lemma channel_delivers: "channel_step\<^sup>*\<^sup>* (ms @ q, out) (q, out @ ms)"
proof (induction ms arbitrary: out)
  case (Cons m ms)
  then show ?case
    using channel_step.deliver [of m "ms @ q" out]
    by (metis append_Cons append_assoc append_Nil converse_rtranclp_into_rtranclp)
qed simp

lemma channel_runs:
  assumes "q @ added = delivered @ q'"
  shows "channel_step\<^sup>*\<^sup>* (q, out) (q', out @ delivered)"
  using channel_accepts [of q out added] channel_delivers [of delivered q' out] assms by simp

text \<open>The histories only grow.\<close>

definition grown :: "session \<Rightarrow> session \<Rightarrow> bool" where
  "grown s s' \<longleftrightarrow> prefix (se_queued s) (se_queued s') \<and> prefix (se_sent s) (se_sent s')"

lemma do_close_grown: "grown s (snd (do_close (w, s'))) = grown s s'"
  by (simp add: do_close_def Let_def timer_cancel_def grown_def split: option.split)

lemma close_grown: "grown s (snd (close (w, s'))) = grown s s'"
  by (simp add: close_def close_body_def Let_def do_close_grown) (simp add: grown_def)

interpretation grown_handler: handler_invariant "\<lambda>w. grown s0" for s0
proof unfold_locales
  show "grown s0 s \<Longrightarrow> grown s0 (snd (close (w, s)))" for w s by (simp add: close_grown)
qed (auto simp: grown_def enqueue_def prefix_def)

interpretation grown: session_invariant "\<lambda>w. grown s0" "\<lambda>w. grown s0" "\<lambda>w. grown s0" for s0
proof unfold_locales
  fix w s
  assume s: "grown s0 s"
  show "grown s0 (snd (close_body (w, s\<lparr>se_tasks := ts\<rparr>)))" for ts
    using s by (simp add: close_body_def do_close_grown) (simp add: grown_def)
  show "grown s0 (snd (do_write (w, s\<lparr>se_tasks := ts\<rparr>)))" for ts
    using s by (simp add: do_write_def Let_def grown_def split: list.split)
  show "grown s0 (snd (close (w, s')))"
    if "s' = s\<lparr>se_tasks := ts, se_write_queue := rest, se_writing := False\<rparr>" for ts rest s'
    using s by (simp add: close_grown) (simp add: that grown_def)
  show "grown s0 (snd (on_write ec b (w, s')))"
    if "s' = s\<lparr>se_in_flight := ms, se_sent := se_sent s @ (if ec = No_error then [m] else [])\<rparr>" for m ms ec b s'
    unfolding that using s
    by (cases ec) (auto simp: on_write_def on_session_def say_def Let_def do_close_grown,
        auto simp: grown_def prefix_def)
  show "grown s0 (snd (close_from_outside (w, s)))"
    using s by (simp add: close_from_outside_def Let_def grown_def)
qed (auto simp: grown_def enqueue_def prefix_def handler_fields)

lemma perform_ahead: "session_reach J st \<Longrightarrow> enabled ev st \<Longrightarrow> ahead (snd st) (snd (perform J ev st))"
  using ahead.data.perform_stable [of "snd st" st ev J] reach_quiet [of J st]
  by (simp add: ahead.data.stable_def ahead_def)

lemma perform_grown: "session_reach J st \<Longrightarrow> enabled ev st \<Longrightarrow> grown (snd st) (snd (perform J ev st))"
  using grown.perform_stable [of "snd st" st ev J] reach_quiet [of J st]
  by (simp add: grown.stable_def grown_def)

text \<open>C5: Sending refines an unbounded FIFO channel: as long as the session is not closed, every event
  of the session is a sequence of steps of a channel that holds the message being written and the
  queued ones. No accepted message is lost, duplicated or overtaken; after closing, what was
  written is still a prefix of what was accepted.\<close>

theorem sending_refines_channel:
  assumes "session_reach J st" and "enabled ev st"
  shows "if se_state (snd (perform J ev st)) = Closed
     then prefix (se_sent (snd (perform J ev st))) (se_queued (snd (perform J ev st)))
     else channel_step\<^sup>*\<^sup>* (channel (snd st)) (channel (snd (perform J ev st)))"
proof -
  let ?s = "snd st" and ?s' = "snd (perform J ev st)"
  have p: "write_pipeline ?s" "write_pipeline ?s'"
    using reach_pipeline [OF assms(1)] reach_pipeline [OF session_reach.step [OF assms]] by simp_all
  have open_before: "se_state ?s \<noteq> Closed" if "se_state ?s' \<noteq> Closed"
    using perform_ahead [OF assms] that by (auto simp: ahead_def)
  obtain a d where g: "se_queued ?s' = se_queued ?s @ a" "se_sent ?s' = se_sent ?s @ d"
    using perform_grown [OF assms] by (auto simp: grown_def prefix_def)
  have "channel_step\<^sup>*\<^sup>* (channel ?s) (channel ?s')" if "se_state ?s' \<noteq> Closed"
    unfolding channel_def g(2)
    using p g that open_before [OF that] by (intro channel_runs [of _ a]) (simp add: write_pipeline_def)
  moreover have "prefix (se_sent ?s') (se_queued ?s')"
    using p(2) by (auto simp: write_pipeline_def pipeline_shape_def dest: append_prefixD)
  ultimately show ?thesis by simp
qed

theorem sending_refines_channel_witness:
  "channel_step\<^sup>*\<^sup>* (channel (snd fresh)) (channel (snd (perform ref_json (External_send ''hi'') fresh)))"
  using sending_refines_channel [OF fresh_reach send_enabled, of "''hi''"] by (simp add: queued_fresh)

text \<open>C23: A session that is neither closed nor asked to close always has exactly one operation
  pending that can bring it data, and exactly one wait for its deadline pending or just ended: it
  never goes deaf, never reads twice at once and is never without a timeout. In every state there
  is at most one of each.\<close>

theorem open_session_is_armed:
  assumes "session_reach J st"
  shows "se_accepting (snd st) + se_reading (snd st) \<le> 1 \<and>
     se_waits (snd st) + length (se_timer_done (snd st)) \<le> 1 \<and>
     (if se_state (snd st) = Closed \<or> se_close_requested (snd st) then True
      else se_accepting (snd st) + se_reading (snd st) = 1 \<and>
        se_waits (snd st) + length (se_timer_done (snd st)) = 1)"
  using reach_armed [OF assms] by (auto simp: armed_def inputs_def deadlines_def is_open_def)

theorem open_session_is_armed_witness:
  "se_accepting (snd writing_one) + se_reading (snd writing_one) = 1"
  using open_session_is_armed [OF writing_one_reach] writing_one_state(3,4) by (simp add: is_open_def)

text \<open>C22: The data of a session stays within its bounds: the stack between 0 and 10^15 cents, the last
  sequence number at least -1; an authenticated session has an id, and one that is not
  authenticated yet has accepted no action and no reload.\<close>

theorem session_data_in_bounds:
  assumes "session_reach J st"
  shows "0 \<le> sint (se_current_stack (snd st)) \<and> sint (se_current_stack (snd st)) \<le> 10 ^ 15 \<and>
     - 1 \<le> sint (se_last_sequence_number (snd st)) \<and>
     (case se_state (snd st) of
        Unauthenticated \<Rightarrow> se_last_sequence_number (snd st) = - 1 \<and> se_current_stack (snd st) = 0
      | Authenticated \<Rightarrow> se_session_id (snd st) \<noteq> []
      | Closed \<Rightarrow> True)"
  using reach_data [OF assms]
  by (auto simp: data_ok_def MAX_AMOUNT_def PLACEHOLDER_STACK_def split: conn_state.split)

theorem session_data_in_bounds_witness:
  "se_last_sequence_number (snd writing_one) = - 1"
  using session_data_in_bounds [OF writing_one_reach] by (simp add: writing_one_state)

text \<open>C24: A session only goes forward: from unauthenticated to authenticated to closed, its last
  sequence number never decreases, and an id once given is kept.\<close>

theorem session_goes_forward:
  assumes "session_reach J st" and "enabled ev st"
  shows "se_state (snd st) \<le> se_state (snd (perform J ev st)) \<and>
     sint (se_last_sequence_number (snd st)) \<le> sint (se_last_sequence_number (snd (perform J ev st))) \<and>
     (se_session_id (snd st) = [] \<or> se_session_id (snd (perform J ev st)) = se_session_id (snd st))"
  using perform_ahead [OF assms] by (auto simp: ahead_def)

theorem session_goes_forward_witness:
  "se_state (snd writing_one) \<le> se_state (snd (perform ref_json External_close writing_one))"
  using session_goes_forward [OF writing_one_reach, of External_close] by (simp add: enabled_def)

subsection \<open>The counters\<close>

definition tallied :: "session \<Rightarrow> bool" where
  "tallied s \<longleftrightarrow> messages_sent (se_metrics s) = of_nat (length (se_sent s))"

lemma do_close_tallied: "tallied (snd (do_close st)) = tallied (snd st)"
  by (simp add: tallied_def do_close_def Let_def timer_cancel_def split: option.split)

lemma close_tallied: "tallied (snd (close st)) = tallied (snd st)"
  by (simp add: close_def close_body_def Let_def do_close_tallied) (simp add: tallied_def)

interpretation tallied_handler: handler_invariant "\<lambda>w. tallied"
  by unfold_locales (simp_all add: close_tallied, simp_all add: tallied_def enqueue_def)

interpretation tallied: session_invariant "\<lambda>w. tallied" "\<lambda>w. tallied" "\<lambda>w. tallied"
proof unfold_locales
  fix w s
  assume s: "tallied s"
  have same: "tallied s'" if "se_metrics s' = se_metrics s" "se_sent s' = se_sent s" for s'
    using s that by (simp add: tallied_def)
  show "tallied (snd (do_write (w, s\<lparr>se_tasks := ts\<rparr>)))" for ts
    by (rule same) (simp_all add: do_write_def Let_def split: list.split)
  show "tallied (snd (close (w, s')))"
    if "s' = s\<lparr>se_tasks := ts, se_write_queue := rest, se_writing := False\<rparr>" for ts rest s'
    using same that by (simp add: close_tallied)
  show "tallied (snd (close_body (w, s\<lparr>se_tasks := ts\<rparr>)))" for ts
    using same by (simp add: close_body_def do_close_tallied)
  show "tallied (snd (on_write ec b (w, s')))"
    if "s' = s\<lparr>se_in_flight := ms, se_sent := se_sent s @ (if ec = No_error then [m] else [])\<rparr>" for m ms ec b s'
    using s that by (cases ec) (simp_all add: on_write_def Let_def do_close_tallied,
        simp_all add: tallied_def increment_messages_sent_def increment_bytes_sent_def)
  show "tallied (snd (close_from_outside (w, s)))"
    by (rule same) (simp_all add: close_from_outside_def Let_def)
qed (simp_all add: tallied_def enqueue_def handler_fields)

lemma reach_tallied: "session_reach J st \<Longrightarrow> tallied (snd st)"
proof (induction rule: session_reach.induct)
  case (start fault ref ht e w)
  show ?case
    by (simp add: tallied_def run_def run_failed_def new_session_def new_session_metrics_def expires_after_def
        check_deadline_def do_accept_def timer_cancel_def start_wait_def say_def Let_def
        split: option.split prod.split run_stage.split)
next
  case (step st ev)
  then show ?case
    using tallied.perform_stable [of st ev J] reach_quiet [of J st] by (simp add: tallied.stable_def)
qed simp

text \<open>C6: The counter of sent messages counts exactly the writes that completed: in every reachable
  state it is their number (modulo 2^64), and while the session is not closed the messages accepted
  for sending are those counted, the one being written and those in the queue.\<close>

theorem sent_messages_are_counted:
  assumes "session_reach J st"
  shows "get_messages_sent (se_metrics (snd st)) = of_nat (length (se_sent (snd st))) \<and>
    (se_state (snd st) = Closed \<or>
     of_nat (length (se_queued (snd st))) = get_messages_sent (se_metrics (snd st)) +
       of_nat (length (se_in_flight (snd st)) + length (se_write_queue (snd st))))"
  using reach_tallied [OF assms] reach_pipeline [OF assms]
  by (auto simp: tallied_def write_pipeline_def get_messages_sent_def)

theorem sent_messages_are_counted_witness:
  "get_messages_sent (se_metrics (snd (perform ref_json (Write_done No_error 2) writing_one))) = 1"
proof -
  have "se_state (snd writing_one) \<noteq> Closed" using writing_one_state(3) by simp
  then have q: "se_queued (snd writing_one) =
      se_sent (snd writing_one) @ se_in_flight (snd writing_one) @ se_write_queue (snd writing_one)"
    using reach_pipeline [OF writing_one_reach] unfolding write_pipeline_def by blast
  have w: "se_in_flight (snd writing_one) \<noteq> []" "se_sent (snd writing_one) = []"
    using arg_cong [OF q, of length] by (simp_all add: writing_one_state writing_one_rest)
  define st where "st = perform ref_json (Write_done No_error 2) writing_one"
  have "session_reach ref_json st"
    unfolding st_def using w(1) by (intro session_reach.step [OF writing_one_reach]) (simp add: enabled_def Let_def)
  moreover have "length (se_sent (snd st)) = 1"
    using w by (simp add: st_def perform_def on_write_def Let_def do_close_def timer_cancel_def)
  ultimately show ?thesis using sent_messages_are_counted [of ref_json st] by (simp add: st_def)
qed

subsection \<open>Closing drains the queue\<close>

text \<open>What is left to do before a session that was asked to close can close, and the session's own
  next step towards it: run the oldest task, or complete the write under way.\<close>

definition drain_measure :: "session \<Rightarrow> nat" where
  "drain_measure s = 3 * length (se_write_queue s) + 2 * length (se_in_flight s) + length (se_tasks s)"

fun drain :: "'j ext \<Rightarrow> nat \<Rightarrow> st \<Rightarrow> st" where
  "drain J 0 st = st"
| "drain J (Suc n) st =
     (if se_state (snd st) = Closed then st
      else if se_tasks (snd st) \<noteq> [] then drain J n (perform J Run_task st)
      else if se_in_flight (snd st) \<noteq> [] then drain J n (perform J (Write_done No_error 0) st)
      else st)"

definition closing_step :: "session \<Rightarrow> session \<Rightarrow> bool" where
  "closing_step s s' \<longleftrightarrow> se_close_requested s' \<and>
     (if se_state s' = Closed then se_sent s' = se_queued s' else drain_measure s' < drain_measure s)"

lemma do_close_fields:
  "se_sent (snd (do_close st)) = se_sent (snd st)" "se_queued (snd (do_close st)) = se_queued (snd st)"
  by (simp_all add: do_close_def Let_def timer_cancel_def split: option.split)

lemma closing_task:
  assumes "write_pipeline (snd st)" "se_close_requested (snd st)" "se_state (snd st) \<noteq> Closed"
    and "se_tasks (snd st) \<noteq> []"
  shows "closing_step (snd st) (snd (perform J Run_task st))"
proof -
  obtain t ts where ts: "se_tasks (snd st) = t # ts" using assms(4) by (cases "se_tasks (snd st)") simp_all
  have idle: "se_in_flight (snd st) = []" "se_write_queue (snd st) = []" if "\<not> se_writing (snd st)"
    using assms(1,3) that by (auto simp: write_pipeline_def pipeline_shape_def)
  show ?thesis
  proof (cases t)
    case Do_write_task
    then obtain m q where "se_write_queue (snd st) = m # q"
      using assms(1,3) ts by (cases "se_write_queue (snd st)") (auto simp: write_pipeline_def)
    then show ?thesis
      using assms(2,3) ts Do_write_task
      by (simp add: perform_def Let_def run_task_def do_write_def closing_step_def drain_measure_def)
  next
    case Close_task
    have q: "se_queued (snd st) = se_sent (snd st) @ se_in_flight (snd st) @ se_write_queue (snd st)"
      "\<not> se_close_initiated (snd st)"
      using assms(1,3) by (auto simp: write_pipeline_def pipeline_shape_def)
    have r: "perform J Run_task st = close_body (fst st, (snd st)\<lparr>se_tasks := ts\<rparr>)"
      using ts Close_task by (simp add: perform_def Let_def run_task_def)
    show ?thesis
    proof (cases "se_writing (snd st)")
      case True
      then show ?thesis using assms(2,3) ts by (simp add: r close_body_def closing_step_def drain_measure_def)
    next
      case False
      then show ?thesis
        using assms(2) idle [OF False] q
        by (simp add: r close_body_def closing_step_def do_close_state do_close_fields do_close_pending)
    qed
  qed
qed

lemma closing_write:
  assumes "write_pipeline (snd st)" "se_close_requested (snd st)" "se_state (snd st) \<noteq> Closed"
    and "se_in_flight (snd st) \<noteq> []"
  shows "closing_step (snd st) (snd (perform J (Write_done No_error b) st))"
proof -
  obtain m where m: "se_in_flight (snd st) = [m]"
    using assms(1,4) by (cases "se_in_flight (snd st)"; cases "se_writing (snd st)")
      (auto simp: write_pipeline_def pipeline_shape_def)
  show ?thesis
    using assms m
    by (auto simp: perform_def Let_def on_write_def on_session_def closing_step_def drain_measure_def
        do_close_state do_close_fields do_close_pending write_pipeline_def pipeline_shape_def neq_Nil_conv)
qed

lemma drain_closes:
  assumes "session_reach J st" "se_close_requested (snd st)" "se_state (snd st) \<noteq> Closed"
    and "drain_measure (snd st) \<le> n"
  shows "se_state (snd (drain J n st)) = Closed \<and> se_sent (snd (drain J n st)) = se_queued (snd (drain J n st))"
  using assms
proof (induction n arbitrary: st)
  case 0
  then have "\<not> se_writing (snd st)" "Close_task \<notin> set (se_tasks (snd st))"
    using reach_pipeline [of J st] by (auto simp: drain_measure_def write_pipeline_def pipeline_shape_def)
  then show ?case using 0 reach_pipeline [of J st] by (simp add: write_pipeline_def)
next
  case (Suc n)
  note p = reach_pipeline [OF Suc.prems(1)]
  have go: ?case if "enabled ev st" "closing_step (snd st) (snd (perform J ev st))"
    and "drain J (Suc n) st = drain J n (perform J ev st)" for ev
  proof (cases "se_state (snd (perform J ev st)) = Closed")
    case True
    then have "drain J n (perform J ev st) = perform J ev st" by (cases n) simp_all
    then show ?thesis using that True by (simp add: closing_step_def)
  next
    case False
    then show ?thesis
      using that Suc.IH [OF session_reach.step [OF Suc.prems(1) that(1)]] Suc.prems(4)
      by (simp add: closing_step_def)
  qed
  show ?case
  proof (cases "se_tasks (snd st) = []")
    case False
    then show ?thesis
      using closing_task [OF p Suc.prems(2,3) False] Suc.prems(3)
      by (intro go [of Run_task]) (simp_all add: enabled_def Let_def)
  next
    case True
    then have w: "se_in_flight (snd st) \<noteq> []"
      using p Suc.prems(2,3) by (cases "se_writing (snd st)") (auto simp: write_pipeline_def pipeline_shape_def)
    then show ?thesis
      using closing_write [OF p Suc.prems(2,3) w] Suc.prems(3) True
      by (intro go [of "Write_done No_error 0"]) (simp_all add: enabled_def Let_def)
  qed
qed

text \<open>C16: A close request is honoured after everything accepted before it has been written: once asked
  to close, the session's posted tasks and successful writes bring it to the closed state within
  three steps per queued message (and a few for what is already under way), and then every message
  that was ever accepted has been written.\<close>

theorem close_drains_queue:
  assumes "session_reach J st" and "se_close_requested (snd st)" and "se_state (snd st) \<noteq> Closed"
    and "3 * length (se_write_queue (snd st)) + 2 + length (se_tasks (snd st)) \<le> n"
  shows "se_state (snd (drain J n st)) = Closed \<and>
     se_sent (snd (drain J n st)) = se_queued (snd (drain J n st))"
proof -
  have "length (se_in_flight (snd st)) \<le> 1"
    using reach_pipeline [OF assms(1)] by (cases "se_writing (snd st)") (auto simp: write_pipeline_def pipeline_shape_def)
  then show ?thesis using assms by (intro drain_closes) (simp_all add: drain_measure_def)
qed

theorem close_drains_queue_witness:
  "se_state (snd (drain ref_json 3 (perform ref_json External_close writing_one))) = Closed \<and>
   se_sent (snd (drain ref_json 3 (perform ref_json External_close writing_one))) =
     se_queued (snd (drain ref_json 3 (perform ref_json External_close writing_one)))"
proof (rule close_drains_queue)
  show "session_reach ref_json (perform ref_json External_close writing_one)"
    by (rule session_reach.step [OF writing_one_reach]) (simp add: enabled_def)
qed (simp_all add: perform_def [of _ External_close] close_from_outside_def Let_def writing_one_state writing_one_rest)

end
