(* ===== verification/Session_Messages.thy ===== *)
theory Session_Messages
  imports Session_Properties
begin

text \<open>
  What the messages of a client do: the handshake, the actions, the reloads, the checks every
  message passes, and the timeouts.
\<close>

subsection \<open>Only a handshake authenticates\<close>

interpretation unauth: refusal_invariant "\<lambda>w s. se_state s \<noteq> Authenticated"
proof unfold_locales
  show "se_state (snd (close (w, s))) \<noteq> Authenticated" if "se_state s \<noteq> Authenticated" for w s
    using close_state [of "(w, s)"] that by auto
qed auto

lemma same_data_unauth: "same_data s s' \<Longrightarrow> se_state s \<noteq> Authenticated \<Longrightarrow> se_state s' \<noteq> Authenticated"
  by (auto simp: same_data_def)

text \<open>What a text must be to authenticate the session it is sent to.\<close>

definition proper_handshake :: "'j ext \<Rightarrow> string \<Rightarrow> bool" where
  "proper_handshake J message \<longleftrightarrow>
     (\<exists>hm. snd (parse_handshake J message) = Some hm \<and> hm_protocol_version hm = PROTOCOL_VERSION)"

lemma improper_handshake:
  assumes "se_state (snd st) = Unauthenticated" "\<not> proper_handshake J message"
  shows "se_state (snd (snd (handle_handshake_message J message st))) \<noteq> Authenticated"
proof -
  obtain reports hs where p: "parse_handshake J message = (reports, hs)" by (cases "parse_handshake J message")
  have u: "unauth.holds (on_world (report reports) st)"
    using assms(1) by (intro unauth.holds_report) (simp add: unauth.holds_def)
  have r: "se_state (snd (refuse J l c m (on_world (report reports) st))) \<noteq> Authenticated" for l c m
    using unauth.holds_refuse [OF u] by (simp add: unauth.holds_def)
  show ?thesis
    using assms(2) r by (auto simp: handle_handshake_message_def p proper_handshake_def Let_def split: option.split)
qed

lemma unauth_read:
  assumes "se_state (snd st) = Unauthenticated" "\<not> (ec = No_error \<and> proper_handshake J message)"
  shows "se_state (snd (on_read J ec b message st)) \<noteq> Authenticated"
proof (cases ec)
  case (Err k msg)
  then show ?thesis
    using assms(1)
    by (cases k) (auto simp: on_read_def connection_lost_def Let_def timer_cancel_def)
next
  case No_error
  define st1 where "st1 = on_session (\<lambda>s. s\<lparr>se_metrics := increment_bytes_received b
      (increment_messages_received 1 (se_metrics s))\<rparr>) st"
  have h1: "unauth.holds st1" "se_state (snd st1) = Unauthenticated"
    using assms(1) by (simp_all add: unauth.holds_def st1_def)
  obtain passed st2 where c: "check_rate_limit_or_close J st1 = (passed, st2)"
    by (cases "check_rate_limit_or_close J st1")
  obtain suspicious st3 where a: "check_suspicious_activity st2 = (suspicious, st3)"
    by (cases "check_suspicious_activity st2")
  have h2: "unauth.holds st2" using unauth.holds_rate_limit [OF h1(1), of J] c by simp
  have h3: "unauth.holds st3" using unauth.holds_suspicious [OF h2] a by simp
  have m: "se_state (snd (handle_message J Unauthenticated message st3)) \<noteq> Authenticated"
    if "passed" "\<not> suspicious"
  proof -
    obtain e st4 where hh: "handle_handshake_message J message st3 = (e, st4)"
      by (cases "handle_handshake_message J message st3")
    have "se_state (snd st3) = Unauthenticated"
      using rate_limit_passed(1) [of J st1 st2] suspicious_passed(1) [of st2 st3] c a that h1(2) by simp
    then have u: "unauth.holds st4"
      using improper_handshake [of st3 J message] assms(2) No_error hh by (simp add: unauth.holds_def)
    show ?thesis
      using u unauth.holds_refuse [OF u]
      by (cases e) (auto simp: handle_message_def hh do_read_def expires_after_def timer_cancel_def unauth.holds_def Let_def)
  qed
  have r: "se_state (snd (refuse J l cd m st3)) \<noteq> Authenticated" for l cd m
    using unauth.holds_refuse [OF h3] by (simp add: unauth.holds_def)
  show ?thesis
    using assms(1) m r h2 c a
    by (cases passed; cases suspicious)
      (auto simp: on_read_def Let_def No_error unauth.holds_def simp flip: st1_def)
qed

lemma unauth_event:
  assumes "se_state (snd st) = Unauthenticated"
    and "\<And>b message. ev = Read_done No_error b message \<Longrightarrow> \<not> proper_handshake J message"
  shows "se_state (snd (perform J ev st)) \<noteq> Authenticated"
proof (cases ev)
  case Run_task
  have "same_data (snd st) (snd (do_write (fst st, (snd st)\<lparr>se_tasks := ts\<rparr>)))"
    "same_data (snd st) (snd (close_body (fst st, (snd st)\<lparr>se_tasks := ts\<rparr>)))" for ts
    using do_write_same_data [of "snd st" "fst st" ts]
      do_close_keeps [of "snd st" "(snd st)\<lparr>se_tasks := ts\<rparr>" "fst st"]
    by (auto simp: close_body_def same_data_def)
  then have "same_data (snd st) (snd (perform J Run_task st))"
    by (cases "hd (se_tasks (snd st))") (simp_all add: perform_def Let_def run_task_def)
  then show ?thesis using same_data_unauth assms(1) by (simp add: Run_task)
next
  case Write_out_of_memory
  then show ?thesis
    using same_data_unauth [OF do_write_lost_same_data] assms(1) by (simp add: perform_def Let_def)
next
  case (Accept_done ec)
  then show ?thesis
    using assms(1) by (cases ec) (auto simp: perform_def Let_def on_accept_def do_read_def timer_cancel_def)
next
  case (Read_done ec b message)
  then show ?thesis
    using assms unauth_read [of "(fst st, (snd st)\<lparr>se_reading := se_reading (snd st) - 1\<rparr>)" ec J message b]
    by (auto simp: perform_def Let_def)
next
  case (Write_done ec b)
  have "same_data (snd st) (snd (perform J ev st))"
    using on_write_same_data [of "snd st" ec b "fst st"] by (simp add: Write_done perform_def Let_def)
  then show ?thesis using same_data_unauth assms(1) by simp
next
  case (Ws_close_done ec)
  then show ?thesis using assms(1) by (cases ec) (simp_all add: perform_def Let_def on_ws_close_def)
next
  case Timer_handler
  define st1 where "st1 = (fst st, (snd st)\<lparr>se_timer_done := tl (se_timer_done (snd st))\<rparr>)"
  have u: "unauth.holds st1" "se_state (snd st1) = Unauthenticated"
    using assms(1) by (simp_all add: st1_def unauth.holds_def)
  have "se_state (snd (on_deadline J ec st1)) \<noteq> Authenticated" for ec
  proof (cases ec)
    case No_error
    then show ?thesis using u unauth.holds_refuse [OF u(1)] by (simp add: on_deadline_def unauth.holds_def)
  next
    case (Err k msg)
    then show ?thesis using u(2)
      by (cases k) (simp_all add: on_deadline_def Let_def check_deadline_def start_wait_def)
  qed
  then show ?thesis by (simp add: Timer_handler perform_def Let_def st1_def)
next
  case (External_send m)
  then show ?thesis
    using assms(1) send_accepted [of m st] send_rejected [of m st] by (cases "fst (send m st)") (simp_all add: perform_def)
next
  case External_close
  then show ?thesis using assms(1) by (simp add: perform_def close_from_outside_def Let_def)
qed (use assms(1) in \<open>simp_all add: perform_def Let_def timer_completes_def\<close>)

subsection \<open>What a handshake does\<close>

text \<open>The handshake response, without its session id.\<close>

definition plain_welcome :: handshake_response where
  "plain_welcome = \<lparr>hr_session_id = [], hr_seat_number = PLACEHOLDER_SEAT, hr_starting_stack = PLACEHOLDER_STACK\<rparr>"

lemma answer_succeeds:
  assumes "serialize_handshake_response J (plain_welcome\<lparr>hr_session_id := sid\<rparr>) = Inr reply"
    and "is_open (snd st)" "length (se_write_queue (snd st)) < MAX_WRITE_QUEUE_SIZE"
  shows "answer_handshake J sid st =
     (None, say (log_message (''[WebSocketSession] Handshake successful for session: '' @ sanitize_session_id sid))
        (fst st, (enqueue reply (snd st))\<lparr>se_state := Authenticated\<rparr>))"
proof -
  have s: "send reply st = (True, fst st, enqueue reply (snd st))"
    using assms(2,3) send_result [of reply st] send_accepted [of reply st] by (simp add: prod_eq_iff)
  show ?thesis
    using assms(1) unfolding answer_handshake_def Let_def plain_welcome_def
    by (simp add: s on_session_def del: append_Cons)
qed

lemma rng_kept [simp]: "w_rng (tick w) = w_rng w" "w_rng (emit l w) = w_rng w" "w_rng (report ms w) = w_rng w"
proof -
  have "w_rng (log_protocol_error m w) = w_rng w" for m w
    by (simp add: log_protocol_error_def tick_def with_metrics_def emit_def split: error_sink.split)
  then show "w_rng (report ms w) = w_rng w"
    by (induction ms arbitrary: w) (simp_all add: report_def)
qed (simp_all add: tick_def emit_def)

lemma handshake_result:
  assumes "parse_handshake J message = (reports, Some hm)" and "hm_protocol_version hm = PROTOCOL_VERSION"
    and "w_manager w = Some m"
    and "register_session (w_rng w) (Some (se_self s)) m = (l, sid, m')"
    and "sid \<noteq> []"
    and "serialize_handshake_response J (plain_welcome\<lparr>hr_session_id := sid\<rparr>) = Inr reply"
    and "se_state s = Unauthenticated" "\<not> se_close_requested s" "length (se_write_queue s) < 100"
  shows "\<exists>w'. handle_handshake_message J message (w, s) =
       (None, w', (enqueue reply (s\<lparr>se_session_id := sid\<rparr>))\<lparr>se_state := Authenticated\<rparr>) \<and>
     w_manager w' = Some m' \<and> w_clock w' = w_clock w \<and> w_config w' = w_config w"
proof -
  have room: "is_open (s\<lparr>se_session_id := sid\<rparr>)" "length (se_write_queue (s\<lparr>se_session_id := sid\<rparr>)) < MAX_WRITE_QUEUE_SIZE"
    using assms(7-9) by (simp_all add: is_open_def MAX_WRITE_QUEUE_SIZE_def)
  have b: "\<exists>w'. begin_session J (w1, s) = (None, w', (enqueue reply (s\<lparr>se_session_id := sid\<rparr>))\<lparr>se_state := Authenticated\<rparr>)
      \<and> w_manager w' = Some m' \<and> w_clock w' = w_clock w \<and> w_config w' = w_config w"
    if "w_manager w1 = Some m" "w_rng w1 = w_rng w" "w_clock w1 = w_clock w" "w_config w1 = w_config w" for w1
    using that assms(4,5) answer_succeeds [OF assms(6), of "(emit l (w1\<lparr>w_manager := Some m'\<rparr>), s\<lparr>se_session_id := sid\<rparr>)"] room
    by (simp add: begin_session_def Let_def on_world_def on_session_def say_def frame_simps)
  show ?thesis
    using b [of "report reports w"] b [of "emit [y] (report reports w)" for y] assms(1,2,3)
    by (cases "hm_client_name hm") (simp_all add: handle_handshake_message_def Let_def on_world_def say_def frame_simps del: append_Cons)
qed

text \<open>A run to test with: a client connects and joins.\<close>

definition sample_hello :: jval where
  "sample_hello =
     JObject [(''message_type'', JString ''HANDSHAKE''),
       (''payload'', JObject [(''protocol_version'', JString ''v1.0'')]),
       (''protocol_version'', JString ''v1.0'')]"

definition hello :: handshake_message where
  "hello = \<lparr>hm_protocol_version = ''v1.0'', hm_client_name = None\<rparr>"

definition accepted :: st where
  "accepted = perform ref_json (Accept_done No_error) fresh"

definition joined :: st where
  "joined = perform ref_json (Read_done No_error 154 (enc sample_hello)) accepted"

lemma hello_parses: "parse_handshake ref_json (enc sample_hello) = ([], Some hello)"
  by code_simp

lemma accepted_reach: "session_reach ref_json accepted"
  unfolding accepted_def by (rule session_reach.step [OF fresh_reach]) (simp add: enabled_def Let_def)

lemma accepted_state: "snd accepted = (snd fresh)\<lparr>se_accepting := 0, se_reading := 1\<rparr>"
  by (simp add: accepted_def perform_def on_accept_def do_read_def Let_def)

lemma read_passes:
  assumes "se_state (snd st) = Unauthenticated"
    and "check_rate_limit_or_close J (on_session (\<lambda>s. s\<lparr>se_metrics := increment_bytes_received b
          (increment_messages_received 1 (se_metrics s))\<rparr>) st) = (True, st2)"
    and "check_suspicious_activity st2 = (False, st3)"
    and "handle_handshake_message J message st3 = (None, st4)" "is_open (snd st4)"
  shows "on_read J No_error b message st =
     (tick (fst st4), (timer_cancel (snd st4))\<lparr>
        se_expiry := steady_now (fst st4) + get_ws_idle_timeout (w_config (fst st4)),
        se_reading := se_reading (snd st4) + 1\<rparr>)"
  using assms by (simp add: on_read_def Let_def handle_message_def is_open_def do_read_def expires_after_def
      timer_cancel_def)

lemma quiet_world_kept:
  "w_config (fst accepted) = initial_config" "w_manager (fst accepted) = Some new_connection_manager"
  "w_rng (fst accepted) = (\<lambda>_. Some 7)"
  by (simp_all add: accepted_def perform_def on_accept_def do_read_def Let_def fresh_def run_def new_session_def
      expires_after_def check_deadline_def do_accept_def on_session_def say_def quiet_world_def)

text \<open>The first message of a session always passes the two checks, if the limit is not zero.\<close>

lemma first_message_within_limit:
  assumes "se_message_timestamps (snd st) = []" "0 < get_max_messages_per_window (w_config (fst st))"
  shows "check_rate_limit_or_close J st =
     (True, tick (fst st), (snd st)\<lparr>se_message_timestamps := [steady_now (fst st)]\<rparr>)"
  using assms by (simp add: check_rate_limit_or_close_def Let_def)

lemma early_message_unsuspicious:
  assumes "0 \<le> sint (se_message_count (snd st))" "sint (se_message_count (snd st)) < 100"
  shows "check_suspicious_activity st =
     (False, tick (fst st), (snd st)\<lparr>se_message_count := se_message_count (snd st) + 1,
        se_last_activity := steady_now (fst st)\<rparr>)"
proof -
  have "sint (se_message_count (snd st) + 1) = sint (se_message_count (snd st)) + 1"
    using assms by (subst sint_add_small) simp_all
  then show ?thesis using assms by (simp add: check_suspicious_activity_def Let_def)
qed

definition joined_sid :: string where
  "joined_sid = ''sess_0000000000000007''"

lemma joined_registers:
  "\<exists>l m'. register_session (\<lambda>_. Some 7) (Some 0) new_connection_manager = (l, joined_sid, m') \<and>
     get_session joined_sid m' = Some 0"
proof -
  have "fst (snd (register_session (\<lambda>_. Some 7) (Some 0) new_connection_manager)) = joined_sid"
    "get_session joined_sid (snd (snd (register_session (\<lambda>_. Some 7) (Some 0) new_connection_manager))) = Some 0"
    by code_simp+
  then show ?thesis
    by (cases "register_session (\<lambda>_. Some 7) (Some 0) new_connection_manager") auto
qed

lemma welcome_serialises:
  "\<exists>reply. serialize_handshake_response ref_json (plain_welcome\<lparr>hr_session_id := joined_sid\<rparr>) = Inr reply"
  by (simp add: serialize_handshake_response_def serialize_message_def ref_dump_def message_envelope_to_json_def
      handshake_response_to_json_def plain_welcome_def joined_sid_def message_type_defs PROTOCOL_VERSION_def)

definition joinable :: "st \<Rightarrow> bool" where
  "joinable st \<longleftrightarrow> se_state (snd st) = Unauthenticated \<and> \<not> se_close_requested (snd st) \<and>
     se_self (snd st) = 0 \<and> se_write_queue (snd st) = [] \<and> se_message_timestamps (snd st) = [] \<and>
     se_message_count (snd st) = 0 \<and> se_last_sequence_number (snd st) = - 1 \<and>
     se_current_stack (snd st) = 0 \<and> w_manager (fst st) = Some new_connection_manager \<and>
     w_rng (fst st) = (\<lambda>_. Some 7) \<and> w_config (fst st) = initial_config"

lemma joins:
  fixes st
  defines "st' \<equiv> perform ref_json (Read_done No_error 154 (enc sample_hello)) st"
  assumes "joinable st"
  shows "se_state (snd st') = Authenticated" "is_open (snd st')" "se_session_id (snd st') = joined_sid"
    "length (se_write_queue (snd st')) = 1" "se_last_sequence_number (snd st') = - 1"
    "se_current_stack (snd st') = 0"
    "se_timer_done (snd st') = se_timer_done (snd st) @
       replicate (se_waits (snd st)) (Err Operation_aborted ''Operation canceled'')"
    "w_clock (fst st) = (\<lambda>_. T) \<Longrightarrow> steady_now (fst st') < se_expiry (snd st')"
    "length (se_message_timestamps (snd st')) = 1" "se_message_count (snd st') = 1"
proof -
  define st0 where "st0 = (fst st, (snd st)\<lparr>se_reading := se_reading (snd st) - 1\<rparr>)"
  define st1 where "st1 = on_session (\<lambda>s. s\<lparr>se_metrics := increment_bytes_received 154
      (increment_messages_received 1 (se_metrics s))\<rparr>) st0"
  note j = assms(2) [unfolded joinable_def]
  have f: "se_message_timestamps (snd st1) = []" "se_message_count (snd st1) = 0"
    "0 < get_max_messages_per_window (w_config (fst st1))"
    using j by (simp_all add: st1_def st0_def initial_config_def config_defs get_max_messages_per_window_def)
  define t1 t2 where "t1 = steady_now (fst st1)" and "t2 = steady_now (tick (fst st1))"
  have c: "check_rate_limit_or_close ref_json st1 = (True, tick (fst st1), (snd st1)\<lparr>se_message_timestamps := [t1]\<rparr>)"
     "check_suspicious_activity (tick (fst st1), (snd st1)\<lparr>se_message_timestamps := [t1]\<rparr>) =
       (False, tick (tick (fst st1)), (snd st1)\<lparr>se_message_timestamps := [t1], se_message_count := 1,
          se_last_activity := t2\<rparr>)"
    using f first_message_within_limit [of st1 ref_json]
      early_message_unsuspicious [of "(tick (fst st1), (snd st1)\<lparr>se_message_timestamps := [t1]\<rparr>)"]
    by (simp_all add: t1_def t2_def)
  define w3 s3 where "w3 = tick (tick (fst st1))"
    and "s3 = (snd st1)\<lparr>se_message_timestamps := [t1], se_message_count := 1, se_last_activity := t2\<rparr>"
  obtain l m' where r: "register_session (\<lambda>_. Some 7) (Some 0) new_connection_manager = (l, joined_sid, m')"
    using joined_registers by blast
  obtain reply where y: "serialize_handshake_response ref_json (plain_welcome\<lparr>hr_session_id := joined_sid\<rparr>) = Inr reply"
    using welcome_serialises by blast
  have s3: "se_self s3 = 0" "se_state s3 = Unauthenticated" "\<not> se_close_requested s3" "se_write_queue s3 = []"
    "se_last_sequence_number s3 = - 1" "se_current_stack s3 = 0" "se_timer_done s3 = se_timer_done (snd st)"
    "se_waits s3 = se_waits (snd st)" "se_message_timestamps s3 = [t1]" "se_message_count s3 = 1"
    using j by (simp_all add: s3_def st1_def st0_def)
  have w3: "w_manager w3 = Some new_connection_manager" "w_rng w3 = (\<lambda>_. Some 7)"
    "w_config w3 = initial_config" "w_clock w3 = w_clock (fst st)"
    using j by (simp_all add: w3_def st1_def st0_def frame_simps)
  let ?s4 = "(enqueue reply (s3\<lparr>se_session_id := joined_sid\<rparr>))\<lparr>se_state := Authenticated\<rparr>"
  obtain w4 where h: "handle_handshake_message ref_json (enc sample_hello) (w3, s3) = (None, w4, ?s4)"
    "w_clock w4 = w_clock w3" "w_config w4 = w_config w3"
    using handshake_result [OF hello_parses _ w3(1) _ _ y, of s3 l m'] r s3 w3(2)
    by (auto simp: hello_def PROTOCOL_VERSION_def report_def joined_sid_def)
  have st': "st' = (tick w4, (timer_cancel ?s4)\<lparr>
        se_expiry := steady_now w4 + get_ws_idle_timeout (w_config w4), se_reading := se_reading s3 + 1\<rparr>)"
    using read_passes [of st0 ref_json 154 _ _ "enc sample_hello" "(w4, ?s4)",
        OF _ c(1)[unfolded st1_def] c(2)[unfolded st1_def]] h(1) s3 j
    by (simp add: st'_def perform_def Let_def st0_def w3_def s3_def st1_def is_open_def enqueue_def)
  show "se_state (snd st') = Authenticated" "is_open (snd st')" "se_session_id (snd st') = joined_sid"
    "length (se_write_queue (snd st')) = 1" "se_last_sequence_number (snd st') = - 1"
    "se_current_stack (snd st') = 0"
    "se_timer_done (snd st') = se_timer_done (snd st) @
       replicate (se_waits (snd st)) (Err Operation_aborted ''Operation canceled'')"
    "length (se_message_timestamps (snd st')) = 1" "se_message_count (snd st') = 1"
    using s3 by (simp_all add: st' timer_cancel_def is_open_def enqueue_def)
  show "steady_now (fst st') < se_expiry (snd st')" if "w_clock (fst st) = (\<lambda>_. T)"
    using that w3(3,4) h(2,3)
    by (simp add: st' steady_now_def frame_simps get_ws_idle_timeout_def initial_config_def config_defs seconds_def)
qed

lemma accepted_joinable: "joinable accepted"
  by (simp add: joinable_def accepted_state quiet_world_kept PLACEHOLDER_STACK_def)

lemmas joined_state = joins [OF accepted_joinable, folded joined_def]

lemma joined_reach: "session_reach ref_json joined" "enabled (Read_done No_error 154 (enc sample_hello)) accepted"
proof -
  have "length (enc sample_hello) = 154" by code_simp
  moreover have "se_read_message_max (snd accepted) = 65536"
    unfolding accepted_state fresh_def by (subst started)
      (simp add: quiet_world_def initial_config_def config_defs get_max_message_size_def new_session_def)
  moreover have "se_reading (snd accepted) = 1" by (simp add: accepted_state)
  ultimately show "enabled (Read_done No_error 154 (enc sample_hello)) accepted" by (simp add: enabled_def Let_def)
  then show "session_reach ref_json joined"
    unfolding joined_def by (rule session_reach.step [OF accepted_reach])
qed

subsection \<open>Properties of joining\<close>

text \<open>C7: The only event that authenticates a session is the arrival of a text that parses as a
  HANDSHAKE and asks for the server's protocol version; the session then has an id. No other
  message, timer, write or call from outside can do it.\<close>

theorem only_handshake_authenticates:
  assumes "session_reach J st" and "enabled ev st"
    and "se_state (snd st) = Unauthenticated" and "se_state (snd (perform J ev st)) = Authenticated"
  shows "\<exists>bytes message hm. ev = Read_done No_error bytes message \<and>
     snd (parse_handshake J message) = Some hm \<and> hm_protocol_version hm = PROTOCOL_VERSION \<and>
     se_session_id (snd (perform J ev st)) \<noteq> []"
proof -
  have "se_session_id (snd (perform J ev st)) \<noteq> []"
    using reach_data [OF session_reach.step [OF assms(1,2)]] assms(4) by (simp add: data_ok_def)
  then show ?thesis
    using unauth_event [OF assms(3), of ev J] assms(4) by (auto simp: proper_handshake_def)
qed

theorem only_handshake_authenticates_witness:
  "\<exists>hm. snd (parse_handshake ref_json (enc sample_hello)) = Some hm \<and> se_session_id (snd joined) \<noteq> []"
proof -
  have "se_state (snd accepted) = Unauthenticated" by (simp add: accepted_state)
  then show ?thesis
    using only_handshake_authenticates [OF accepted_reach joined_reach(2)] joined_state(1)
    by (auto simp flip: joined_def)
qed

text \<open>A client that sends an accepted HANDSHAKE of the right version to an open session, while the
  session table has room, is registered under a new id, its session becomes authenticated, and the
  handshake response that carries exactly that id is queued; nothing else of the session changes.\<close>

theorem handshake_registers:
  assumes "parse_handshake J message = (reports, Some hm)" and "hm_protocol_version hm = PROTOCOL_VERSION"
    and "w_manager w = Some m"
    and "register_session (w_rng w) (Some (se_self s)) m = (l, sid, m')"
    and "sid \<noteq> []"
    and "serialize_handshake_response J (plain_welcome\<lparr>hr_session_id := sid\<rparr>) = Inr reply"
    and "se_state s = Unauthenticated" "\<not> se_close_requested s" "length (se_write_queue s) < 100"
  shows "\<exists>w'. handle_handshake_message J message (w, s) =
       (None, w', (enqueue reply (s\<lparr>se_session_id := sid\<rparr>))\<lparr>se_state := Authenticated\<rparr>) \<and>
     w_manager w' = Some m'"
  using handshake_result [OF assms] by blast

theorem handshake_registers_witness:
  "\<exists>reply w'. handle_handshake_message ref_json (enc sample_hello) fresh =
     (None, w', (enqueue reply ((snd fresh)\<lparr>se_session_id := joined_sid\<rparr>))\<lparr>se_state := Authenticated\<rparr>)"
proof -
  have w: "w_manager (fst fresh) = Some new_connection_manager" "w_rng (fst fresh) = (\<lambda>_. Some 7)"
    by (simp_all add: fresh_def run_def new_session_def expires_after_def check_deadline_def do_accept_def
        on_session_def quiet_world_def)
  obtain l m' where r: "register_session (\<lambda>_. Some 7) (Some 0) new_connection_manager = (l, joined_sid, m')"
    using joined_registers by blast
  obtain reply where y: "serialize_handshake_response ref_json (plain_welcome\<lparr>hr_session_id := joined_sid\<rparr>) = Inr reply"
    using welcome_serialises by blast
  show ?thesis
    using handshake_registers [OF hello_parses _ w(1) _ _ y, of "snd fresh" l m'] r w(2)
    by (auto simp: hello_def PROTOCOL_VERSION_def report_def joined_sid_def)
qed

end
