(* ===== verification/Session_Commands.thy ===== *)
theory Session_Commands
  imports Session_Messages
begin

text \<open>
  The commands of an authenticated client, the checks every message passes, and the timeouts.
\<close>

subsection \<open>Sample commands\<close>

definition sample_envelope :: "string \<Rightarrow> (string \<times> jval) list \<Rightarrow> jval" where
  "sample_envelope ty payload =
     JObject [(''message_type'', JString ty), (''payload'', JObject payload),
       (''protocol_version'', JString ''v1.0'')]"

definition fold_5 :: jval where
  "fold_5 = sample_envelope ''ACTION'' [(''action_type'', JString ''FOLD''),
     (''sequence_number'', JInt 5), (''session_id'', JString ''sess_0000000000000007'')]"

definition reload_900 :: jval where
  "reload_900 = sample_envelope ''RELOAD_REQUEST'' [(''requested_amount'', JInt 900),
     (''session_id'', JString ''sess_0000000000000007'')]"

definition goodbye :: jval where
  "goodbye = sample_envelope ''DISCONNECT'' [(''session_id'', JString ''sess_0000000000000007'')]"

definition header_of :: "jval \<Rightarrow> jval parsed_message_header" where
  "header_of j = \<lparr>ph_message_type = [], ph_envelope_json = j\<rparr>"

lemma samples_parse:
  "parse_action_from_envelope ref_json (ph_envelope_json (header_of fold_5)) =
     ([], Some \<lparr>am_session_id = joined_sid, am_action_type = FOLD, am_amount = None, am_sequence_number = 5\<rparr>)"
  "parse_reload_from_envelope ref_json (ph_envelope_json (header_of reload_900)) =
     ([], Some \<lparr>rq_session_id = joined_sid, rq_requested_amount = 900\<rparr>)"
  "parse_disconnect_from_envelope ref_json (ph_envelope_json (header_of goodbye)) =
     ([], Some \<lparr>dm_session_id = joined_sid, dm_reason = None\<rparr>)"
  by code_simp+

subsection \<open>Commands and session ids\<close>

lemma validate_own_id:
  assumes "well_formed_session_id sid" "se_session_id (snd st) = sid"
  shows "validate_session_id J sid st = (True, st)"
  using assms well_formed_session_id_nonempty [OF assms(1)] well_formed_length [OF assms(1)]
  by (simp add: validate_session_id_def MAX_SESSION_ID_LENGTH_def)

lemma validate_other_id:
  "sid \<noteq> se_session_id (snd st) \<Longrightarrow> \<exists>l c m. validate_session_id J sid st = (False, refuse J l c m st)"
  unfolding validate_session_id_def Let_def
  by (cases "sid = []"; cases "length sid > MAX_SESSION_ID_LENGTH"; simp only: if_True if_False not_True_eq_False
      not_False_eq_True prod.inject simp_thms) blast+

text \<open>What a refusal leaves of the session: it is no longer open, its data are as before.\<close>

definition turned_away :: "session \<Rightarrow> session \<Rightarrow> bool" where
  "turned_away s s' \<longleftrightarrow> same_data s s' \<and> se_close_requested s'"

interpretation same_data: refusal_invariant "\<lambda>w. same_data s0" for s0
proof unfold_locales
  show "same_data s0 (snd (close (w, s)))" if "same_data s0 s" for w s
    by (rule same_data_trans [OF that close_same_data])
qed (auto simp: same_data_def)

lemma close_requests: "se_close_requested (snd (close st))"
  by (simp add: close_def close_body_def Let_def do_close_pending)

lemma refuse_turns_away: "same_data s (snd st) \<Longrightarrow> turned_away s (snd (refuse J l c m st))"
  using same_data.holds_refuse [of s st J l c m]
  by (simp add: same_data.holds_def turned_away_def refuse_def close_requests)

text \<open>A command is carried out only under the session's own id. An ACTION, RELOAD_REQUEST or
  DISCONNECT that parses but names another session changes neither the stack nor the sequence
  number nor the id, and the session is asked to close.\<close>

theorem foreign_command_refused:
  assumes "parse_action_from_envelope J (ph_envelope_json h) = (ra, Some a)"
    and "parse_reload_from_envelope J (ph_envelope_json h') = (rr, Some r)"
    and "parse_disconnect_from_envelope J (ph_envelope_json h'') = (rd, Some d)"
    and "am_session_id a \<noteq> se_session_id s" "rq_session_id r \<noteq> se_session_id s"
    and "dm_session_id d \<noteq> se_session_id s"
  shows "turned_away s (snd (snd (handle_action J h sid (w, s)))) \<and>
     turned_away s (snd (snd (handle_reload_msg J h' sid (w, s)))) \<and>
     turned_away s (snd (snd (handle_disconnect_msg J h'' sid (w, s))))"
proof -
  have v: "\<exists>st. validate_session_id J x (on_world f (w, s)) = (False, st) \<and> turned_away s (snd st)"
    if "x \<noteq> se_session_id s" for x f
  proof -
    have "same_data s (snd (on_world f (w, s)))" by auto
    then show ?thesis
      using validate_other_id [of x "on_world f (w, s)" J] that refuse_turns_away [of s "on_world f (w, s)"]
      by fastforce
  qed
  show ?thesis
    using v [OF assms(4), of "report ra"] v [OF assms(5), of "report rr"] v [OF assms(6), of "report rd"] assms(1-3)
    by (auto simp: handle_action_def handle_reload_msg_def handle_disconnect_msg_def Let_def)
qed

theorem foreign_command_refused_witness:
  "se_close_requested (snd (snd (handle_action ref_json (header_of fold_5) [] fresh)))"
proof -
  have "se_session_id (snd fresh) = []" by simp
  then show ?thesis
    using foreign_command_refused [OF samples_parse, of "snd fresh" "[]" "fst fresh"]
    by (simp add: joined_sid_def turned_away_def)
qed

subsection \<open>Actions\<close>

lemma uint_of_sint: "0 \<le> sint (x :: i64) \<Longrightarrow> uint x = sint x"
  using sint_lt [of x] by (simp add: uint_sint take_bit_int_eq_self)

lemma sequence_gap:
  fixes seq prev max_gap :: i64
  assumes "- 1 \<le> sint prev" "sint prev < sint seq" "0 \<le> sint max_gap"
  shows "seq - prev > max_gap \<longleftrightarrow> sint seq - sint prev > sint max_gap"
  using uint_difference [OF assms(1,2)] uint_of_sint [OF assms(3)] by (simp add: word_less_def)

text \<open>C9: An ACTION under the session's own id is accepted exactly when its sequence number is larger than
  the last accepted one and at most the configured gap ahead of it, as integers: the unsigned
  64-bit subtraction of the code never wraps here. Accepting it changes the last sequence number and
  nothing else; any other number has the session closed with its data as before.\<close>

theorem action_window:
  assumes "parse_action_from_envelope J (ph_envelope_json h) = (reports, Some a)"
    and "am_session_id a = se_session_id s" and "data_ok s" and "config_valid (w_config w)"
  shows "(let s' = snd (snd (handle_action J h sid (w, s)));
             seq = sint (am_sequence_number a); prev = sint (se_last_sequence_number s)
          in if prev < seq \<and> seq \<le> prev + sint (get_max_sequence_gap (w_config w))
             then s' = s\<lparr>se_last_sequence_number := am_sequence_number a\<rparr>
             else turned_away s s')"
proof -
  define st where "st = on_world (report reports) (w, s)"
  have wf: "well_formed_session_id (se_session_id s)"
    using parse_action_from_envelope_Some [of J "ph_envelope_json h" a] assms(1,2) by (simp add: action_acceptable_def)
  have v: "validate_session_id J (am_session_id a) st = (True, st)"
    using validate_own_id [OF wf, of st J] assms(2) by (simp add: st_def)
  have st: "snd st = s" "w_config (fst st) = w_config w" by (simp_all add: st_def)
  have g: "0 \<le> sint (get_max_sequence_gap (w_config w))"
    using assms(4) by (simp add: config_valid_def settings_in_range_def in_srange_def get_max_sequence_gap_def)
  have h: "snd (handle_action J h sid (w, s)) = apply_action J sid a st"
    by (simp add: handle_action_def assms(1) Let_def v flip: st_def)
  have r: "turned_away s (snd (refuse J l c m st))" for l c m
    by (rule refuse_turns_away) (auto simp: st)
  have w: "am_sequence_number a - se_last_sequence_number s > get_max_sequence_gap (w_config w) \<longleftrightarrow>
      sint (am_sequence_number a) - sint (se_last_sequence_number s) > sint (get_max_sequence_gap (w_config w))"
    if "sint (se_last_sequence_number s) < sint (am_sequence_number a)"
    using sequence_gap [OF _ that g] assms(3) by (simp add: data_ok_def)
  show ?thesis
    using r w by (simp add: h Let_def) (auto simp: apply_action_def Let_def st)
qed

theorem action_window_witness:
  "se_last_sequence_number (snd (snd (handle_action ref_json (header_of fold_5) joined_sid
     (quiet_world, snd joined)))) = 5"
proof -
  have "config_valid (w_config quiet_world)" by (simp add: quiet_world_def initial_config_valid)
  moreover have "get_max_sequence_gap (w_config quiet_world) = 10000"
    by (simp add: quiet_world_def initial_config_def config_defs get_max_sequence_gap_def)
  ultimately show ?thesis
    using action_window [OF samples_parse(1), of "snd joined" quiet_world joined_sid] joined_state(3,5)
      reach_data [OF joined_reach(1)]
    by (simp add: Let_def)
qed

subsection \<open>Reloads\<close>

text \<open>A request that passed its checks, when the response can be queued and when it cannot.\<close>

lemma reload_granted:
  assumes "is_open (snd st)" "length (se_write_queue (snd st)) < 100"
    and "smin (se_current_stack (snd st) + rq_requested_amount r) (word_of_int MAX_AMOUNT) = k"
    and "serialize_reload_response J \<lparr>rr_granted = True, rr_new_stack = k\<rparr> = Inr reply"
  shows "snd (snd (apply_reload J sid r st)) = (enqueue reply (snd st))\<lparr>se_current_stack := k\<rparr>"
proof -
  define st1 where "st1 = say (log_message (''[WebSocketSession] Validated RELOAD_REQUEST from '' @
      sanitize_session_id sid)) st"
  have "snd st1 = snd st" by (simp add: st1_def)
  moreover have "send reply st1 = (True, fst st1, enqueue reply (snd st))"
    using send_result [of reply st1] send_accepted [of reply st1] assms(1,2) calculation
    by (simp add: prod_eq_iff MAX_WRITE_QUEUE_SIZE_def)
  ultimately show ?thesis
    using assms(3,4) unfolding apply_reload_def Let_def st1_def [symmetric] by simp
qed

lemma reload_unanswered:
  assumes "\<not> (is_open (snd st) \<and> length (se_write_queue (snd st)) < 100)"
    and "smin (se_current_stack (snd st) + rq_requested_amount r) (word_of_int MAX_AMOUNT) = k"
    and "serialize_reload_response J \<lparr>rr_granted = True, rr_new_stack = k\<rparr> = Inr reply"
  shows "turned_away (snd st) (snd (snd (apply_reload J sid r st)))"
proof -
  define st1 where "st1 = say (log_message (''[WebSocketSession] Validated RELOAD_REQUEST from '' @
      sanitize_session_id sid)) st"
  define line where "line = log_error (''[WebSocketSession] Failed to send RELOAD_RESPONSE to '' @
      sanitize_session_id sid)"
  have st1: "snd st1 = snd st" by (simp add: st1_def)
  have f: "\<not> fst (send reply st1)"
    using send_result [of reply st1] assms(1) st1 by (simp add: MAX_WRITE_QUEUE_SIZE_def)
  obtain st2 where s2: "send reply st1 = (False, st2)" "snd st2 = snd st"
    using f send_rejected [OF f] st1 by (cases "send reply st1") auto
  have "snd (snd (apply_reload J sid r st)) = snd (close (say line st2))"
    using assms(2,3) st1 s2 unfolding apply_reload_def Let_def st1_def [symmetric] line_def [symmetric] by simp
  moreover have "same_data (snd st) (snd (close (say line st2)))"
    using close_same_data [of "snd st" "fst (say line st2)"] s2(2) by (simp add: say_def)
  ultimately show ?thesis by (simp add: turned_away_def close_requests)
qed

text \<open>A granted RELOAD_REQUEST adds the requested amount to the stack, capped at 10^15 cents and
  without overflow, and queues the response that carries the new stack; if the response cannot be
  queued the stack stays as it was and the session is asked to close.\<close>

theorem reload_effect:
  assumes "parse_reload_from_envelope J (ph_envelope_json h) = (reports, Some r)"
    and "rq_session_id r = se_session_id s" and "data_ok s"
    and "new_stack = min (sint (se_current_stack s) + sint (rq_requested_amount r)) (10 ^ 15)"
    and "serialize_reload_response J \<lparr>rr_granted = True, rr_new_stack = word_of_int new_stack\<rparr> = Inr reply"
  shows "(let s' = snd (snd (handle_reload_msg J h sid (w, s)))
          in if se_state s \<noteq> Closed \<and> \<not> se_close_requested s \<and> length (se_write_queue s) < 100
             then s' = (enqueue reply s)\<lparr>se_current_stack := word_of_int new_stack\<rparr> \<and>
               sint (se_current_stack s') = new_stack
             else turned_away s s')"
proof -
  define st where "st = on_world (report reports) (w, s)"
  have ok: "well_formed_session_id (se_session_id s)" "amount_in_bounds (rq_requested_amount r)"
    using parse_reload_from_envelope_Some [of J "ph_envelope_json h" r] assms(1,2) by (simp_all add: reload_acceptable_def)
  have st: "snd st = s" by (simp add: st_def)
  have v: "validate_session_id J (rq_session_id r) st = (True, st)"
    using validate_own_id [OF ok(1), of st J] assms(2) st by simp
  have n: "sint (smin (se_current_stack s + rq_requested_amount r) (word_of_int MAX_AMOUNT)) = new_stack"
    using reloaded_stack [OF _ _ ok(2), of "se_current_stack s"] assms(3,4) by (simp add: data_ok_def MAX_AMOUNT_def)
  then have k: "smin (se_current_stack (snd st) + rq_requested_amount r) (word_of_int MAX_AMOUNT) = word_of_int new_stack"
    by (simp add: st flip: n)
  have h: "snd (handle_reload_msg J h sid (w, s)) = snd (apply_reload J sid r st)"
    by (simp add: handle_reload_msg_def assms(1) Let_def v flip: st_def)
  show ?thesis
    using reload_granted [OF _ _ k assms(5), of sid] reload_unanswered [OF _ k assms(5), of sid] n k st
    by (auto simp: h is_open_def Let_def)
qed

theorem reload_effect_witness:
  "sint (se_current_stack (snd (snd (handle_reload_msg ref_json (header_of reload_900) joined_sid
     (quiet_world, snd joined))))) = 900"
proof -
  have "\<exists>reply. serialize_reload_response ref_json \<lparr>rr_granted = True, rr_new_stack = word_of_int 900\<rparr> = Inr reply"
    by (simp add: serialize_reload_response_def serialize_message_def ref_dump_def message_envelope_to_json_def
        reload_response_message_to_json_def message_type_defs PROTOCOL_VERSION_def)
  then show ?thesis
    using reload_effect [OF samples_parse(2), of "snd joined" 900 _ joined_sid quiet_world] joined_state(2-4,6)
      reach_data [OF joined_reach(1)]
    by (auto simp: Let_def is_open_def)
qed

subsection \<open>The rate limit\<close>

text \<open>The times of the messages that pass when messages are checked one after the other in the
  worlds \<open>ws\<close>; the first that does not pass closes the session.\<close>

fun admitted :: "'j ext \<Rightarrow> world list \<Rightarrow> session \<Rightarrow> time_point list" where
  "admitted J [] s = []"
| "admitted J (w # ws) s =
     (case check_rate_limit_or_close J (w, s) of
        (True, st) \<Rightarrow> steady_now w # admitted J ws (snd st)
      | (False, st) \<Rightarrow> [])"

definition in_window :: "time_point \<Rightarrow> time_point \<Rightarrow> time_point list \<Rightarrow> nat" where
  "in_window t d xs = length (filter (\<lambda>x. t \<le> x \<and> x \<le> t + d) xs)"

lemma in_window_append [simp]: "in_window t d (xs @ ys) = in_window t d xs + in_window t d ys"
  by (simp add: in_window_def)

lemma in_window_recent:
  assumes "now \<le> t + d"
  shows "in_window t d xs \<le> length (filter (\<lambda>x. \<not> x < now - d) xs)"
  unfolding in_window_def using assms by (induction xs) auto

text \<open>\<open>A\<close> are the times admitted so far, of which the session still holds those from \<open>b\<close> on.\<close>

lemma admitted_bound:
  assumes "\<forall>w \<in> set ws. get_max_messages_per_window (w_config w) = n \<and> get_rate_limit_window (w_config w) = d"
    and "sorted (A @ map steady_now ws)" "0 \<le> d"
    and "se_message_timestamps s = filter (\<lambda>x. \<not> x < b) A" "\<forall>w \<in> set ws. b \<le> steady_now w - d"
    and "\<And>t. in_window t d A \<le> n"
  shows "in_window t d (A @ admitted J ws s) \<le> n"
  using assms
proof (induction ws arbitrary: A b s)
  case (Cons w ws)
  define now where "now = steady_now w"
  define kept where "kept = filter (\<lambda>x. \<not> x < now - d) (se_message_timestamps s)"
  have k: "kept = filter (\<lambda>x. \<not> x < now - d) A"
    using Cons.prems(5) unfolding kept_def Cons.prems(4) filter_filter
    by (intro filter_cong) (auto simp: now_def)
  have c: "check_rate_limit_or_close J (w, s) =
      (if n \<le> length kept then (False, snd (check_rate_limit_or_close J (w, s)))
       else (True, tick w, s\<lparr>se_message_timestamps := kept @ [now]\<rparr>))"
    using Cons.prems(1) by (simp add: check_rate_limit_or_close_def Let_def now_def kept_def)
  show ?case
  proof (cases "n \<le> length kept")
    case True
    then obtain st where "check_rate_limit_or_close J (w, s) = (False, st)" using c by metis
    then have "admitted J (w # ws) s = []" by simp
    then show ?thesis using Cons.prems(6) by simp
  next
    case False
    have one: "in_window t' d (A @ [now]) \<le> n" for t'
      using in_window_recent [of now t' d A] Cons.prems(6) [of t'] False k
      by (cases "t' \<le> now \<and> now \<le> t' + d") (auto simp: in_window_def)
    have "in_window t d ((A @ [now]) @ admitted J ws (s\<lparr>se_message_timestamps := kept @ [now]\<rparr>)) \<le> n"
    proof (rule Cons.IH [of "A @ [now]" _ "now - d"])
      show "se_message_timestamps (s\<lparr>se_message_timestamps := kept @ [now]\<rparr>) = filter (\<lambda>x. \<not> x < now - d) (A @ [now])"
        using k Cons.prems(3) by simp
      show "\<forall>w \<in> set ws. now - d \<le> steady_now w - d"
        using Cons.prems(2) by (auto simp: now_def sorted_append)
    qed (use Cons.prems one in \<open>auto simp: now_def sorted_append\<close>)
    then show ?thesis using c False by (simp add: now_def)
  qed
qed simp

text \<open>C12: The rate limit holds for every window, not only for the windows the code looks at: of the
  messages a session lets pass, at most the configured number arrive in any interval of the
  configured length, wherever it begins.\<close>

theorem rate_limit_holds_everywhere:
  assumes "config_valid c" and "list_all (\<lambda>w. w_config w = c) ws" and "sorted (map steady_now ws)"
    and "se_message_timestamps s = []"
  shows "in_window t (get_rate_limit_window c) (admitted J ws s) \<le> get_max_messages_per_window c"
proof -
  have "0 \<le> get_rate_limit_window c"
    using assms(1) by (simp add: config_valid_def settings_in_range_def in_srange_def get_rate_limit_window_def seconds_def)
  then show ?thesis
    using admitted_bound [of ws "get_max_messages_per_window c" "get_rate_limit_window c" "[]" s
        "Min (insert 0 ((\<lambda>w. steady_now w - get_rate_limit_window c) ` set ws))" t J] assms
    by (simp add: list_all_iff in_window_def)
qed

theorem rate_limit_holds_everywhere_witness:
  "in_window 0 1000000000 (admitted ref_json (replicate 11 quiet_world) (snd fresh)) \<le> 10"
  using rate_limit_holds_everywhere [OF initial_config_valid, of "replicate 11 quiet_world" "snd fresh" 0 ref_json]
  by (simp add: quiet_world_def initial_config_def config_defs get_rate_limit_window_def seconds_def
      get_max_messages_per_window_def list_all_length)

subsection \<open>Bursts\<close>

text \<open>The burst check overrides the rate limit. Once a session has received a hundred messages over
  its whole life, any message less than one second after the previous one has the session closed,
  even when it is within the configured limit (ten per second by default); this happens before
  the message is looked at, and without changing the session's data.\<close>

theorem burst_check_overrides_limit:
  assumes "se_state s \<noteq> Closed" and "100 \<le> sint (se_message_count s)" "sint (se_message_count s) < 2 ^ 63 - 1"
    and "\<bar>steady_now (tick w) - se_last_activity s\<bar> < 1000000000"
    and "length (filter (\<lambda>x. \<not> x < steady_now w - get_rate_limit_window (w_config w)) (se_message_timestamps s))
       < get_max_messages_per_window (w_config w)"
  shows "turned_away s (snd (on_read J No_error bytes message (w, s)))"
proof -
  define st1 where "st1 = on_session (\<lambda>s. s\<lparr>se_metrics := increment_bytes_received bytes
      (increment_messages_received 1 (se_metrics s))\<rparr>) (w, s)"
  obtain ts where c: "check_rate_limit_or_close J st1 = (True, tick w, (snd st1)\<lparr>se_message_timestamps := ts\<rparr>)"
    using assms(5) by (simp add: check_rate_limit_or_close_def Let_def st1_def)
  have n: "sint (se_message_count s + 1) = sint (se_message_count s) + 1"
    using assms(2,3) by (subst sint_add_small) simp_all
  have d: "duration_cast 1000000000 (steady_now (tick w) - se_last_activity s) = 0"
    using assms(4) by (simp add: duration_cast_def)
  obtain st3 where a: "check_suspicious_activity (tick w, (snd st1)\<lparr>se_message_timestamps := ts\<rparr>) = (True, st3)"
    "same_data s (snd st3)"
    using n d assms(2) by (simp add: check_suspicious_activity_def Let_def st1_def same_data_def)
  have "turned_away s (snd (refuse J l c m st3))" for l c m by (rule refuse_turns_away [OF a(2)])
  then show ?thesis using assms(1) c a(1) by (simp add: on_read_def Let_def flip: st1_def)
qed

text \<open>A session that has received a hundred messages in peace.\<close>

definition veteran :: session where
  "veteran = (snd joined)\<lparr>se_message_count := 100, se_message_timestamps := [], se_last_activity := 0\<rparr>"

theorem burst_check_overrides_limit_witness:
  "se_close_requested (snd (on_read ref_json No_error 0 [] (quiet_world\<lparr>w_clock := \<lambda>_. 500000000\<rparr>, veteran)))"
  using burst_check_overrides_limit [of veteran "quiet_world\<lparr>w_clock := \<lambda>_. 500000000\<rparr>" ref_json 0 "[]"] joined_state(1)
  by (simp add: veteran_def turned_away_def steady_now_def tick_def quiet_world_def initial_config_def config_defs
      get_max_messages_per_window_def)

subsection \<open>Timeouts\<close>

text \<open>When the handler of an elapsed deadline runs, a session that is not closed is asked to close
  with its data as before, in every reachable state: a client that has not joined in time, one that
  was idle, but also one whose message arrived after the wait ended and renewed the expiry, since
  the handler does not look at the expiry again.\<close>

theorem elapsed_deadline_closes:
  assumes "session_reach J st" and "se_timer_done (snd st) = No_error # rest" and "se_state (snd st) \<noteq> Closed"
  shows "turned_away (snd st) (snd (perform J Timer_handler st))"
proof -
  define st1 where "st1 = (fst st, (snd st)\<lparr>se_timer_done := rest\<rparr>)"
  have "turned_away (snd st) (snd (refuse J l c m st1))" for l c m
    by (rule refuse_turns_away) (simp add: st1_def same_data_def)
  moreover have "perform J Timer_handler st = on_deadline J No_error st1"
    by (simp add: perform_def Let_def assms(2) st1_def)
  moreover have "se_state (snd st1) \<noteq> Closed" using assms(3) by (simp add: st1_def)
  ultimately show ?thesis by (simp add: on_deadline_def Let_def)
qed

text \<open>A client that joins just after its handshake deadline has elapsed.\<close>

definition late :: st where
  "late = perform ref_json Timer_expires ((fst accepted)\<lparr>w_clock := \<lambda>_. 20000000000\<rparr>, snd accepted)"

definition late_joined :: st where
  "late_joined = perform ref_json (Read_done No_error 154 (enc sample_hello)) late"

lemma late_joined_reach: "session_reach ref_json late_joined"
proof -
  have e: "enabled Timer_expires ((fst accepted)\<lparr>w_clock := \<lambda>_. 20000000000\<rparr>, snd accepted)"
    unfolding enabled_def accepted_state fresh_def
    by (subst started) (simp add: Let_def steady_now_def tick_def quiet_world_def new_session_def seconds_def)
  have "session_reach ref_json ((fst accepted)\<lparr>w_clock := \<lambda>_. 20000000000\<rparr>, snd accepted)"
    using accepted_reach session_reach.elsewhere [of ref_json "fst accepted" "snd accepted"] by simp
  then have l: "session_reach ref_json late" unfolding late_def by (rule session_reach.step [OF _ e])
  have "enabled (Read_done No_error 154 (enc sample_hello)) late"
    using joined_reach(2) by (simp add: enabled_def Let_def late_def perform_def timer_completes_def)
  then show ?thesis unfolding late_joined_def by (rule session_reach.step [OF l])
qed

lemma late_joinable: "joinable late"
  using accepted_joinable by (simp add: joinable_def late_def perform_def timer_completes_def Let_def)

theorem elapsed_deadline_closes_witness:
  "se_state (snd late_joined) = Authenticated \<and> steady_now (fst late_joined) < se_expiry (snd late_joined) \<and>
   se_close_requested (snd (perform ref_json Timer_handler late_joined))"
proof -
  have "se_timer_done (snd late_joined) = [No_error]"
    using joins(7) [OF late_joinable] by (simp add: late_joined_def late_def perform_def [of _ Timer_expires]
        timer_completes_def Let_def accepted_state)
  moreover have "w_clock (fst late) = (\<lambda>_. 20000000000)" by (simp add: late_def perform_def Let_def)
  ultimately show ?thesis
    using elapsed_deadline_closes [OF late_joined_reach] joins(1,8) [OF late_joinable, folded late_joined_def]
    by (simp add: turned_away_def)
qed

end
