(* ===== verification/Server.thy ===== *)
theory Server
  imports Session
begin

text \<open>
  \<^verbatim>\<open>src/server/websocket_server.{hpp,cpp}\<close> and the process around it: the acceptor with its
  backoff timer, the sessions it creates, and the shutdown. As for a session, the record holds the
  object's fields and, below them, what is under way in Boost.Asio. A timer object is a number;
  \<open>sv_timer_waits\<close> are the timers being waited for, \<open>sv_timer_done\<close> the completions due (\<open>True\<close>
  when the time has come, \<open>False\<close> when the wait was cancelled).
\<close>

record server =
  sv_port :: nat
  sv_handshake_timeout :: i64
  sv_acceptor_open :: bool
  sv_initialized :: bool
  sv_alive :: bool
  sv_stopped :: bool
  sv_backoff_timer :: "nat option"
  sv_backoff_seconds :: int
  sv_shared :: bool                \<comment> \<open>a \<open>shared_ptr\<close> to the server exists\<close>
  sv_accepting :: nat
  sv_timer_waits :: "(nat \<times> time_point) list"
  sv_timer_done :: "(nat \<times> bool) list"
  sv_timers :: nat                 \<comment> \<open>how many timer objects have been made\<close>
  sv_close_error :: "string option"  \<comment> \<open>what closing the acceptor will answer\<close>

type_synonym sst = "world \<times> server"

definition say_server :: "log_line \<Rightarrow> sst \<Rightarrow> sst" where
  "say_server line st = (emit [line] (fst st), snd st)"

definition note_event :: "string \<Rightarrow> world \<Rightarrow> world" where
  "note_event name w = tick (with_metrics (record_event (steady_now w) name []) w)"

definition note_error :: "string \<Rightarrow> string \<Rightarrow> world \<Rightarrow> world" where
  "note_error error_type details w =
     tick (with_metrics (record_error (steady_now w) error_type details) w)"

definition note_gauge :: "string \<Rightarrow> int \<Rightarrow> world \<Rightarrow> world" where
  "note_gauge name v = with_metrics (set_gauge name (double_of_int v))"

definition note_count :: "string \<Rightarrow> world \<Rightarrow> world" where
  "note_count name = with_metrics (increment_counter name 1)"

subsection \<open>Construction\<close>

text \<open>What the four calls on the acceptor, and closing it, answer: \<open>None\<close> is success.\<close>

record acceptor_answers =
  aa_open :: "string option"
  aa_set_option :: "string option"
  aa_bind :: "string option"
  aa_listen :: "string option"
  aa_close :: "string option"

definition close_acceptor :: "acceptor_answers \<Rightarrow> world \<Rightarrow> world" where
  "close_acceptor aa w =
     (case aa_close aa of
        None \<Rightarrow> w
      | Some msg \<Rightarrow> emit [log_error (''[WebSocketServer] Additional error closing acceptor: '' @ msg)] w)"

text \<open>A constructor that throws destroys the members made so far, the session table among them.\<close>

definition new_server :: "acceptor_answers \<Rightarrow> nat \<Rightarrow> i64 \<Rightarrow> world \<Rightarrow> world \<times> (exn + server)" where
  "new_server aa port handshake_timeout w =
     (let w1 = note_gauge ''server_port'' (int port)
                 (note_event ''server_created'' (w \<lparr>w_manager := Some new_connection_manager\<rparr>))
      in case aa_open aa of
           Some msg \<Rightarrow>
             (w1 \<lparr>w_manager := None\<rparr>, Inl (Runtime_error (''[WebSocketServer] Failed to open acceptor: '' @ msg)))
         | None \<Rightarrow>
      case aa_set_option aa of
           Some msg \<Rightarrow>
             ((close_acceptor aa w1) \<lparr>w_manager := None\<rparr>,
              Inl (Runtime_error (''[WebSocketServer] Failed to set reuse_address: '' @ msg)))
         | None \<Rightarrow>
      case aa_bind aa of
           Some msg \<Rightarrow>
             ((close_acceptor aa w1) \<lparr>w_manager := None\<rparr>,
              Inl (Runtime_error (''[WebSocketServer] Failed to bind to port '' @ nat_to_string port @ '': '' @ msg)))
         | None \<Rightarrow>
      case aa_listen aa of
           Some msg \<Rightarrow>
             ((close_acceptor aa w1) \<lparr>w_manager := None\<rparr>,
              Inl (Runtime_error (''[WebSocketServer] Failed to listen: '' @ msg)))
         | None \<Rightarrow>
             (emit [log_message (''[WebSocketServer] Listening on port '' @ nat_to_string port)] w1,
              Inr \<lparr>sv_port = port, sv_handshake_timeout = handshake_timeout, sv_acceptor_open = True,
                   sv_initialized = True, sv_alive = True, sv_stopped = False, sv_backoff_timer = None,
                   sv_backoff_seconds = 1, sv_shared = True, sv_accepting = 0, sv_timer_waits = [],
                   sv_timer_done = [], sv_timers = 0, sv_close_error = aa_close aa\<rparr>))"

subsection \<open>Accepting\<close>

definition start_accept :: "sst \<Rightarrow> sst" where
  "start_accept st =
     (let v = snd st in
      if sv_shared v then (fst st, v \<lparr>sv_accepting := sv_accepting v + 1\<rparr>)
      else say_server (log_error ''[WebSocketServer] do_accept error: bad_weak_ptr'') st)"

definition run_server :: "sst \<Rightarrow> sst" where
  "run_server st =
     (if \<not> sv_initialized (snd st)
      then say_server (log_error ''[WebSocketServer] Cannot run - initialization failed'') st
      else let st1 = start_accept st in (note_count ''server_started'' (fst st1), snd st1))"

text \<open>Cancelling a timer ends its wait, if it has one.\<close>

definition cancel_timer :: "nat \<Rightarrow> server \<Rightarrow> server" where
  "cancel_timer t v =
     v \<lparr>sv_timer_done := sv_timer_done v @ map (\<lambda>(i, _). (i, False)) (filter (\<lambda>(i, _). i = t) (sv_timer_waits v)),
        sv_timer_waits := filter (\<lambda>(i, _). i \<noteq> t) (sv_timer_waits v)\<rparr>"

definition cancel_backoff :: "server \<Rightarrow> server" where
  "cancel_backoff v = (case sv_backoff_timer v of None \<Rightarrow> v | Some t \<Rightarrow> cancel_timer t v)"

definition next_backoff :: "int \<Rightarrow> int" where
  "next_backoff backoff = min (backoff * 2) (sint MAX_BACKOFF)"

definition start_backoff :: "sst \<Rightarrow> sst" where
  "start_backoff st =
     (let backoff = sv_backoff_seconds (snd st);
          v = cancel_backoff (snd st);
          t = sv_timers v;
          due = steady_now (fst st) + backoff * 1000000000
      in (tick (fst st),
          v \<lparr>sv_backoff_timer := Some t, sv_timers := t + 1,
             sv_timer_waits := sv_timer_waits v @ [(t, due)],
             sv_backoff_seconds := next_backoff backoff\<rparr>))"

definition is_fatal :: "error_kind \<Rightarrow> bool" where
  "is_fatal kind \<longleftrightarrow> kind = Access_denied \<or> kind = Address_in_use \<or> kind = Bad_descriptor"

definition accept_failed :: "error_kind \<Rightarrow> string \<Rightarrow> sst \<Rightarrow> sst" where
  "accept_failed kind msg st =
     (if kind = Operation_aborted then st
      else
        let st1 = say_server (log_error (''[WebSocketServer] Accept failed: '' @ msg)) st
        in if \<not> sv_acceptor_open (snd st1) \<or> is_fatal kind
           then say_server (log_error ''[WebSocketServer] Fatal accept error, stopping server'') st1
           else start_backoff st1)"

text \<open>A successful accept, up to the decision to make a session.\<close>

definition accept_arrived :: "sst \<Rightarrow> bool \<times> sst" where
  "accept_arrived st =
     (let v = (snd st) \<lparr>sv_backoff_seconds := 1, sv_backoff_timer := None\<rparr>
      in if sv_stopped v \<or> \<not> sv_alive v
         then (False, say_server (log_message
                 ''[WebSocketServer] Discarding accepted connection during shutdown'') (fst st, v))
         else (True, (fst st, v)))"

text \<open>The completion of the backoff timer.\<close>

definition on_backoff_timer :: "nat \<Rightarrow> bool \<Rightarrow> sst \<Rightarrow> sst" where
  "on_backoff_timer t elapsed st =
     (let v = snd st in
      if elapsed \<and> sv_alive v \<and> sv_acceptor_open v \<and> sv_backoff_timer v = Some t
      then start_accept st else st)"

end
