(* ===== verification/System.thy ===== *)
theory System
  imports Server Session_Properties
begin

text \<open>
  The server with all its sessions: how they share the world, and what can happen next. One step is
  one handler of one object; which object moves is not determined. \<open>sy_sessions\<close> are the session
  objects that exist; a session is destroyed once nothing refers to it any more.
\<close>

record system =
  sy_world :: world
  sy_server :: server
  sy_sessions :: "session_ref \<Rightarrow> session option"
  sy_next :: session_ref

subsection \<open>Handlers of the server\<close>

definition on_server :: "(sst \<Rightarrow> sst) \<Rightarrow> system \<Rightarrow> system" where
  "on_server f sy =
     (let st = f (sy_world sy, sy_server sy) in sy \<lparr>sy_world := fst st, sy_server := snd st\<rparr>)"

text \<open>A new session for an accepted connection. \<open>Inr (tcp, fault)\<close> when it can be made, where \<open>tcp\<close> is what
  closing its socket will answer and \<open>fault\<close> how starting it fails, if it does; \<open>Inl msg\<close> when
  \<open>make_shared\<close> throws: the connection is lost.\<close>

type_synonym attempt = "string + string option \<times> (run_stage \<times> string) option"

definition open_connection :: "attempt \<Rightarrow> system \<Rightarrow> system" where
  "open_connection made sy =
     (case made of
        Inl msg \<Rightarrow>
          sy \<lparr>sy_world := emit [log_error (''[WebSocketServer] Failed to create session: '' @ msg)] (sy_world sy)\<rparr>
      | Inr (tcp, fault) \<Rightarrow>
          let r = sy_next sy;
              st = run fault (new_session r (sv_handshake_timeout (sy_server sy)) tcp (sy_world sy))
          in sy \<lparr>sy_world := emit [log_message ''[WebSocketServer] New connection accepted'']
                   (note_count ''server_connections_accepted'' (fst st)),
                 sy_sessions := (sy_sessions sy)(r \<mapsto> snd st), sy_next := r + 1\<rparr>)"

definition on_server_accept :: "error_code \<Rightarrow> attempt \<Rightarrow> system \<Rightarrow> system" where
  "on_server_accept ec made sy =
     (case ec of
        Err kind msg \<Rightarrow> on_server (accept_failed kind msg) sy
      | No_error \<Rightarrow>
          (case accept_arrived (sy_world sy, sy_server sy) of
             (False, st) \<Rightarrow> sy \<lparr>sy_world := fst st, sy_server := snd st\<rparr>
           | (True, st) \<Rightarrow>
               on_server start_accept (open_connection made (sy \<lparr>sy_world := fst st, sy_server := snd st\<rparr>))))"

definition close_one :: "session_ref \<Rightarrow> system \<Rightarrow> system" where
  "close_one r sy =
     (case sy_sessions sy r of
        None \<Rightarrow> sy
      | Some s \<Rightarrow>
          (let st = close_from_outside (sy_world sy, s)
           in sy \<lparr>sy_world := fst st, sy_sessions := (sy_sessions sy)(r \<mapsto> snd st)\<rparr>))"

definition stop_sessions :: "system \<Rightarrow> system" where
  "stop_sessions sy =
     (case w_manager (sy_world sy) of
        None \<Rightarrow> sy
      | Some m \<Rightarrow>
          (case stop_all m of
             (lines, refs, m') \<Rightarrow>
               let sy1 = fold close_one refs (sy \<lparr>sy_world := (sy_world sy) \<lparr>w_manager := Some m'\<rparr>\<rparr>)
               in sy1 \<lparr>sy_world := note_gauge ''active_sessions'' (int (session_count m'))
                         (emit lines (sy_world sy1))\<rparr>))"

definition stop_server :: "system \<Rightarrow> system" where
  "stop_server sy =
     (let v = sy_server sy in
      if sv_stopped v then sy
      else
        let w1 = note_event ''server_stop'' (sy_world sy);
            v1 = (cancel_backoff v) \<lparr>sv_stopped := True, sv_alive := False, sv_backoff_timer := None,
                   sv_acceptor_open := False\<rparr>;
            w2 = (case sv_close_error v of
                    None \<Rightarrow> w1
                  | Some msg \<Rightarrow> emit [log_error (''[WebSocketServer] Error closing acceptor: '' @ msg)] w1);
            sy1 = stop_sessions (sy \<lparr>sy_world := w2, sy_server := v1\<rparr>)
        in sy1 \<lparr>sy_world := emit [log_message ''[WebSocketServer] Stopped accepting connections''] (sy_world sy1)\<rparr>)"

subsection \<open>Steps\<close>

definition session_event :: "'j ext \<Rightarrow> session_ref \<Rightarrow> event \<Rightarrow> session \<Rightarrow> system \<Rightarrow> system" where
  "session_event J r ev s sy =
     (let st = perform J ev (sy_world sy, s)
      in sy \<lparr>sy_world := fst st, sy_sessions := (sy_sessions sy)(r \<mapsto> snd st)\<rparr>)"

text \<open>No handler that holds the session is pending.\<close>

definition unreferenced :: "session \<Rightarrow> bool" where
  "unreferenced s \<longleftrightarrow> se_tasks s = [] \<and> se_accepting s = 0 \<and> se_reading s = 0 \<and> se_in_flight s = [] \<and>
     se_ws_closing s = 0 \<and> se_waits s = 0 \<and> se_timer_done s = []"

definition in_table :: "session_ref \<Rightarrow> world \<Rightarrow> bool" where
  "in_table r w \<longleftrightarrow> (case w_manager w of None \<Rightarrow> False | Some m \<Rightarrow> r \<in> set (map snd (cm_sessions m)))"

definition release_session :: "session_ref \<Rightarrow> session \<Rightarrow> system \<Rightarrow> system" where
  "release_session r s sy =
     sy \<lparr>sy_world := destroy (sy_world sy, s), sy_sessions := (sy_sessions sy)(r := None)\<rparr>"

definition accept_completes :: "error_code \<Rightarrow> attempt \<Rightarrow> system \<Rightarrow> system" where
  "accept_completes ec made sy =
     on_server_accept ec made (sy \<lparr>sy_server := (sy_server sy) \<lparr>sv_accepting := sv_accepting (sy_server sy) - 1\<rparr>\<rparr>)"

definition timer_elapses :: "nat \<Rightarrow> time_point \<Rightarrow> server \<Rightarrow> server" where
  "timer_elapses t due v =
     v \<lparr>sv_timer_waits := remove1 (t, due) (sv_timer_waits v), sv_timer_done := sv_timer_done v @ [(t, True)]\<rparr>"

inductive system_step :: "'j ext \<Rightarrow> system \<Rightarrow> system \<Rightarrow> bool" for J where
  session: "sy_sessions sy r = Some s \<Longrightarrow> enabled ev (sy_world sy, s) \<Longrightarrow>
    system_step J sy (session_event J r ev s sy)"
| release: "sy_sessions sy r = Some s \<Longrightarrow> unreferenced s \<Longrightarrow> \<not> in_table r (sy_world sy) \<Longrightarrow>
    system_step J sy (release_session r s sy)"
| accept: "0 < sv_accepting (sy_server sy) \<Longrightarrow> system_step J sy (accept_completes ec made sy)"
| elapse: "(t, due) \<in> set (sv_timer_waits (sy_server sy)) \<Longrightarrow> due \<le> steady_now (sy_world sy) \<Longrightarrow>
    system_step J sy (sy \<lparr>sy_server := timer_elapses t due (sy_server sy)\<rparr>)"
| backoff: "sv_timer_done (sy_server sy) = (t, elapsed) # rest \<Longrightarrow>
    system_step J sy (on_server (\<lambda>(w, v). on_backoff_timer t elapsed (w, v \<lparr>sv_timer_done := rest\<rparr>)) sy)"
| stop: "system_step J sy (stop_server sy)"

definition start_system :: "sst \<Rightarrow> system" where
  "start_system st =
     (let st1 = run_server st
      in \<lparr>sy_world = fst st1, sy_server = snd st1, sy_sessions = (\<lambda>_. None), sy_next = 0\<rparr>)"

inductive system_reach :: "'j ext \<Rightarrow> system \<Rightarrow> bool" for J where
  start: "new_server aa port handshake_timeout w = (w1, Inr v) \<Longrightarrow> system_reach J (start_system (w1, v))"
| step: "system_reach J sy \<Longrightarrow> system_step J sy sy' \<Longrightarrow> system_reach J sy'"

end
