(* ===== verification/System_Correct.thy ===== *)
theory System_Correct
  imports System Session_Messages
begin

text \<open>
  What holds of the whole server in every reachable state: the session table against the sessions
  that exist, the shutdown, and the accept loop.
\<close>

subsection \<open>The table and the sessions\<close>

definition table_of :: "system \<Rightarrow> string \<Rightarrow> session_ref option" where
  "table_of sy = (case w_manager (sy_world sy) of None \<Rightarrow> (\<lambda>_. None) | Some m \<Rightarrow> om_find (cm_sessions m))"

definition entries_ok :: "system \<Rightarrow> bool" where
  "entries_ok sy \<longleftrightarrow> (\<forall>x r. table_of sy x = Some r \<longrightarrow>
     (\<exists>s. sy_sessions sy r = Some s \<and> se_session_id s = x \<and> se_state s \<noteq> Closed))"

definition entries_complete :: "system \<Rightarrow> bool" where
  "entries_complete sy \<longleftrightarrow> (\<forall>r s. sy_sessions sy r = Some s \<longrightarrow> se_state s \<noteq> Closed \<longrightarrow> se_session_id s \<noteq> [] \<longrightarrow>
     table_of sy (se_session_id s) = Some r)"

definition objects_ok :: "'j ext \<Rightarrow> system \<Rightarrow> bool" where
  "objects_ok J sy \<longleftrightarrow> (\<forall>r s. sy_sessions sy r = Some s \<longrightarrow>
     se_self s = r \<and> r < sy_next sy \<and> session_reach J (sy_world sy, s))"

definition world_ok :: "world \<Rightarrow> bool" where
  "world_ok w \<longleftrightarrow> (\<exists>m. w_manager w = Some m \<and> manager_ok m)"

definition system_ok :: "'j ext \<Rightarrow> system \<Rightarrow> bool" where
  "system_ok J sy \<longleftrightarrow> objects_ok J sy \<and> world_ok (sy_world sy) \<and> entries_ok sy \<and>
     (\<not> sv_stopped (sy_server sy) \<longrightarrow> entries_complete sy)"

lemmas system_ok_defs = system_ok_def objects_ok_def world_ok_def entries_ok_def entries_complete_def

lemma session_anywhere: "session_reach J (w, s) \<Longrightarrow> session_reach J (w', s)"
  by (rule session_reach.elsewhere)

lemma system_session:
  assumes "system_ok J sy" "sy_sessions sy r = Some s"
  shows "se_self s = r" "r < sy_next sy" "session_reach J (w, s)"
  using assms by (auto simp: system_ok_def objects_ok_def intro: session_anywhere [of J "sy_world sy"])

text \<open>From the system to one of its sessions and back.\<close>

lemma session_tied:
  assumes "system_ok J sy" "sy_sessions sy r = Some s"
  shows "tied (\<not> sv_stopped (sy_server sy)) (table_of sy) (sy_world sy) s"
proof -
  have s: "se_self s = r" "armed s"
    using system_session [OF assms] reach_armed [of J "(sy_world sy, s)"] by simp_all
  obtain m where m: "w_manager (sy_world sy) = Some m" "manager_ok m"
    using assms(1) by (auto simp: system_ok_def world_ok_def)
  have f: "table_of sy = om_find (cm_sessions m)" by (simp add: table_of_def m)
  have "x = se_session_id s \<and> se_state s \<noteq> Closed" if "table_of sy x = Some r" for x
    using assms that unfolding system_ok_def entries_ok_def by (metis option.inject)
  moreover have "table_of sy (se_session_id s) = Some r"
    if "\<not> sv_stopped (sy_server sy)" "se_session_id s \<noteq> []" "se_state s \<noteq> Closed"
    using assms that unfolding system_ok_def entries_complete_def by blast
  ultimately have "entry_ok (\<not> sv_stopped (sy_server sy)) (table_of sy) r (se_session_id s) (se_state s = Closed)
      (om_find (cm_sessions m))"
    unfolding f entry_ok_def by blast
  then show ?thesis using s m by (simp add: tied_def linked_def)
qed

lemma tied_system:
  assumes "system_ok J sy" "sy_sessions sy r = Some s" "se_self s' = r"
    and "linked (\<not> sv_stopped (sy_server sy)) (table_of sy) w' s'" "session_reach J (w', s')"
  shows "system_ok J (sy\<lparr>sy_world := w', sy_sessions := (sy_sessions sy)(r \<mapsto> s')\<rparr>)"
proof -
  define sy' where "sy' = sy\<lparr>sy_world := w', sy_sessions := (sy_sessions sy)(r \<mapsto> s')\<rparr>"
  obtain m where m: "w_manager w' = Some m" "manager_ok m"
    and e: "entry_ok (\<not> sv_stopped (sy_server sy)) (table_of sy) r (se_session_id s') (se_state s' = Closed)
      (table_of sy')"
    using assms(3,4) by (auto simp: linked_def table_of_def sy'_def)
  have "objects_ok J sy'"
    using assms(1-3,5) system_session [OF assms(1)] by (auto simp: objects_ok_def sy'_def)
  moreover have "world_ok (sy_world sy')" using m by (simp add: world_ok_def sy'_def)
  moreover have "entries_ok sy'"
    unfolding entries_ok_def
  proof (intro allI impI)
    fix x t assume t: "table_of sy' x = Some t"
    show "\<exists>u. sy_sessions sy' t = Some u \<and> se_session_id u = x \<and> se_state u \<noteq> Closed"
    proof (cases "t = r")
      case True
      then show ?thesis using e t by (simp add: entry_ok_def sy'_def)
    next
      case False
      then have "table_of sy x = Some t" using e t unfolding entry_ok_def by blast
      then show ?thesis using assms(1) False by (simp add: system_ok_def entries_ok_def sy'_def)
    qed
  qed
  moreover have "entries_complete sy'" if stop: "\<not> sv_stopped (sy_server sy)"
    unfolding entries_complete_def
  proof (intro allI impI)
    fix t u assume t: "sy_sessions sy' t = Some u" "se_state u \<noteq> Closed" "se_session_id u \<noteq> []"
    show "table_of sy' (se_session_id u) = Some t"
    proof (cases "t = r")
      case True
      then show ?thesis using e t stop by (simp add: entry_ok_def sy'_def)
    next
      case False
      then have "table_of sy (se_session_id u) = Some t"
        using assms(1) t stop by (simp add: system_ok_def entries_complete_def sy'_def)
      then show ?thesis using e stop False unfolding entry_ok_def by blast
    qed
  qed
  ultimately show ?thesis by (simp add: system_ok_def sy'_def)
qed

subsection \<open>Every step keeps them in agreement\<close>

lemma session_event_ok:
  assumes "system_ok J sy" "sy_sessions sy r = Some s" "enabled ev (sy_world sy, s)"
  shows "system_ok J (session_event J r ev s sy)"
proof -
  let ?st = "perform J ev (sy_world sy, s)"
  note s = system_session [OF assms(1,2)]
  have a: "session_reach J ?st" by (rule session_reach.step [OF s(3) assms(3)])
  have t: "tied (\<not> sv_stopped (sy_server sy)) (table_of sy) (fst ?st) (snd ?st)"
    using tied.perform_stable [of "\<not> sv_stopped (sy_server sy)" "table_of sy" "(sy_world sy, s)" ev J]
      session_tied [OF assms(1,2)] assms(3) reach_quiet [OF s(3)]
    by (simp add: tied.stable_def)
  have "se_self (snd ?st) = r" using perform_ahead [OF s(3) assms(3)] s(1) by (simp add: ahead_def)
  then show ?thesis
    unfolding session_event_def Let_def
    using t a by (intro tied_system [OF assms(1,2)]) (simp_all add: tied_def)
qed

text \<open>Steps that leave the table and the sessions alone.\<close>

lemma system_ok_cong:
  assumes "system_ok J sy" "sy_sessions sy' = sy_sessions sy" "sy_next sy' = sy_next sy"
    and "w_manager (sy_world sy') = w_manager (sy_world sy)" "sv_stopped (sy_server sy') = sv_stopped (sy_server sy)"
  shows "system_ok J sy'"
proof -
  have "table_of sy' = table_of sy" using assms(4) by (simp add: table_of_def)
  moreover have "objects_ok J sy'"
    using assms(1-3) system_session [OF assms(1)] by (simp add: objects_ok_def)
  ultimately show ?thesis using assms by (simp add: system_ok_def entries_ok_def entries_complete_def world_ok_def)
qed

lemma close_one_ok: "system_ok J sy \<Longrightarrow> system_ok J (close_one r sy)"
proof (cases "sy_sessions sy r")
  case (Some s)
  moreover assume "system_ok J sy"
  ultimately have "system_ok J (session_event J r External_close s sy)"
    by (intro session_event_ok) (simp_all add: enabled_def)
  then show ?thesis by (simp add: close_one_def Some session_event_def perform_def Let_def)
qed (simp add: close_one_def)

lemma close_one_frame:
  "sy_server (close_one r sy) = sy_server sy" "sy_next (close_one r sy) = sy_next sy"
  "sy_world (close_one r sy) = sy_world sy"
  by (simp_all add: close_one_def close_from_outside_def Let_def split: option.split)

lemma fold_close_one:
  "system_ok J sy \<Longrightarrow> system_ok J (fold close_one refs sy)"
  "sy_server (fold close_one refs sy) = sy_server sy" "sy_next (fold close_one refs sy) = sy_next sy"
  "sy_world (fold close_one refs sy) = sy_world sy"
  by (induction refs arbitrary: sy) (simp_all add: close_one_ok close_one_frame)

lemma note_frames [simp]:
  "w_manager (note_event n w) = w_manager w" "w_manager (note_gauge n v w) = w_manager w"
  "w_manager (note_count n w) = w_manager w" "w_manager (note_error ty d w) = w_manager w"
  "w_config (note_event n w) = w_config w" "w_config (note_gauge n v w) = w_config w"
  "w_config (note_count n w) = w_config w" "w_config (note_error ty d w) = w_config w"
  by (simp_all add: note_event_def note_gauge_def note_count_def note_error_def frame_simps)

text \<open>Stopping: the table is emptied, then the sessions that were in it are asked to close.\<close>

lemma stop_server_steps:
  assumes "\<not> sv_stopped (sy_server sy)" "w_manager (sy_world sy) = Some m" "stop_all m = (lines, refs, m')"
  obtains sy0 where "sy_sessions sy0 = sy_sessions sy" "sy_next sy0 = sy_next sy"
    "w_manager (sy_world sy0) = Some m'" "w_config (sy_world sy0) = w_config (sy_world sy)"
    "sy_server sy0 = (cancel_backoff (sy_server sy))\<lparr>sv_stopped := True, sv_alive := False,
       sv_backoff_timer := None, sv_acceptor_open := False\<rparr>"
    "sy_server (stop_server sy) = sy_server sy0" "sy_next (stop_server sy) = sy_next sy"
    "w_manager (sy_world (stop_server sy)) = Some m'" "w_config (sy_world (stop_server sy)) = w_config (sy_world sy)"
    "sy_sessions (stop_server sy) = sy_sessions (fold close_one refs sy0)"
proof -
  define v1 where "v1 = (cancel_backoff (sy_server sy))\<lparr>sv_stopped := True, sv_alive := False,
      sv_backoff_timer := None, sv_acceptor_open := False\<rparr>"
  define w2 where "w2 = (case sv_close_error (sy_server sy) of
      None \<Rightarrow> note_event ''server_stop'' (sy_world sy)
    | Some msg \<Rightarrow> emit [log_error (''[WebSocketServer] Error closing acceptor: '' @ msg)]
        (note_event ''server_stop'' (sy_world sy)))"
  have w2: "w_manager w2 = Some m" "w_config w2 = w_config (sy_world sy)"
    using assms(2) by (simp_all add: w2_def frame_simps split: option.split)
  define sy0 where "sy0 = sy\<lparr>sy_server := v1, sy_world := w2\<lparr>w_manager := Some m'\<rparr>\<rparr>"
  have st: "stop_server sy = (let sy1 = fold close_one refs sy0
      in sy1\<lparr>sy_world := emit [log_message ''[WebSocketServer] Stopped accepting connections'']
        (note_gauge ''active_sessions'' (int (session_count m')) (emit lines (sy_world sy1)))\<rparr>)"
    unfolding stop_server_def stop_sessions_def Let_def v1_def [symmetric] w2_def [symmetric]
    by (simp add: assms(1,3) w2 sy0_def)
  have "sy_server (stop_server sy) = sy_server sy0" "sy_next (stop_server sy) = sy_next sy"
    "w_manager (sy_world (stop_server sy)) = Some m'" "w_config (sy_world (stop_server sy)) = w_config (sy_world sy)"
    "sy_sessions (stop_server sy) = sy_sessions (fold close_one refs sy0)"
    unfolding st Let_def by (simp_all add: fold_close_one sy0_def w2(2) frame_simps)
  then show thesis by (intro that [of sy0]) (simp_all add: sy0_def w2 flip: v1_def)
qed

lemma stop_server_ok:
  assumes "system_ok J sy"
  shows "system_ok J (stop_server sy)"
proof (cases "sv_stopped (sy_server sy)")
  case False
  obtain m where m: "w_manager (sy_world sy) = Some m" "manager_ok m"
    using assms by (auto simp: system_ok_def world_ok_def)
  obtain lines refs m' where st: "stop_all m = (lines, refs, m')" by (cases "stop_all m")
  obtain sy0 where f: "sy_sessions sy0 = sy_sessions sy" "sy_next sy0 = sy_next sy"
    "w_manager (sy_world sy0) = Some m'" "sv_stopped (sy_server sy0)"
    "sy_server (stop_server sy) = sy_server sy0" "sy_next (stop_server sy) = sy_next sy"
    "w_manager (sy_world (stop_server sy)) = Some m'"
    "sy_sessions (stop_server sy) = sy_sessions (fold close_one refs sy0)"
    by (rule stop_server_steps [OF False m(1) st]) simp
  have "om_find (cm_sessions m') = (\<lambda>_. None)"
    using st by (auto simp: stop_all_def om.find_empty)
  then have "system_ok J sy0"
    using stop_all_ok [OF st] system_session [OF assms] f(1-4)
    by (auto simp: system_ok_def objects_ok_def world_ok_def entries_ok_def table_of_def)
  then have "system_ok J (fold close_one refs sy0)" by (rule fold_close_one)
  then show ?thesis
    by (rule system_ok_cong) (simp_all add: f fold_close_one)
next
  case True
  then show ?thesis using assms by (simp add: stop_server_def)
qed

lemma on_server_ok:
  assumes "system_ok J sy" "w_manager (fst (f (sy_world sy, sy_server sy))) = w_manager (sy_world sy)"
    and "sv_stopped (snd (f (sy_world sy, sy_server sy))) = sv_stopped (sy_server sy)"
  shows "system_ok J (on_server f sy)"
  using assms by (intro system_ok_cong [OF assms(1)]) (simp_all add: on_server_def Let_def)

lemma cancel_backoff_stopped [simp]: "sv_stopped (cancel_backoff v) = sv_stopped v"
  by (simp add: cancel_backoff_def cancel_timer_def split: option.split)

lemma server_handlers_frame:
  "w_manager (fst (start_accept st)) = w_manager (fst st)"
  "sv_stopped (snd (start_accept st)) = sv_stopped (snd st)"
  "w_manager (fst (accept_failed k msg st)) = w_manager (fst st)"
  "sv_stopped (snd (accept_failed k msg st)) = sv_stopped (snd st)"
  "w_manager (fst (snd (accept_arrived st))) = w_manager (fst st)"
  "sv_stopped (snd (snd (accept_arrived st))) = sv_stopped (snd st)"
  "w_manager (fst (on_backoff_timer t b st)) = w_manager (fst st)"
  "sv_stopped (snd (on_backoff_timer t b st)) = sv_stopped (snd st)"
  by (simp_all add: start_accept_def accept_failed_def accept_arrived_def on_backoff_timer_def start_backoff_def
      say_server_def Let_def)

lemma open_connection_ok:
  assumes "system_ok J sy"
  shows "system_ok J (open_connection made sy)"
proof (cases made)
  case (Inl msg)
  then show ?thesis by (intro system_ok_cong [OF assms]) (simp_all add: open_connection_def)
next
  case (Inr p)
  obtain tcp fault where p: "p = (tcp, fault)" by (cases p)
  define st where "st = run fault (new_session (sy_next sy) (sv_handshake_timeout (sy_server sy)) tcp (sy_world sy))"
  define sy' where "sy' = open_connection made sy"
  have s: "sy_sessions sy' = (sy_sessions sy)(sy_next sy \<mapsto> snd st)" "sy_next sy' = sy_next sy + 1"
    "sy_server sy' = sy_server sy" "w_manager (sy_world sy') = w_manager (sy_world sy)"
    by (simp_all add: sy'_def open_connection_def Inr p Let_def st_def)
  have t: "table_of sy' = table_of sy" using s(4) by (simp add: table_of_def)
  have fresh_ref: "table_of sy x \<noteq> Some (sy_next sy)" for x
    using assms system_session(2) [OF assms] by (fastforce simp: system_ok_def entries_ok_def)
  have "session_reach J (w, snd st)" for w
    using session_reach.start [of J] session_anywhere [of J "fst st" "snd st" w] by (simp add: st_def)
  then have "objects_ok J sy'"
    using s system_session [OF assms] by (auto simp: objects_ok_def st_def less_Suc_eq)
  moreover have "entries_ok sy'"
    using assms s(1) t fresh_ref by (auto simp: system_ok_def entries_ok_def)
  moreover have "entries_complete sy'" if "entries_complete sy"
    using that s(1) t by (auto simp: entries_complete_def st_def)
  ultimately show ?thesis using assms s by (simp add: system_ok_def world_ok_def flip: sy'_def)
qed

lemma accept_completes_ok:
  assumes "system_ok J sy"
  shows "system_ok J (accept_completes ec made sy)"
proof -
  define sy0 where "sy0 = sy\<lparr>sy_server := (sy_server sy)\<lparr>sv_accepting := sv_accepting (sy_server sy) - 1\<rparr>\<rparr>"
  have e: "accept_completes ec made sy = on_server_accept ec made sy0" by (simp add: accept_completes_def sy0_def)
  have ok: "system_ok J sy0" by (rule system_ok_cong [OF assms]) (simp_all add: sy0_def)
  have arrived: "system_ok J (sy0\<lparr>sy_world := fst st, sy_server := snd st\<rparr>)"
    if "accept_arrived (sy_world sy0, sy_server sy0) = (b, st)" for b st
    using server_handlers_frame(5,6) [of "(sy_world sy0, sy_server sy0)"] that
    by (intro system_ok_cong [OF ok]) simp_all
  show ?thesis
  proof (cases ec)
    case No_error
    obtain b st where a: "accept_arrived (sy_world sy0, sy_server sy0) = (b, st)"
      by (cases "accept_arrived (sy_world sy0, sy_server sy0)")
    show ?thesis
    proof (cases b)
      case True
      then show ?thesis
        using open_connection_ok [OF arrived [OF a]] unfolding e on_server_accept_def
        by (simp add: No_error a on_server_ok server_handlers_frame)
    next
      case False
      then show ?thesis
        using arrived [OF a] unfolding e on_server_accept_def by (simp add: No_error a)
    qed
  next
    case (Err k msg)
    then show ?thesis
      using ok unfolding e on_server_accept_def by (simp add: Err on_server_ok server_handlers_frame)
  qed
qed

text \<open>A session that is destroyed has no entry left to remove before the server stops; afterwards its
  destructor may remove one.\<close>

lemma in_table_iff: "world_ok (sy_world sy) \<Longrightarrow> in_table r (sy_world sy) \<longleftrightarrow> (\<exists>x. table_of sy x = Some r)"
  by (auto simp: in_table_def table_of_def world_ok_def manager_ok_def simp flip: om_entry) force+

lemma release_ok:
  assumes "system_ok J sy" "sy_sessions sy r = Some s" "\<not> in_table r (sy_world sy)"
  shows "system_ok J (release_session r s sy)"
proof -
  obtain m where m: "w_manager (sy_world sy) = Some m" "manager_ok m"
    using assms(1) by (auto simp: system_ok_def world_ok_def)
  have gone: "table_of sy x \<noteq> Some r" for x
    using assms(1,3) in_table_iff [of sy r] by (auto simp: system_ok_def)
  define sy' where "sy' = release_session r s sy"
  obtain m' where m': "w_manager (sy_world sy') = Some m'" "manager_ok m'"
    using m unregister_ok [OF m(2)]
    by (cases "se_state s = Closed"; cases "se_session_id s = []")
      (simp_all add: sy'_def release_session_def destroy_def Let_def timer_cancel_def manager_unregister)
  have sub: "table_of sy x = Some t" if "table_of sy' x = Some t" for x t
    using that m unregister_table [OF m(2)]
    by (auto simp: table_of_def sy'_def release_session_def destroy_def Let_def timer_cancel_def manager_unregister
        split: if_splits)
  have same: "table_of sy' = table_of sy" if "\<not> sv_stopped (sy_server sy)"
  proof -
    have "se_state s = Closed \<or> se_session_id s = []"
      using assms(1,2) that gone by (auto simp: system_ok_def entries_complete_def)
    then show ?thesis
      by (auto simp: table_of_def sy'_def release_session_def destroy_def Let_def timer_cancel_def)
  qed
  have f: "sy_sessions sy' = (sy_sessions sy)(r := None)" "sy_next sy' = sy_next sy" "sy_server sy' = sy_server sy"
    by (simp_all add: sy'_def release_session_def)
  have "entries_ok sy'"
    using assms(1) sub gone f(1) by (fastforce simp: system_ok_def entries_ok_def)
  moreover have "entries_complete sy'" if "\<not> sv_stopped (sy_server sy)"
    using assms(1) that same [OF that] f(1) by (auto simp: system_ok_def entries_complete_def)
  moreover have "objects_ok J sy'"
    using system_session [OF assms(1)] f by (auto simp: objects_ok_def)
  ultimately show ?thesis using m' f by (simp add: system_ok_def world_ok_def flip: sy'_def)
qed

lemma system_step_ok:
  assumes "system_step J sy sy'" "system_ok J sy"
  shows "system_ok J sy'"
  using assms(1)
proof cases
  case (session r s ev)
  then show ?thesis using session_event_ok assms(2) by blast
next
  case (release r s)
  then show ?thesis using release_ok assms(2) by blast
next
  case (accept ec made)
  then show ?thesis using accept_completes_ok assms(2) by blast
next
  case (elapse t due)
  then show ?thesis by (intro system_ok_cong [OF assms(2)]) (simp_all add: timer_elapses_def)
next
  case (backoff t elapsed rest)
  then show ?thesis using assms(2) by (simp add: on_server_ok server_handlers_frame)
next
  case stop
  then show ?thesis using stop_server_ok assms(2) by blast
qed

lemma system_reach_ok: "system_reach J sy \<Longrightarrow> system_ok J sy"
proof (induction rule: system_reach.induct)
  case (start aa port ht w w1 v)
  have w1: "w_manager w1 = Some new_connection_manager"
    using start by (auto simp: new_server_def Let_def split: option.splits)
  have "manager_ok new_connection_manager" by (rule manager_run_ok [OF manager_run.start])
  moreover have "w_manager (sy_world (start_system (w1, v))) = Some new_connection_manager"
    using w1 by (simp add: start_system_def run_server_def server_handlers_frame say_server_def Let_def)
  ultimately show ?case
    by (simp add: system_ok_defs table_of_def start_system_def Let_def new_connection_manager_def om.find_empty)
next
  case (step sy sy')
  then show ?case by (blast intro: system_step_ok)
qed

subsection \<open>A run to test with\<close>

definition no_errors :: acceptor_answers where
  "no_errors = \<lparr>aa_open = None, aa_set_option = None, aa_bind = None, aa_listen = None, aa_close = None\<rparr>"

definition sample_start :: system where
  "sample_start = (case new_server no_errors 8080 10 quiet_world of (w, Inr v) \<Rightarrow> start_system (w, v))"

definition sample_accepted :: system where
  "sample_accepted = accept_completes No_error (Inr (None, None)) sample_start"

definition step_session :: "event \<Rightarrow> system \<Rightarrow> system" where
  "step_session ev sy = (case sy_sessions sy 0 of Some s \<Rightarrow> session_event ref_json 0 ev s sy)"

definition sample_waiting :: system where
  "sample_waiting = step_session (Accept_done No_error) sample_accepted"

definition sample_joined :: system where
  "sample_joined = step_session (Read_done No_error 154 (enc sample_hello)) sample_waiting"

lemma sample_start_reach: "system_reach ref_json sample_start"
proof -
  obtain w v where "new_server no_errors 8080 10 quiet_world = (w, Inr v)"
    by (simp add: new_server_def no_errors_def Let_def)
  then show ?thesis unfolding sample_start_def by (simp add: system_reach.start)
qed

lemma sample_start_fields:
  "sv_accepting (sy_server sample_start) = 1" "\<not> sv_stopped (sy_server sample_start)"
  "sv_alive (sy_server sample_start)" "sv_handshake_timeout (sy_server sample_start) = 10"
  "sv_acceptor_open (sy_server sample_start)" "sv_shared (sy_server sample_start)"
  "sv_backoff_seconds (sy_server sample_start) = 1" "sv_backoff_timer (sy_server sample_start) = None"
  "sy_next sample_start = 0" "sy_sessions sample_start = (\<lambda>_. None)"
  "w_manager (sy_world sample_start) = Some new_connection_manager"
  "w_rng (sy_world sample_start) = (\<lambda>_. Some 7)" "w_config (sy_world sample_start) = initial_config"
  by (simp_all add: sample_start_def new_server_def no_errors_def Let_def start_system_def run_server_def
      start_accept_def note_count_def note_gauge_def note_event_def with_metrics_def tick_def emit_def quiet_world_def)

lemma sample_accepted_reach: "system_reach ref_json sample_accepted"
  unfolding sample_accepted_def
  by (rule system_reach.step [OF sample_start_reach]) (simp add: system_step.accept sample_start_fields)

lemma sample_accepted_fields:
  "sy_sessions sample_accepted 0 = Some (snd (run None (new_session 0 10 None (sy_world sample_start))))"
  "w_manager (sy_world sample_accepted) = Some new_connection_manager"
  "w_rng (sy_world sample_accepted) = (\<lambda>_. Some 7)" "w_config (sy_world sample_accepted) = initial_config"
  "\<not> sv_stopped (sy_server sample_accepted)"
proof -
  have r: "w_rng (fst (run None (new_session r ht e w))) = w_rng w" "w_config (fst (run None (new_session r ht e w))) = w_config w"
    for r ht e w
    by (simp_all add: run_def new_session_def expires_after_def check_deadline_def do_accept_def on_session_def)
  have n: "w_rng (note_count x w) = w_rng w" "w_config (note_count x w) = w_config w" for x w
    by (simp_all add: note_count_def with_metrics_def)
  show "sy_sessions sample_accepted 0 = Some (snd (run None (new_session 0 10 None (sy_world sample_start))))"
    "w_manager (sy_world sample_accepted) = Some new_connection_manager"
    "w_rng (sy_world sample_accepted) = (\<lambda>_. Some 7)" "w_config (sy_world sample_accepted) = initial_config"
    "\<not> sv_stopped (sy_server sample_accepted)"
    by (simp_all add: sample_accepted_def accept_completes_def on_server_accept_def accept_arrived_def Let_def
        sample_start_fields open_connection_def on_server_def start_accept_def r n)
qed

lemma step_session_reach:
  "system_reach ref_json sy \<Longrightarrow> sy_sessions sy 0 = Some s \<Longrightarrow> enabled ev (sy_world sy, s) \<Longrightarrow>
     system_reach ref_json (step_session ev sy)"
  by (auto simp: step_session_def intro: system_reach.step system_step.session)

lemma sample_waiting_facts:
  "system_reach ref_json sample_waiting" "\<not> sv_stopped (sy_server sample_waiting)"
  "\<exists>s. sy_sessions sample_waiting 0 = Some s \<and> se_state s = Unauthenticated \<and> se_session_id s = [] \<and>
     \<not> se_close_requested s"
proof -
  note a = sample_accepted_fields
  show "system_reach ref_json sample_waiting" unfolding sample_waiting_def
    by (rule step_session_reach [OF sample_accepted_reach a(1)]) (simp add: enabled_def Let_def)
  show "\<not> sv_stopped (sy_server sample_waiting)"
    "\<exists>s. sy_sessions sample_waiting 0 = Some s \<and> se_state s = Unauthenticated \<and> se_session_id s = [] \<and>
       \<not> se_close_requested s"
    by (simp_all add: sample_waiting_def step_session_def a session_event_def Let_def perform_def on_accept_def
        do_read_def say_def)
qed

lemma sample_joined_facts:
  "system_reach ref_json sample_joined" "\<not> sv_stopped (sy_server sample_joined)"
  "\<exists>s. sy_sessions sample_joined 0 = Some s \<and> se_state s = Authenticated \<and> se_session_id s = joined_sid"
proof -
  note a = sample_accepted_fields
  define s2 where "s2 = (snd (run None (new_session 0 10 None (sy_world sample_start))))\<lparr>se_accepting := 0, se_reading := 1\<rparr>"
  note w = sample_waiting_facts(1)
  have f: "sy_sessions sample_waiting 0 = Some s2" "\<not> sv_stopped (sy_server sample_waiting)"
    "w_manager (sy_world sample_waiting) = Some new_connection_manager"
    "w_rng (sy_world sample_waiting) = (\<lambda>_. Some 7)" "w_config (sy_world sample_waiting) = initial_config"
    by (simp_all add: sample_waiting_def step_session_def a session_event_def Let_def perform_def on_accept_def
        do_read_def s2_def say_def)
  have j: "joinable (sy_world sample_waiting, s2)"
    using f by (simp add: joinable_def s2_def PLACEHOLDER_STACK_def)
  have "length (enc sample_hello) = 154" by code_simp
  moreover have "se_read_message_max s2 = 65536"
    unfolding s2_def by (subst started) (simp add: sample_start_fields initial_config_def config_defs get_max_message_size_def)
  ultimately have "enabled (Read_done No_error 154 (enc sample_hello)) (sy_world sample_waiting, s2)"
    by (simp add: enabled_def Let_def) (simp add: s2_def)
  then show "system_reach ref_json sample_joined"
    unfolding sample_joined_def by (rule step_session_reach [OF w f(1)])
  show "\<exists>s. sy_sessions sample_joined 0 = Some s \<and> se_state s = Authenticated \<and> se_session_id s = joined_sid"
    and "\<not> sv_stopped (sy_server sample_joined)"
    using joins(1,3) [OF j] f(1,2) by (simp_all add: sample_joined_def step_session_def session_event_def Let_def)
qed

subsection \<open>Properties\<close>

text \<open>C1: The session table and the sessions agree in every reachable state: an entry always belongs to
  an existing session that is not closed and has exactly that id, and until the server stops every
  session that has an id and is not closed has its entry. Nothing leaks and nothing dangles.\<close>

theorem table_mirrors_sessions:
  assumes "system_reach J sy"
  shows "\<exists>m. w_manager (sy_world sy) = Some m \<and> session_count m \<le> 1000 \<and>
     (\<forall>x r. get_session x m = Some r \<longrightarrow>
        (\<exists>s. sy_sessions sy r = Some s \<and> se_session_id s = x \<and> x \<noteq> [] \<and> se_state s \<noteq> Closed)) \<and>
     (\<not> sv_stopped (sy_server sy) \<longrightarrow>
        (\<forall>r s. sy_sessions sy r = Some s \<and> se_session_id s \<noteq> [] \<and> se_state s \<noteq> Closed \<longrightarrow>
           get_session (se_session_id s) m = Some r))"
proof -
  have k: "system_ok J sy" by (rule system_reach_ok [OF assms])
  then obtain m where m: "w_manager (sy_world sy) = Some m" "manager_ok m"
    by (auto simp: system_ok_def world_ok_def)
  have f: "table_of sy x = get_session x m" for x by (simp add: table_of_def m get_session_def)
  have "get_session [] m = None" using manager_no_empty [OF m(2)] by (simp add: get_session_def)
  then have "x \<noteq> []" if "get_session x m = Some r" for x r using that by auto
  then show ?thesis
    using k m by (auto simp: system_ok_def entries_ok_def entries_complete_def f manager_ok_def session_count_def
        MAX_CONNECTIONS_def)
qed

theorem table_mirrors_sessions_witness:
  "\<exists>m. w_manager (sy_world sample_joined) = Some m \<and> get_session joined_sid m = Some 0"
proof -
  obtain s where s: "sy_sessions sample_joined 0 = Some s" "se_state s = Authenticated" "se_session_id s = joined_sid"
    using sample_joined_facts(3) by blast
  obtain m where m: "w_manager (sy_world sample_joined) = Some m"
    "\<forall>r s. sy_sessions sample_joined r = Some s \<and> se_session_id s \<noteq> [] \<and> se_state s \<noteq> Closed \<longrightarrow>
       get_session (se_session_id s) m = Some r"
    using table_mirrors_sessions [OF sample_joined_facts(1)] sample_joined_facts(2) by blast
  have "joined_sid \<noteq> []" by (simp add: joined_sid_def)
  then have "get_session joined_sid m = Some 0" using m(2) [rule_format, of 0 s] s by simp
  then show ?thesis using m(1) by blast
qed

text \<open>Until the server stops there are never more than 1000 authenticated sessions.\<close>

theorem at_most_1000_clients:
  assumes "system_reach J sy" and "\<not> sv_stopped (sy_server sy)"
  shows "finite {r. \<exists>s. sy_sessions sy r = Some s \<and> se_state s = Authenticated} \<and>
     card {r. \<exists>s. sy_sessions sy r = Some s \<and> se_state s = Authenticated} \<le> 1000"
proof -
  have k: "system_ok J sy" by (rule system_reach_ok [OF assms(1)])
  then obtain m where m: "w_manager (sy_world sy) = Some m" "manager_ok m"
    by (auto simp: system_ok_def world_ok_def)
  have d: "finite (dom (table_of sy))" "card (dom (table_of sy)) \<le> 1000"
    using registry.card_bound [OF m(2)] by (simp_all add: table_of_def m MAX_CONNECTIONS_def)
  let ?C = "{r. \<exists>s. sy_sessions sy r = Some s \<and> se_state s = Authenticated}"
  have "?C \<subseteq> (\<lambda>x. the (table_of sy x)) ` dom (table_of sy)"
  proof
    fix r assume "r \<in> ?C"
    then obtain s where s: "sy_sessions sy r = Some s" "se_state s = Authenticated" by blast
    have "se_session_id s \<noteq> []"
      using reach_data [OF system_session(3) [OF k s(1), of "sy_world sy"]] s(2) by (simp add: data_ok_def)
    then have "table_of sy (se_session_id s) = Some r"
      using k assms(2) s by (simp add: system_ok_def entries_complete_def)
    then show "r \<in> (\<lambda>x. the (table_of sy x)) ` dom (table_of sy)" by force
  qed
  then show ?thesis
    using d card_mono [OF finite_imageI [OF d(1)]] card_image_le [OF d(1), of "\<lambda>x. the (table_of sy x)"]
      finite_subset [OF _ finite_imageI [OF d(1)]] by (meson order.trans)
qed

theorem at_most_1000_clients_witness:
  "card {r. \<exists>s. sy_sessions sample_joined r = Some s \<and> se_state s = Authenticated} \<le> 1000"
  using at_most_1000_clients [OF sample_joined_facts(1,2)] by simp



end
