(* ===== verification/Session_Failures.thy ===== *)
theory Session_Failures
  imports Session_Commands System_Correct
begin

text \<open>
  A failure the code does not recover from: a connection is lost and there is no memory for the log
  line. The session is closed and keeps its entry in the session table.
\<close>

lemma closed_keeps_table:
  assumes "se_state (snd st) = Closed" "enabled ev st"
  shows "se_state (snd (perform J ev st)) = Closed \<and> w_manager (fst (perform J ev st)) = w_manager (fst st)"
proof -
  obtain w s where st: "st = (w, s)" by (cases st)
  have c: "se_state s = Closed" using assms(1) by (simp add: st)
  have d: "se_state (snd (do_close (w', s'))) = Closed" "w_manager (fst (do_close (w', s'))) = w_manager w'"
    if "se_state s' = Closed" for w' s'
    using that by (simp_all add: do_close_state do_close_manager)
  show ?thesis
  proof (cases ev)
    case Run_task
    then obtain t ts where "se_tasks s = t # ts" using assms(2) by (cases "se_tasks s") (simp_all add: st enabled_def)
    then show ?thesis
      using Run_task c d by (cases t) (simp_all add: perform_def st run_task_def do_write_def close_body_def)
  next
    case (Write_done ec b)
    then show ?thesis
      using c d by (cases ec) (auto simp: perform_def st on_write_def on_session_def say_def Let_def frame_simps)
  next
    case Timer_handler
    then obtain ec ecs where "se_timer_done s = ec # ecs"
      using assms(2) by (cases "se_timer_done s") (simp_all add: st enabled_def)
    then show ?thesis
      using Timer_handler c
      by (auto simp: perform_def st on_deadline_def Let_def split: error_code.split error_kind.split)
  next
    case (Accept_done ec)
    then show ?thesis using c by (cases ec) (simp_all add: perform_def st on_accept_def)
  next
    case (Ws_close_done ec)
    then show ?thesis
      using c by (cases ec) (simp_all add: perform_def st on_ws_close_def on_session_def say_def frame_simps)
  next
    case (External_send m)
    then show ?thesis using c by (simp add: perform_def st send_def queue_message_def)
  qed (use c in \<open>simp_all add: perform_def st on_read_def do_write_lost_def timer_completes_def
      close_from_outside_def Let_def frame_simps\<close>)
qed

definition own_step :: "'j ext \<Rightarrow> st \<Rightarrow> st \<Rightarrow> bool" where
  "own_step J st st' \<longleftrightarrow> (\<exists>ev. enabled ev st \<and> st' = perform J ev st)"

text \<open>C31: The comment in the handler of a lost connection says that a session whose disconnection could
  not be logged is unregistered when it is destroyed. It is not: whatever the session does afterwards,
  it stays closed, its entry stays in the table and counts toward the connection limit, and its
  destructor, which only unregisters sessions that are not closed, leaves the table alone too.
  With memory for the log line the entry is gone at once.\<close>

theorem unlogged_loss_leaks_entry:
  assumes "w_manager (fst st) = Some m" "manager_ok m" "get_session (se_session_id (snd st)) m = Some r"
    and "(own_step J)\<^sup>*\<^sup>* (connection_lost_unlogged st) st'"
  shows "se_state (snd st') = Closed \<and> w_manager (fst st') = Some m \<and> destroy st' = fst st' \<and>
    (\<exists>m'. w_manager (fst (connection_lost l1 l2 st)) = Some m' \<and> get_session (se_session_id (snd st)) m' = None)"
proof -
  have "se_state (snd st') = Closed \<and> w_manager (fst st') = Some m"
    using assms(4)
  proof (induction rule: rtranclp_induct)
    case base
    show ?case using assms(1) by (simp add: connection_lost_unlogged_def timer_cancel_def)
  next
    case (step st1 st2)
    then show ?case using closed_keeps_table [of st1 _ J] by (auto simp: own_step_def)
  qed
  moreover have "destroy st' = fst st'" if "se_state (snd st') = Closed"
    using that by (simp add: destroy_def timer_cancel_def)
  moreover have "se_session_id (snd st) \<noteq> []"
    using assms(2,3) manager_no_empty [OF assms(2)] by (auto simp: get_session_def)
  then have "w_manager (fst (connection_lost l1 l2 st)) = Some (snd (unregister_session (se_session_id (snd st)) m))"
    using assms(1) by (simp add: connection_lost_def Let_def timer_cancel_def manager_unregister)
  ultimately show ?thesis
    using unregister_table [OF assms(2)] by (simp add: get_session_def)
qed

theorem unlogged_loss_leaks_entry_witness:
  "\<exists>s m. sy_sessions sample_joined 0 = Some s \<and> get_session joined_sid m = Some 0 \<and>
     (let st = perform ref_json External_close (connection_lost_unlogged (sy_world sample_joined, s))
      in w_manager (fst st) = Some m \<and> se_state (snd st) = Closed \<and> destroy st = fst st)"
proof -
  obtain s where s: "sy_sessions sample_joined 0 = Some s" "se_state s = Authenticated" "se_session_id s = joined_sid"
    using sample_joined_facts(3) by blast
  have k: "system_ok ref_json sample_joined" "entries_complete sample_joined"
    using system_reach_ok [OF sample_joined_facts(1)] sample_joined_facts(2) by (simp_all add: system_ok_def)
  then obtain m where m: "w_manager (sy_world sample_joined) = Some m" "manager_ok m"
    by (auto simp: system_ok_def world_ok_def)
  have "joined_sid \<noteq> []" by (simp add: joined_sid_def)
  then have "table_of sample_joined joined_sid = Some 0"
    using k(2) s unfolding entries_complete_def by (metis conn_state.distinct(5))
  then have g: "get_session joined_sid m = Some 0" by (simp add: table_of_def m(1) get_session_def)
  define st where "st = connection_lost_unlogged (sy_world sample_joined, s)"
  have "(own_step ref_json)\<^sup>*\<^sup>* st (perform ref_json External_close st)"
    unfolding own_step_def by (intro r_into_rtranclp exI [of _ External_close]) (simp add: enabled_def)
  then show ?thesis
    using unlogged_loss_leaks_entry [of "(sy_world sample_joined, s)" m 0 ref_json, folded st_def] m s g
    by (intro exI [of _ s] exI [of _ m]) (simp add: Let_def st_def [symmetric])
qed

end
