(* ===== verification/Session_Protocol.thy ===== *)
theory Session_Protocol
  imports Session_Commands
begin

text \<open>
  What the server promises a client, as a function of the text it sends: a reference definition of
  the protocol that knows nothing of handlers, tasks, writes under way, envelopes parsed once or unsigned
  differences, and the proof that the handlers of the session implement it on every branch, errors
  included. The verdict (\<open>judge_hello\<close>, \<open>judge\<close>, \<open>screen\<close>) says what a
  text is; \<open>enact\<close> says what a verdict does to what a client can tell of its session
  (\<open>standing\<close>).
\<close>

subsection \<open>The reference\<close>

text \<open>What a client, and the table its seat is at, can tell of a session.\<close>

record standing =
  sg_id :: string
  sg_state :: conn_state
  sg_sequence :: int
  sg_stack :: int
  sg_answers :: "string list"
  sg_closing :: bool

definition standing :: "session \<Rightarrow> standing" where
  "standing s = \<lparr>sg_id = se_session_id s, sg_state = se_state s, sg_sequence = sint (se_last_sequence_number s),
     sg_stack = sint (se_current_stack s), sg_answers = se_queued s, sg_closing = se_close_requested s\<rparr>"

datatype verdict =
    Welcome string
  | Accept_action int
  | Grant_reload int
  | Say_goodbye
  | Refuse string string  \<comment> \<open>error code and message\<close>

text \<open>The first message of a client has to be a handshake of the server's version, and there has to be a
  seat for it.\<close>

definition judge_hello :: "'j ext \<Rightarrow> world \<Rightarrow> session_ref \<Rightarrow> string \<Rightarrow> verdict" where
  "judge_hello J w self message =
     (case snd (parse_handshake J message) of
        None \<Rightarrow> Refuse MALFORMED_HANDSHAKE ''Expected HANDSHAKE message''
      | Some hm \<Rightarrow>
          if hm_protocol_version hm \<noteq> PROTOCOL_VERSION
          then Refuse INCOMPATIBLE_VERSION (''Expected '' @ PROTOCOL_VERSION)
          else case w_manager w of
              None \<Rightarrow> Refuse PROTOCOL_ERROR ''Connection manager not available''
            | Some m \<Rightarrow>
                (let sid = fst (snd (register_session (w_rng w) (Some self) m)) in
                 if sid = [] then Refuse PROTOCOL_ERROR ''Failed to generate unique session ID''
                 else Welcome sid))"

text \<open>The three commands name the session they are for; an action is for the next few sequence
  numbers only.\<close>

definition own :: "string \<Rightarrow> string \<Rightarrow> verdict \<Rightarrow> verdict" where
  "own sid named v = (if named = sid then v else Refuse PROTOCOL_ERROR ''Session ID mismatch'')"

definition judge_sequence :: "int \<Rightarrow> int \<Rightarrow> int \<Rightarrow> verdict" where
  "judge_sequence prev gap seq =
     (if seq \<le> prev then Refuse PROTOCOL_ERROR ''Invalid sequence number - possible replay attack''
      else if seq > prev + gap then Refuse PROTOCOL_ERROR ''Sequence number gap too large''
      else Accept_action seq)"

definition judge :: "'j ext \<Rightarrow> string \<Rightarrow> int \<Rightarrow> int \<Rightarrow> string \<Rightarrow> verdict" where
  "judge J sid prev gap message =
     (case snd (extract_message_type J message) of
        None \<Rightarrow> Refuse MALFORMED_MESSAGE ''Missing or invalid message_type field''
      | Some ty \<Rightarrow>
          if ty = ACTION then
            (case snd (parse_action J message) of
               None \<Rightarrow> Refuse MALFORMED_MESSAGE ''Invalid ACTION message format''
             | Some a \<Rightarrow> own sid (am_session_id a) (judge_sequence prev gap (sint (am_sequence_number a))))
          else if ty = RELOAD_REQUEST then
            (case snd (parse_reload_request J message) of
               None \<Rightarrow> Refuse MALFORMED_MESSAGE ''Invalid RELOAD_REQUEST format''
             | Some r \<Rightarrow> own sid (rq_session_id r) (Grant_reload (sint (rq_requested_amount r))))
          else if ty = DISCONNECT then
            (case snd (parse_disconnect J message) of
               None \<Rightarrow> Refuse MALFORMED_MESSAGE ''Invalid DISCONNECT format''
             | Some d \<Rightarrow> own sid (dm_session_id d) Say_goodbye)
          else Refuse PROTOCOL_ERROR (''Unknown message type: '' @ ty))"

text \<open>The end of a session: the last answers, if there is room for them, are still written before
  it is closed; without anything to write it is closed at once.\<close>

definition room :: "session \<Rightarrow> bool" where
  "room s \<longleftrightarrow> length (se_write_queue s) < 100"

definition dismiss :: "session \<Rightarrow> string list \<Rightarrow> standing" where
  "dismiss s answers =
     (let said = (if room s then answers else []) in
      (standing s)\<lparr>sg_state := (if se_writing s \<or> said \<noteq> [] then se_state s else Closed),
        sg_answers := se_queued s @ said, sg_closing := True\<rparr>)"

text \<open>An error the client is told of; one whose text cannot be serialised is not sent.\<close>

definition error_text :: "'j ext \<Rightarrow> string \<Rightarrow> string \<Rightarrow> string \<Rightarrow> string list" where
  "error_text J sid error_code message =
     (case serialize_error J \<lparr>em_error_code = error_code, em_message = message,
             em_session_id = (if sid \<noteq> [] then Some sid else None)\<rparr> of
        Inl e \<Rightarrow> []
      | Inr answer \<Rightarrow> [answer])"

definition enact :: "'j ext \<Rightarrow> session \<Rightarrow> verdict \<Rightarrow> standing" where
  "enact J s v =
     (case v of
        Welcome sid \<Rightarrow>
          (let s1 = s\<lparr>se_session_id := sid\<rparr> in
           case serialize_handshake_response J (plain_welcome\<lparr>hr_session_id := sid\<rparr>) of
             Inl e \<Rightarrow> dismiss s1 (error_text J sid PROTOCOL_ERROR ''Internal server error'')
           | Inr reply \<Rightarrow>
               if room s then (standing s1)\<lparr>sg_state := Authenticated, sg_answers := se_queued s @ [reply]\<rparr>
               else dismiss s1 [])
      | Accept_action seq \<Rightarrow> (standing s)\<lparr>sg_sequence := seq\<rparr>
      | Say_goodbye \<Rightarrow> dismiss s []
      | Refuse error_code message \<Rightarrow> dismiss s (error_text J (se_session_id s) error_code message)
      | Grant_reload amount \<Rightarrow>
          (let stack = min (sint (se_current_stack s) + amount) (10 ^ 15) in
           case serialize_reload_response J \<lparr>rr_granted = True, rr_new_stack = word_of_int stack\<rparr> of
             Inl e \<Rightarrow> dismiss s (error_text J (se_session_id s) PROTOCOL_ERROR ''Internal server error'')
           | Inr reply \<Rightarrow>
               if room s then (standing s)\<lparr>sg_stack := stack, sg_answers := se_queued s @ [reply]\<rparr>
               else dismiss s []))"

text \<open>What every message is screened for before it is judged: too many messages in the window
  that ends now, and less than a second between two messages once there have been a hundred. The
  clock is read once for each.\<close>

definition screen :: "'j ext \<Rightarrow> world \<Rightarrow> session \<Rightarrow> string \<Rightarrow> verdict" where
  "screen J w s message =
     (let c = w_config w; gap = sint (get_max_sequence_gap c);
          recent = [x \<leftarrow> se_message_timestamps s. steady_now w - get_rate_limit_window c \<le> x] in
      if get_max_messages_per_window c \<le> length recent then Refuse SESSION_CLOSED ''Rate limit exceeded''
      else if 100 \<le> sint (se_message_count s) \<and> \<bar>steady_now (tick w) - se_last_activity s\<bar> < 1000000000
      then Refuse SESSION_CLOSED ''Suspicious activity detected''
      else if se_state s = Unauthenticated then judge_hello J w (se_self s) message
      else judge J (se_session_id s) (sint (se_last_sequence_number s)) gap message)"

subsection \<open>The handlers implement it\<close>

text \<open>A session that can be talked to.\<close>

definition attentive :: "session \<Rightarrow> bool" where
  "attentive s \<longleftrightarrow> is_open s \<and> \<not> se_close_initiated s \<and> data_ok s"

lemma attentive_reach:
  assumes "session_reach J st" "is_open (snd st)"
  shows "attentive (snd st)"
  using assms(2) reach_pipeline [OF assms(1)] reach_data [OF assms(1)]
  by (auto simp: attentive_def is_open_def write_pipeline_def pipeline_shape_def)

text \<open>Bookkeeping is not seen.\<close>

definition alike :: "session \<Rightarrow> session \<Rightarrow> bool" where
  "alike s s' \<longleftrightarrow> standing s' = standing s \<and> se_write_queue s' = se_write_queue s \<and>
     se_writing s' = se_writing s \<and> se_close_initiated s' = se_close_initiated s \<and> se_self s' = se_self s"

lemma alike_refl [simp, intro]: "alike s s"
  by (simp add: alike_def)

lemma alike_enact:
  assumes "alike s s'"
  shows "enact J s' v = enact J s v" "dismiss s' answers = dismiss s answers" "standing s' = standing s"
proof -
  have eq: "se_state s' = se_state s" "sint (se_current_stack s') = sint (se_current_stack s)"
    "se_queued s' = se_queued s" "room s' = room s"
    using assms by (simp_all add: alike_def standing_def room_def)
  have sg: "standing s' = standing s" "se_session_id s' = se_session_id s" "se_writing s' = se_writing s"
    "standing (s'\<lparr>se_session_id := x\<rparr>) = standing (s\<lparr>se_session_id := x\<rparr>)" for x
    using assms by (simp_all add: alike_def standing_def)
  show "standing s' = standing s" by (fact sg)
  have d: "dismiss s' x = dismiss s x" for x
    unfolding dismiss_def eq sg by (rule refl)
  then show "dismiss s' answers = dismiss s answers" .
  have d': "dismiss (s'\<lparr>se_session_id := y\<rparr>) x = dismiss (s\<lparr>se_session_id := y\<rparr>) x" for x y
    using eq sg by (simp add: dismiss_def room_def)
  show "enact J s' v = enact J s v"
    unfolding enact_def Let_def d d' eq sg by (rule refl)
qed

lemma close_dismisses:
  assumes "is_open (snd st)" "\<not> se_close_initiated (snd st)"
  shows "standing (snd (close st)) = dismiss (snd st) []"
proof (cases "se_writing (snd st)")
  case True
  then show ?thesis using assms
    by (simp add: close_def close_body_def Let_def is_open_def dismiss_def standing_def)
next
  case False
  then show ?thesis using assms
    by (simp add: close_def close_body_def do_close_def timer_cancel_def Let_def is_open_def dismiss_def standing_def
        split: option.split)
qed

lemma dismiss_no_room: "\<not> room s \<Longrightarrow> dismiss s answers = dismiss s []"
  by (simp add: dismiss_def)

lemma dismiss_enqueue: "is_open s \<Longrightarrow> room s \<Longrightarrow> dismiss (enqueue m s) [] = dismiss s [m]"
  by (simp add: dismiss_def standing_def enqueue_def Let_def)

lemma refuse_dismisses:
  assumes "is_open (snd st)" "\<not> se_close_initiated (snd st)"
  shows "standing (snd (refuse J l c m st)) = dismiss (snd st) (error_text J (se_session_id (snd st)) c m)"
proof -
  define st1 where "st1 = say (log_error l) st"
  define err where "err = \<lparr>em_error_code = c, em_message = m,
      em_session_id = (if se_session_id (snd st) \<noteq> [] then Some (se_session_id (snd st)) else None)\<rparr>"
  have st1: "snd st1 = snd st" by (simp add: st1_def)
  have c: "standing (snd (close st2)) = dismiss (snd st2) []"
    if "is_open (snd st2)" "\<not> se_close_initiated (snd st2)" for st2
    using close_dismisses that by blast
  show ?thesis
  proof (cases "serialize_error J err")
    case (Inl e)
    then have "refuse J l c m st = close st1"
      by (simp add: refuse_def send_protocol_error_def Let_def st1_def err_def)
    then show ?thesis using c [of st1] assms(1,2) st1 Inl by (simp add: error_text_def err_def)
  next
    case (Inr answer)
    note e = Inr [unfolded err_def]
    show ?thesis
    proof (cases "room (snd st)")
      case True
      then have s: "send answer st1 = (True, fst st1, enqueue answer (snd st))"
        using send_result [of answer st1] send_accepted [of answer st1] assms(1) st1
        by (simp add: prod_eq_iff room_def MAX_WRITE_QUEUE_SIZE_def)
      have "refuse J l c m st = close (fst st1, enqueue answer (snd st))"
        using e s by (simp add: refuse_def send_protocol_error_def Let_def st1 flip: st1_def)
      then show ?thesis
        using c [of "(fst st1, enqueue answer (snd st))"] assms True e
        by (simp add: error_text_def dismiss_enqueue) (simp add: enqueue_def)
    next
      case False
      then have f: "\<not> fst (send answer st1)"
        using send_result [of answer st1] st1 by (simp add: room_def MAX_WRITE_QUEUE_SIZE_def)
      then obtain w2 where s: "send answer st1 = (False, w2, snd st)"
        using send_rejected [OF f] st1 by (cases "send answer st1") auto
      define st2 where "st2 = on_session (\<lambda>s. s\<lparr>se_metrics := increment_errors 1 (se_metrics s)\<rparr>)
          (say (log_error (''[WebSocketSession] Failed to send protocol error for session '' @
             sanitize_session_id (se_session_id (snd st1)))) (w2, snd st))"
      have "refuse J l c m st = close st2"
        unfolding refuse_def send_protocol_error_def Let_def st1_def [symmetric] st2_def st1 e by (simp add: s)
      moreover have "alike (snd st) (snd st2)" by (simp add: st2_def alike_def standing_def)
      moreover have "is_open (snd st2)" "\<not> se_close_initiated (snd st2)"
        using assms(1,2) by (simp_all add: st2_def is_open_def)
      ultimately show ?thesis using c [of st2] alike_enact(2) [of "snd st" "snd st2"]
          dismiss_no_room [OF False] by metis
    qed
  qed
qed

text \<open>What a handler leaves, the exception it may end with answered as \<open>on_read\<close> does.\<close>

definition outcome :: "'j ext \<Rightarrow> exn option \<times> st \<Rightarrow> standing" where
  "outcome J r =
     (case r of
        (Some e, st) \<Rightarrow> standing (snd (refuse J (''[WebSocketSession] Unhandled exception in message handler: '' @ what e)
            PROTOCOL_ERROR ''Internal server error'' st))
      | (None, st) \<Rightarrow> standing (snd st))"

lemma outcome_simps:
  "outcome J (None, st) = standing (snd st)"
  "outcome J (Some e, st) = standing (snd (refuse J (''[WebSocketSession] Unhandled exception in message handler: '' @ what e)
     PROTOCOL_ERROR ''Internal server error'' st))"
  by (simp_all add: outcome_def)

lemma handle_message_outcome:
  "standing (snd (handle_message J current message st)) = outcome J
     (if current = Unauthenticated then handle_handshake_message J message st
      else handle_authenticated_message J message st)"
proof -
  have r: "standing (snd (do_read (expires_after d st1))) = standing (snd st1)" for d st1
    by (simp add: do_read_def expires_after_def timer_cancel_def standing_def Let_def)
  obtain e st1 where h: "(if current = Unauthenticated then handle_handshake_message J message st
      else handle_authenticated_message J message st) = (e, st1)"
    by (rule prod.exhaust)
  show ?thesis
    by (cases e) (simp_all add: handle_message_def h outcome_simps r)
qed

lemma attentiveD:
  assumes "attentive s"
  shows "is_open s" "\<not> se_close_initiated s" "data_ok s"
  using assms by (simp_all add: attentive_def)

lemma enact_simps:
  "enact J s (Accept_action n) = (standing s)\<lparr>sg_sequence := n\<rparr>" "enact J s Say_goodbye = dismiss s []"
  "enact J s (Refuse c m) = dismiss s (error_text J (se_session_id s) c m)"
  by (simp_all add: enact_def)

lemma refusal:
  assumes "attentive (snd st)"
  shows "standing (snd (refuse J l c m st)) = enact J (snd st) (Refuse c m)"
  using refuse_dismisses attentiveD(1,2) [OF assms] by (simp add: enact_def)

text \<open>The three checks of an id come down to one, for an id that was parsed.\<close>

lemma validated:
  assumes "attentive (snd st)" "well_formed_session_id named"
  obtains "named = se_session_id (snd st)" "validate_session_id J named st = (True, st)" "\<And>v. own (se_session_id (snd st)) named v = v"
  | st' where "validate_session_id J named st = (False, st')"
      "\<And>v. standing (snd st') = enact J (snd st) (own (se_session_id (snd st)) named v)"
proof (cases "named = se_session_id (snd st)")
  case True
  then show ?thesis using that(1) validate_own_id [OF assms(2), of st J] by (simp add: own_def)
next
  case False
  define line where "line = ''[WebSocketSession] Session ID mismatch: expected '' @
      sanitize_session_id (se_session_id (snd st)) @ '', got '' @ sanitize_session_id named"
  have "named \<noteq> []" "\<not> MAX_SESSION_ID_LENGTH < length named"
    using well_formed_session_id_nonempty [OF assms(2)] well_formed_length [OF assms(2)]
    by (simp_all add: MAX_SESSION_ID_LENGTH_def)
  then have "validate_session_id J named st =
      (False, refuse J line PROTOCOL_ERROR ''Session ID mismatch'' st)"
    unfolding validate_session_id_def Let_def line_def using False by (simp del: append_Cons)
  moreover have "own (se_session_id (snd st)) named v = Refuse PROTOCOL_ERROR ''Session ID mismatch''" for v
    using False by (simp add: own_def)
  ultimately show ?thesis using that(2) refusal [OF assms(1)] by metis
qed

lemma apply_action_standing:
  assumes "attentive (snd st)" "config_valid (w_config (fst st))"
  shows "standing (snd (apply_action J sid a st)) =
     enact J (snd st) (judge_sequence (sint (se_last_sequence_number (snd st)))
       (sint (get_max_sequence_gap (w_config (fst st)))) (sint (am_sequence_number a)))"
proof -
  define prev seq gap where "prev = se_last_sequence_number (snd st)" and "seq = am_sequence_number a"
    and "gap = get_max_sequence_gap (w_config (fst st))"
  have "0 \<le> sint gap"
    using assms(2) by (simp add: gap_def config_valid_def settings_in_range_def in_srange_def get_max_sequence_gap_def)
  then have g: "seq - prev > gap \<longleftrightarrow> sint seq - sint prev > sint gap" if "sint prev < sint seq"
    using sequence_gap [OF _ that] attentiveD(3) [OF assms(1)] by (simp add: data_ok_def prev_def)
  have r: "standing (snd (refuse J l c m st)) = enact J (snd st) (Refuse c m)" for l c m
    by (rule refusal [OF assms(1)])
  have a: "enact J (snd st) (Accept_action n) = (standing (snd st))\<lparr>sg_sequence := n\<rparr>" for n
    by (simp add: enact_def)
  show ?thesis
    unfolding apply_action_def Let_def judge_sequence_def prev_def [symmetric] seq_def [symmetric] gap_def [symmetric]
    using g by (simp add: r a not_le) (simp add: standing_def)
qed

lemma apply_reload_standing:
  assumes "attentive (snd st)" "amount_in_bounds (rq_requested_amount r)"
  shows "outcome J (apply_reload J sid r st) = enact J (snd st) (Grant_reload (sint (rq_requested_amount r)))"
proof -
  define st1 where "st1 = say (log_message (''[WebSocketSession] Validated RELOAD_REQUEST from '' @
      sanitize_session_id sid)) st"
  define n where "n = min (sint (se_current_stack (snd st)) + sint (rq_requested_amount r)) (10 ^ 15)"
  define k :: i64 where "k = word_of_int n"
  have st1: "snd st1 = snd st" by (simp add: st1_def)
  have n: "sint (smin (se_current_stack (snd st) + rq_requested_amount r) (word_of_int MAX_AMOUNT)) = n"
    using reloaded_stack [OF _ _ assms(2), of "se_current_stack (snd st)"] attentiveD(3) [OF assms(1)]
    by (simp add: data_ok_def n_def MAX_AMOUNT_def)
  then have k: "smin (se_current_stack (snd st) + rq_requested_amount r) (word_of_int MAX_AMOUNT) = k" "sint k = n"
    by (simp_all add: k_def flip: n)
  have en: "enact J (snd st) (Grant_reload (sint (rq_requested_amount r))) =
      (case serialize_reload_response J \<lparr>rr_granted = True, rr_new_stack = k\<rparr> of
         Inl e \<Rightarrow> dismiss (snd st) (error_text J (se_session_id (snd st)) PROTOCOL_ERROR ''Internal server error'')
       | Inr reply \<Rightarrow>
           if room (snd st) then (standing (snd st))\<lparr>sg_stack := n, sg_answers := se_queued (snd st) @ [reply]\<rparr>
           else dismiss (snd st) [])"
    unfolding enact_def Let_def n_def k_def by simp
  show ?thesis
  proof (cases "serialize_reload_response J \<lparr>rr_granted = True, rr_new_stack = k\<rparr>")
    case (Inl e)
    then have "apply_reload J sid r st = (Some e, st1)"
      using k(1) st1 unfolding apply_reload_def Let_def st1_def [symmetric] by simp
    then show ?thesis
      using refusal [of st1 J] assms(1) Inl st1
      by (simp add: outcome_simps en enact_simps)
  next
    case (Inr reply)
    show ?thesis
    proof (cases "room (snd st)")
      case True
      then have "send reply st1 = (True, fst st1, enqueue reply (snd st))"
        using send_result [of reply st1] send_accepted [of reply st1] attentiveD(1) [OF assms(1)] st1
        by (simp add: prod_eq_iff room_def MAX_WRITE_QUEUE_SIZE_def)
      then have "fst (apply_reload J sid r st) = None"
        using k(1) st1 Inr unfolding apply_reload_def Let_def st1_def [symmetric] by simp
      moreover have "snd (snd (apply_reload J sid r st)) = (enqueue reply (snd st))\<lparr>se_current_stack := k\<rparr>"
        using reload_granted [OF attentiveD(1) [OF assms(1)] _ k(1) Inr] True by (simp add: room_def)
      moreover have "standing ((enqueue reply (snd st))\<lparr>se_current_stack := k\<rparr>) =
          (standing (snd st))\<lparr>sg_stack := n, sg_answers := se_queued (snd st) @ [reply]\<rparr>"
        by (simp add: standing_def enqueue_def k(2))
      ultimately show ?thesis
        using Inr True by (cases "apply_reload J sid r st") (simp add: outcome_simps en)
    next
      case False
      then have f: "\<not> fst (send reply st1)"
        using send_result [of reply st1] st1 by (simp add: room_def MAX_WRITE_QUEUE_SIZE_def)
      then obtain w2 where s: "send reply st1 = (False, w2, snd st)"
        using send_rejected [OF f] st1 by (cases "send reply st1") auto
      define line where "line = log_error (''[WebSocketSession] Failed to send RELOAD_RESPONSE to '' @
          sanitize_session_id sid)"
      have "apply_reload J sid r st = (None, close (say line (w2, snd st)))"
        using k(1) st1 Inr s unfolding apply_reload_def Let_def st1_def [symmetric] line_def [symmetric] by simp
      moreover have "standing (snd (close (say line (w2, snd st)))) = dismiss (snd st) []"
        using close_dismisses [of "say line (w2, snd st)"] attentiveD(1,2) [OF assms(1)] by simp
      ultimately show ?thesis
        using Inr False by (simp add: outcome_simps en)
    qed
  qed
qed

text \<open>The commands. What is logged on the way is not seen by the client.\<close>

lemma handle_action_outcome:
  assumes "attentive (snd st)" "config_valid (w_config (fst st))" "j_parse J message = Inr (ph_envelope_json h)"
  shows "outcome J (handle_action J h sid st) = enact J (snd st)
     (case snd (parse_action J message) of
        None \<Rightarrow> Refuse MALFORMED_MESSAGE ''Invalid ACTION message format''
      | Some a \<Rightarrow> own (se_session_id (snd st)) (am_session_id a)
          (judge_sequence (sint (se_last_sequence_number (snd st)))
             (sint (get_max_sequence_gap (w_config (fst st)))) (sint (am_sequence_number a))))"
proof -
  obtain reports r where p: "parse_action_from_envelope J (ph_envelope_json h) = (reports, r)"
    by (cases "parse_action_from_envelope J (ph_envelope_json h)")
  define st1 where "st1 = on_world (report reports) st"
  have st1: "snd st1 = snd st" "w_config (fst st1) = w_config (fst st)" by (simp_all add: st1_def)
  show ?thesis
  proof (cases r)
    case None
    then show ?thesis
      using refusal [of st1 J] assms(1) st1
      by (simp add: handle_action_def p Let_def outcome_simps parse_text_or_envelope [OF assms(3)] flip: st1_def
          del: append_Cons)
  next
    case (Some a)
    have wf: "well_formed_session_id (am_session_id a)"
      using parse_action_from_envelope_Some [of J "ph_envelope_json h" a] p Some by (simp add: action_acceptable_def)
    show ?thesis
      by (rule validated [of st1 "am_session_id a" J])
        (use assms(1,2) st1 wf apply_action_standing [of st1 J sid a] in
          \<open>simp_all add: handle_action_def p Some Let_def outcome_simps parse_text_or_envelope [OF assms(3)]
             flip: st1_def\<close>)
  qed
qed

lemma handle_reload_outcome:
  assumes "attentive (snd st)" "j_parse J message = Inr (ph_envelope_json h)"
  shows "outcome J (handle_reload_msg J h sid st) = enact J (snd st)
     (case snd (parse_reload_request J message) of
        None \<Rightarrow> Refuse MALFORMED_MESSAGE ''Invalid RELOAD_REQUEST format''
      | Some r \<Rightarrow> own (se_session_id (snd st)) (rq_session_id r) (Grant_reload (sint (rq_requested_amount r))))"
proof -
  obtain reports p where p: "parse_reload_from_envelope J (ph_envelope_json h) = (reports, p)"
    by (cases "parse_reload_from_envelope J (ph_envelope_json h)")
  define st1 where "st1 = on_world (report reports) st"
  have st1: "snd st1 = snd st" by (simp add: st1_def)
  show ?thesis
  proof (cases p)
    case None
    then show ?thesis
      using refusal [of st1 J] assms(1) st1
      by (simp add: handle_reload_msg_def p Let_def outcome_simps parse_text_or_envelope [OF assms(2)] flip: st1_def
          del: append_Cons)
  next
    case (Some r)
    have ok: "well_formed_session_id (rq_session_id r)" "amount_in_bounds (rq_requested_amount r)"
      using parse_reload_from_envelope_Some [of J "ph_envelope_json h" r] p Some by (simp_all add: reload_acceptable_def)
    show ?thesis
      by (rule validated [of st1 "rq_session_id r" J])
        (use assms(1) st1 ok apply_reload_standing [of st1 r J sid] in
          \<open>simp_all add: handle_reload_msg_def p Some Let_def outcome_simps parse_text_or_envelope [OF assms(2)]
             flip: st1_def\<close>)
  qed
qed

lemma handle_disconnect_outcome:
  assumes "attentive (snd st)" "j_parse J message = Inr (ph_envelope_json h)"
  shows "outcome J (handle_disconnect_msg J h sid st) = enact J (snd st)
     (case snd (parse_disconnect J message) of
        None \<Rightarrow> Refuse MALFORMED_MESSAGE ''Invalid DISCONNECT format''
      | Some d \<Rightarrow> own (se_session_id (snd st)) (dm_session_id d) Say_goodbye)"
proof -
  obtain reports p where p: "parse_disconnect_from_envelope J (ph_envelope_json h) = (reports, p)"
    by (cases "parse_disconnect_from_envelope J (ph_envelope_json h)")
  define st1 where "st1 = on_world (report reports) st"
  have st1: "snd st1 = snd st" by (simp add: st1_def)
  have c: "standing (snd (close (say l st1))) = enact J (snd st) Say_goodbye" for l
    using close_dismisses [of "say l st1"] attentiveD(1,2) [OF assms(1)] st1 by (simp add: enact_def)
  show ?thesis
  proof (cases p)
    case None
    then show ?thesis
      using refusal [of st1 J] assms(1) st1
      by (simp add: handle_disconnect_msg_def p Let_def outcome_simps parse_text_or_envelope [OF assms(2)]
          flip: st1_def del: append_Cons)
  next
    case (Some d)
    have wf: "well_formed_session_id (dm_session_id d)"
      using parse_disconnect_from_envelope_Some [of J "ph_envelope_json h" d] p Some
      by (simp add: disconnect_acceptable_def)
    show ?thesis
      by (rule validated [of st1 "dm_session_id d" J])
        (use assms(1) st1 wf c in
          \<open>simp_all add: handle_disconnect_msg_def p Some Let_def outcome_simps parse_text_or_envelope [OF assms(2)]
             flip: st1_def del: append_Cons\<close>)
  qed
qed

lemma authenticated_outcome:
  assumes "attentive (snd st)" "config_valid (w_config (fst st))"
  shows "outcome J (handle_authenticated_message J message st) = enact J (snd st)
     (judge J (se_session_id (snd st)) (sint (se_last_sequence_number (snd st)))
        (sint (get_max_sequence_gap (w_config (fst st)))) message)"
proof -
  obtain reports ho where e: "extract_message_type_and_json J message = (reports, ho)"
    by (cases "extract_message_type_and_json J message")
  define st1 where "st1 = on_world (report reports) st"
  have st1: "snd st1 = snd st" "w_config (fst st1) = w_config (fst st)" by (simp_all add: st1_def)
  have ty: "snd (extract_message_type J message) = map_option ph_message_type ho"
    by (simp add: extract_message_type_def e)
  have r: "outcome J (None, refuse J l c m st1) = enact J (snd st) (Refuse c m)" for l c m
    using refusal [of st1 J l c m] assms(1) st1(1) by (simp add: outcome_simps)
  show ?thesis
  proof (cases ho)
    case None
    then show ?thesis
      by (simp add: handle_authenticated_message_def e Let_def judge_def ty r flip: st1_def del: append_Cons)
  next
    case (Some h)
    have p: "j_parse J message = Inr (ph_envelope_json h)"
      and short: "trunc_field (ph_message_type h) 64 = ph_message_type h"
      using extract_message_type_and_json_Some [of J message h] e Some
      by (simp_all add: trunc_field_def MAX_MESSAGE_TYPE_LENGTH_def)
    note outs = handle_action_outcome [of st1 J message h] handle_reload_outcome [of st1 J message h]
      handle_disconnect_outcome [of st1 J message h]
    show ?thesis
      using outs(1) [OF _ _ p, unfolded st1] outs(2,3) [OF _ p, unfolded st1] assms st1 Some
      by (simp add: handle_authenticated_message_def e Let_def judge_def ty r short flip: st1_def del: append_Cons)
  qed
qed

text \<open>The handshake.\<close>

lemma answer_handshake_outcome:
  assumes "attentive (snd st)" "sid \<noteq> []" "snd st1 = (snd st)\<lparr>se_session_id := sid\<rparr>"
  shows "outcome J (answer_handshake J sid st1) = enact J (snd st) (Welcome sid)"
proof -
  have o: "is_open (snd st1)" "\<not> se_close_initiated (snd st1)" "room (snd st1) = room (snd st)"
    "se_queued (snd st1) = se_queued (snd st)" "se_session_id (snd st1) = sid"
    using attentiveD(1,2) [OF assms(1)] by (simp_all add: assms(3) is_open_def room_def)
  have en: "enact J (snd st) (Welcome sid) =
      (case serialize_handshake_response J (plain_welcome\<lparr>hr_session_id := sid\<rparr>) of
         Inl e \<Rightarrow> dismiss (snd st1) (error_text J sid PROTOCOL_ERROR ''Internal server error'')
       | Inr reply \<Rightarrow>
           if room (snd st1) then (standing (snd st1))\<lparr>sg_state := Authenticated, sg_answers := se_queued (snd st1) @ [reply]\<rparr>
           else dismiss (snd st1) [])"
    unfolding enact_def verdict.case Let_def o(3,4) unfolding assms(3) by (rule refl)
  show ?thesis
  proof (cases "serialize_handshake_response J (plain_welcome\<lparr>hr_session_id := sid\<rparr>)")
    case (Inl e)
    then have "answer_handshake J sid st1 = (Some e, st1)"
      unfolding answer_handshake_def Let_def plain_welcome_def by simp
    then show ?thesis
      using refuse_dismisses [OF o(1,2)] Inl o(5) by (simp add: outcome_simps en)
  next
    case (Inr reply)
    show ?thesis
    proof (cases "room (snd st1)")
      case True
      have "standing ((enqueue reply (snd st1))\<lparr>se_state := Authenticated\<rparr>) =
          (standing (snd st1))\<lparr>sg_state := Authenticated, sg_answers := se_queued (snd st1) @ [reply]\<rparr>"
        by (simp add: standing_def enqueue_def)
      then show ?thesis
        using answer_succeeds [OF Inr o(1)] True Inr
        by (simp add: outcome_simps en room_def MAX_WRITE_QUEUE_SIZE_def del: append_Cons)
    next
      case False
      then have f: "\<not> fst (send reply st1)"
        using send_result [of reply st1] by (simp add: room_def MAX_WRITE_QUEUE_SIZE_def)
      then obtain w2 where s: "send reply st1 = (False, w2, snd st1)"
        using send_rejected [OF f] by (cases "send reply st1") auto
      have "\<exists>l. answer_handshake J sid st1 = (None, close (say l (w2, snd st1)))"
        using Inr s unfolding answer_handshake_def Let_def plain_welcome_def
        by (auto simp del: append_Cons split_paired_Ex)
      then obtain l where a: "answer_handshake J sid st1 = (None, close (say l (w2, snd st1)))" by blast
      have "standing (snd (close (say l (w2, snd st1)))) = dismiss (snd st1) []"
        using close_dismisses [of "say l (w2, snd st1)"] o(1,2) by simp
      then show ?thesis using Inr False a by (simp add: outcome_simps en)
    qed
  qed
qed

lemma handshake_outcome:
  assumes "attentive (snd st)"
  shows "outcome J (handle_handshake_message J message st) =
     enact J (snd st) (judge_hello J (fst st) (se_self (snd st)) message)"
proof -
  obtain reports ho where p: "parse_handshake J message = (reports, ho)" by (cases "parse_handshake J message")
  have r: "outcome J (None, refuse J l c m st1) = enact J (snd st) (Refuse c m)" if "snd st1 = snd st" for l c m st1
    using refusal [of st1 J l c m] assms that by (simp add: outcome_simps)
  have b: "outcome J (begin_session J st1) = enact J (snd st)
      (case w_manager (fst st) of
         None \<Rightarrow> Refuse PROTOCOL_ERROR ''Connection manager not available''
       | Some m \<Rightarrow>
           (let sid = fst (snd (register_session (w_rng (fst st)) (Some (se_self (snd st))) m)) in
            if sid = [] then Refuse PROTOCOL_ERROR ''Failed to generate unique session ID'' else Welcome sid))"
    if st1: "snd st1 = snd st" "w_manager (fst st1) = w_manager (fst st)" "w_rng (fst st1) = w_rng (fst st)" for st1
  proof (cases "w_manager (fst st)")
    case None
    then show ?thesis using r [OF st1(1)] st1(2) by (simp add: begin_session_def del: append_Cons)
  next
    case (Some m)
    obtain l sid m' where g: "register_session (w_rng (fst st)) (Some (se_self (snd st))) m = (l, sid, m')"
      by (cases "register_session (w_rng (fst st)) (Some (se_self (snd st))) m")
    define st2 where "st2 = on_world (\<lambda>w. emit l (w\<lparr>w_manager := Some m'\<rparr>)) st1"
    have st2: "snd st2 = snd st" by (simp add: st2_def st1(1))
    show ?thesis
    proof (cases "sid = []")
      case True
      then show ?thesis using r [OF st2] Some g st1
        by (simp add: begin_session_def Let_def flip: st2_def del: append_Cons)
    next
      case False
      then show ?thesis
        using answer_handshake_outcome [OF assms False, of "on_session (\<lambda>s. s\<lparr>se_session_id := sid\<rparr>) st2" J] Some g st1 st2
        by (simp add: begin_session_def Let_def flip: st2_def)
    qed
  qed
  define st1 where "st1 = on_world (report reports) st"
  have st1: "snd st1 = snd st" "w_manager (fst st1) = w_manager (fst st)" "w_rng (fst st1) = w_rng (fst st)"
    by (simp_all add: st1_def frame_simps)
  show ?thesis
  proof (cases ho)
    case None
    then show ?thesis
      by (simp add: handle_handshake_message_def p Let_def judge_hello_def r [OF st1(1)] flip: st1_def del: append_Cons)
  next
    case (Some hm)
    have s: "snd (say x st1) = snd st" "w_manager (fst (say x st1)) = w_manager (fst st)"
      "w_rng (fst (say x st1)) = w_rng (fst st)" for x
      using st1 by (simp_all add: say_def frame_simps)
    show ?thesis
      using Some by (cases "hm_client_name hm")
        (simp_all add: handle_handshake_message_def p Let_def judge_hello_def r [OF st1(1)] b [OF st1] b [OF s]
          flip: st1_def del: append_Cons)
  qed
qed

lemma judge_hello_cong:
  assumes "w_manager w' = w_manager w" "w_rng w' = w_rng w"
  shows "judge_hello J w' self message = judge_hello J w self message"
  unfolding judge_hello_def assms by (rule refl)

subsection \<open>A whole message\<close>

lemma burst_difference: "duration_cast 1000000000 d = 0 \<longleftrightarrow> \<bar>d\<bar> < 1000000000"
  by (auto simp: duration_cast_def sgn_if)

text \<open>What has been counted when a message has passed the two checks.\<close>

definition counted :: "session \<Rightarrow> nat \<Rightarrow> session_metrics \<Rightarrow> time_point list \<Rightarrow> i64 \<Rightarrow> time_point \<Rightarrow> session" where
  "counted s reading metrics stamps count activity = s\<lparr>se_reading := reading, se_metrics := metrics,
     se_message_timestamps := stamps, se_message_count := count, se_last_activity := activity\<rparr>"

lemma counted_alike:
  "alike s (counted s r m t c a)" "attentive (counted s r m t c a) = attentive s"
  by (simp_all add: counted_def alike_def standing_def attentive_def is_open_def data_ok_def)

lemma read_outcome:
  fixes J w s
  assumes "attentive s" "config_valid (w_config w)" "sint (se_message_count s) < 2 ^ 63 - 1"
  shows "standing (snd (on_read J No_error bytes message (w, s\<lparr>se_reading := r\<rparr>))) = enact J s (screen J w s message)"
proof -
  define c where "c = w_config w"
  define kept where "kept = [x \<leftarrow> se_message_timestamps s. \<not> x < steady_now w - get_rate_limit_window c]"
  define m where "m = increment_bytes_received bytes (increment_messages_received 1 (se_metrics s))"
  define s1 where "s1 = (\<lambda>stamps count activity. counted s r m stamps count activity)"
  note s1_alike = counted_alike [of s r m, folded s1_def]
  have refused: "standing (snd (refuse J l e t (w', s1 x y z))) = enact J s (Refuse e t)" for l e t w' x y z
    using refusal [of "(w', s1 x y z)" J l e t] s1_alike [of x y z] assms(1) alike_enact(1) [of s "s1 x y z"] by simp
  have bump: "on_session (\<lambda>s. s\<lparr>se_metrics := increment_bytes_received bytes (increment_messages_received 1 (se_metrics s))\<rparr>)
      (w, s\<lparr>se_reading := r\<rparr>) = (w, s1 (se_message_timestamps s) (se_message_count s) (se_last_activity s))"
    by (simp add: on_session_def s1_def counted_def m_def)
  have live: "se_state s \<noteq> Closed" using attentiveD(1) [OF assms(1)] by (simp add: is_open_def)
  show ?thesis
  proof (cases "get_max_messages_per_window c \<le> length kept")
    case True
    have "\<exists>l. check_rate_limit_or_close J (w, s1 (se_message_timestamps s) (se_message_count s) (se_last_activity s)) =
        (False, refuse J l SESSION_CLOSED ''Rate limit exceeded'' (tick w, s1 kept (se_message_count s) (se_last_activity s)))"
      using True unfolding check_rate_limit_or_close_def Let_def
      by (simp add: s1_def counted_def c_def kept_def del: append_Cons) blast
    then show ?thesis
      using True live refused bump by (auto simp: on_read_def Let_def screen_def c_def kept_def not_less)
  next
    case False
    then have passed: "check_rate_limit_or_close J (w, s1 (se_message_timestamps s) (se_message_count s) (se_last_activity s)) =
        (True, tick w, s1 (kept @ [steady_now w]) (se_message_count s) (se_last_activity s))"
      unfolding check_rate_limit_or_close_def Let_def by (simp add: s1_def counted_def c_def kept_def)
    have count: "sint (se_message_count s + 1) = sint (se_message_count s) + 1"
      using assms(3) sint_ge [of "se_message_count s"] by (subst sint_add_small) simp_all
    define burst where "burst \<longleftrightarrow> 100 \<le> sint (se_message_count s) \<and>
        \<bar>steady_now (tick w) - se_last_activity s\<bar> < 1000000000"
    define st2 where "st2 = (tick (tick w), s1 (kept @ [steady_now w]) (se_message_count s + 1) (steady_now (tick w)))"
    have checked: "\<exists>l. check_suspicious_activity (tick w, s1 (kept @ [steady_now w]) (se_message_count s) (se_last_activity s)) =
        (burst, (if burst then say l st2 else st2))"
      unfolding check_suspicious_activity_def Let_def
      by (auto simp: s1_def counted_def st2_def burst_def count burst_difference
          simp del: append_Cons split_paired_Ex)
    have st2: "attentive (snd st2)" "alike s (snd st2)" "w_config (fst st2) = c"
      "w_manager (fst st2) = w_manager w" "w_rng (fst st2) = w_rng w"
      using assms(1) s1_alike by (simp_all add: st2_def c_def frame_simps)
    have same: "se_session_id (snd st2) = se_session_id s" "se_self (snd st2) = se_self s"
      "sint (se_last_sequence_number (snd st2)) = sint (se_last_sequence_number s)"
      using st2(2) by (simp_all add: alike_def standing_def)
    show ?thesis
    proof (cases burst)
      case True
      have "standing (snd (refuse J l e t (say l' st2))) = enact J s (Refuse e t)" for l e t l'
        using refused by (simp add: st2_def say_def)
      then show ?thesis
        using False True live passed checked bump
        by (auto simp: on_read_def Let_def screen_def c_def kept_def burst_def not_less)
    next
      case b: False
      have "standing (snd (handle_message J (se_state s) message st2)) = enact J s
          (if se_state s = Unauthenticated then judge_hello J w (se_self s) message
           else judge J (se_session_id s) (sint (se_last_sequence_number s)) (sint (get_max_sequence_gap c)) message)"
        using assms(2)
        by (simp add: handle_message_outcome authenticated_outcome [OF st2(1)] handshake_outcome [OF st2(1)]
            judge_hello_cong [OF st2(4,5)] alike_enact(1) [OF st2(2)] same st2(3) c_def)
      then show ?thesis
        using False b live passed checked bump
        by (auto simp: on_read_def Let_def screen_def c_def kept_def burst_def not_less)
    qed
  qed
qed

lemma arrival_outcome:
  assumes "attentive s" "config_valid (w_config w)" "sint (se_message_count s) < 2 ^ 63 - 1"
  shows "standing (snd (perform J (Read_done No_error bytes message) (w, s))) = enact J s (screen J w s message)"
  using read_outcome [OF assms] by (simp add: perform_def Let_def)

text \<open>C3: What a client sends has exactly the effect that the protocol gives it. In every reachable
  state of an open session the handlers, on all their branches, do with a text what the reference
  definition says: the same answers are queued in the same order with the same error codes, the id,
  the stack and the sequence number become the same, and the session is admitted, kept, asked to
  close or closed at once alike. The reference screens the message rate, judges the text by the
  stand-alone parsers, compares sequence numbers as integers, checks an id once and never cuts a
  message type; the handlers parse once, subtract unsigned 64-bit words and check in three steps.\<close>

theorem messages_follow_protocol:
  assumes "session_reach J (w, s)" and "se_state s \<noteq> Closed" and "\<not> se_close_requested s"
    and "config_valid (w_config w)" and "sint (se_message_count s) < 2 ^ 63 - 1"
  shows "standing (snd (perform J (Read_done No_error bytes message) (w, s))) = enact J s (screen J w s message)"
  using arrival_outcome [OF _ assms(4,5)] attentive_reach [OF assms(1)] assms(2,3) by (simp add: is_open_def)

text \<open>A client at a peaceful rate: fewer than a hundred messages so far, and room in the rate window.\<close>

definition unhurried :: "world \<Rightarrow> session \<Rightarrow> bool" where
  "unhurried w s \<longleftrightarrow> sint (se_message_count s) < 100 \<and>
     length [x \<leftarrow> se_message_timestamps s. steady_now w - get_rate_limit_window (w_config w) \<le> x]
       < get_max_messages_per_window (w_config w)"

lemma unhurried_screen:
  assumes "unhurried w s" "se_state s = Authenticated"
  shows "screen J w s message = judge J (se_session_id s) (sint (se_last_sequence_number s))
     (sint (get_max_sequence_gap (w_config w))) message"
  using assms by (simp add: screen_def unhurried_def Let_def)

lemma joined_unhurried:
  "unhurried quiet_world (snd joined)" "config_valid (w_config quiet_world)"
  "sint (get_max_sequence_gap (w_config quiet_world)) = 10000"
proof -
  have "get_max_messages_per_window (w_config quiet_world) = 10"
    by (simp add: quiet_world_def initial_config_def config_defs get_max_messages_per_window_def)
  then show "unhurried quiet_world (snd joined)"
    using joined_state(9,10) le_less_trans [OF length_filter_le, of "se_message_timestamps (snd joined)" 10]
    by (simp add: unhurried_def)
  show "config_valid (w_config quiet_world)" by (simp add: quiet_world_def initial_config_valid)
  show "sint (get_max_sequence_gap (w_config quiet_world)) = 10000"
    by (simp add: quiet_world_def initial_config_def config_defs get_max_sequence_gap_def)
qed

lemma joined_anywhere: "session_reach ref_json (w, snd joined)"
  using joined_reach(1) session_reach.elsewhere [of ref_json "fst joined" "snd joined"] by simp

lemma fold_5_judged: "judge ref_json joined_sid (- 1) 10000 (enc fold_5) = Accept_action 5"
  by code_simp

theorem messages_follow_protocol_witness:
  "standing (snd (perform ref_json (Read_done No_error 0 (enc fold_5)) (quiet_world, snd joined))) =
     (standing (snd joined))\<lparr>sg_sequence := 5\<rparr>"
proof -
  have "screen ref_json quiet_world (snd joined) (enc fold_5) = Accept_action 5"
    using fold_5_judged joined_state(3,5) joined_unhurried(3) by (simp add: unhurried_screen [OF joined_unhurried(1) joined_state(1)])
  then show ?thesis
    using messages_follow_protocol [OF joined_anywhere _ _ joined_unhurried(2), of 0 "enc fold_5"]
      joined_state(2,10) by (simp add: enact_simps is_open_def)
qed

subsection \<open>An honest client\<close>

lemma honest_judged:
  assumes "json_text J same"
  shows "serialize_message J (action_message_to_json J a) ACTION = Inr t \<Longrightarrow> action_acceptable a \<Longrightarrow>
      am_session_id a = sid \<Longrightarrow> prev < sint (am_sequence_number a) \<Longrightarrow> sint (am_sequence_number a) \<le> prev + gap \<Longrightarrow>
      judge J sid prev gap t = Accept_action (sint (am_sequence_number a))"
    and "serialize_message J (reload_request_message_to_json J r) RELOAD_REQUEST = Inr t \<Longrightarrow> reload_acceptable r \<Longrightarrow>
      rq_session_id r = sid \<Longrightarrow> judge J sid prev gap t = Grant_reload (sint (rq_requested_amount r))"
    and "serialize_message J (disconnect_message_to_json J d) DISCONNECT = Inr t \<Longrightarrow> disconnect_acceptable d \<Longrightarrow>
      dm_session_id d = sid \<Longrightarrow> judge J sid prev gap t = Say_goodbye"
proof -
  note understood = json_text.client_messages_understood [OF assms]
  note type = json_text.extract_serialized_type [OF assms]
  have short: "length ACTION \<le> MAX_MESSAGE_TYPE_LENGTH" "length RELOAD_REQUEST \<le> MAX_MESSAGE_TYPE_LENGTH"
    "length DISCONNECT \<le> MAX_MESSAGE_TYPE_LENGTH" "RELOAD_REQUEST \<noteq> ACTION" "DISCONNECT \<noteq> ACTION"
    "DISCONNECT \<noteq> RELOAD_REQUEST"
    by (simp_all add: message_type_defs MAX_MESSAGE_TYPE_LENGTH_def)
  show "judge J sid prev gap t = Accept_action (sint (am_sequence_number a))"
    if "serialize_message J (action_message_to_json J a) ACTION = Inr t" "action_acceptable a"
      "am_session_id a = sid" "prev < sint (am_sequence_number a)" "sint (am_sequence_number a) \<le> prev + gap"
    using that type [OF that(1) short(1)] understood(1) [OF that(1,2)]
    by (simp add: judge_def own_def judge_sequence_def)
  show "judge J sid prev gap t = Grant_reload (sint (rq_requested_amount r))"
    if "serialize_message J (reload_request_message_to_json J r) RELOAD_REQUEST = Inr t" "reload_acceptable r"
      "rq_session_id r = sid"
    using that type [OF that(1) short(2)] understood(2) [OF that(1,2)] short(4) by (simp add: judge_def own_def)
  show "judge J sid prev gap t = Say_goodbye"
    if "serialize_message J (disconnect_message_to_json J d) DISCONNECT = Inr t" "disconnect_acceptable d"
      "dm_session_id d = sid"
    using that type [OF that(1) short(3)] understood(3) [OF that(1,2)] short(5,6) by (simp add: judge_def own_def)
qed

text \<open>C8: An honest client is served. When a client writes an acceptable command with the library's own
  converters, under the id it was given and at a peaceful rate, then after its arrival in any
  reachable authenticated session: an ACTION in the window advances the sequence number and nothing
  else; a RELOAD_REQUEST that can be answered adds its amount to the stack (capped at 10^15) and
  queues a response that the client reads back as exactly that stack; a DISCONNECT has the session
  asked to close without a further word.\<close>

theorem honest_client_is_served:
  fixes J w s bytes t
  defines "s' \<equiv> snd (perform J (Read_done No_error bytes t) (w, s))"
    and "prev \<equiv> sint (se_last_sequence_number s)"
  assumes "json_text J same" and "session_reach J (w, s)" and "se_state s = Authenticated" "\<not> se_close_requested s"
    and "config_valid (w_config w)" and "unhurried w s"
  shows "(serialize_message J (action_message_to_json J a) ACTION = Inr t \<and> action_acceptable a \<and>
        am_session_id a = se_session_id s \<and> prev < sint (am_sequence_number a) \<and>
        sint (am_sequence_number a) \<le> prev + sint (get_max_sequence_gap (w_config w)) \<longrightarrow>
      standing s' = (standing s)\<lparr>sg_sequence := sint (am_sequence_number a)\<rparr>) \<and>
    (serialize_message J (reload_request_message_to_json J r) RELOAD_REQUEST = Inr t \<and> reload_acceptable r \<and>
        rq_session_id r = se_session_id s \<and> room s \<and>
        stack = min (sint (se_current_stack s) + sint (rq_requested_amount r)) (10 ^ 15) \<and>
        serialize_reload_response J \<lparr>rr_granted = True, rr_new_stack = word_of_int stack\<rparr> = Inr reply \<longrightarrow>
      standing s' = (standing s)\<lparr>sg_stack := stack, sg_answers := se_queued s @ [reply]\<rparr> \<and>
      (\<exists>j p. j_parse J reply = Inr j \<and> envelope_carries J j RELOAD_RESPONSE p \<and>
         reload_response_message_from_json J p = Inr \<lparr>rr_granted = True, rr_new_stack = word_of_int stack\<rparr>)) \<and>
    (serialize_message J (disconnect_message_to_json J d) DISCONNECT = Inr t \<and> disconnect_acceptable d \<and>
        dm_session_id d = se_session_id s \<longrightarrow>
      sg_closing (standing s') \<and> sg_answers (standing s') = se_queued s)"
proof -
  have "attentive s" using attentive_reach [OF assms(4)] assms(5,6) by (simp add: is_open_def)
  moreover have "sint (se_message_count s) < 2 ^ 63 - 1" using assms(8) by (simp add: unhurried_def)
  ultimately have v: "standing s' = enact J s (judge J (se_session_id s) prev (sint (get_max_sequence_gap (w_config w))) t)"
    unfolding s'_def prev_def
    by (simp add: arrival_outcome [OF _ assms(7)] unhurried_screen [OF assms(8,5)])
  have laws: "json_laws J" using assms(3) by (rule json_text.axioms(1))
  have reads_back: "\<exists>j p. j_parse J reply = Inr j \<and> envelope_carries J j RELOAD_RESPONSE p \<and>
      reload_response_message_from_json J p = Inr m"
    if "serialize_reload_response J m = Inr reply" for m
    using that json_text.serialize_message_parse [OF assms(3)]
      json_text.same_reload_response_message [OF assms(3) _ json_laws.reload_response_message_roundtrip [OF laws]]
    unfolding serialize_reload_response_def by meson
  show ?thesis
    using honest_judged [OF assms(3)] reads_back v
    by (auto simp: enact_simps) (simp_all add: enact_def dismiss_def)
qed

definition reload_of_900 :: reload_request_message where
  "reload_of_900 = \<lparr>rq_session_id = joined_sid, rq_requested_amount = 900\<rparr>"

lemma reload_of_900:
  "reload_acceptable reload_of_900"
  "\<exists>t. serialize_message ref_json (reload_request_message_to_json ref_json reload_of_900) RELOAD_REQUEST = Inr t"
  "\<exists>reply. serialize_reload_response ref_json \<lparr>rr_granted = True, rr_new_stack = word_of_int 900\<rparr> = Inr reply"
proof -
  show "reload_acceptable reload_of_900"
    using samples_parse(2) parse_reload_from_envelope_Some [of ref_json "ph_envelope_json (header_of reload_900)" reload_of_900]
    by (simp add: reload_of_900_def)
qed (simp_all add: reload_of_900_def joined_sid_def serialize_message_def ref_dump_def message_envelope_to_json_def
    reload_request_message_to_json_def serialize_reload_response_def reload_response_message_to_json_def
    message_type_defs PROTOCOL_VERSION_def)

theorem honest_client_is_served_witness:
  "\<exists>t reply. serialize_message ref_json (reload_request_message_to_json ref_json reload_of_900) RELOAD_REQUEST = Inr t \<and>
     standing (snd (perform ref_json (Read_done No_error 0 t) (quiet_world, snd joined))) =
       (standing (snd joined))\<lparr>sg_stack := 900, sg_answers := se_queued (snd joined) @ [reply]\<rparr>"
proof -
  obtain t reply where t:
    "serialize_message ref_json (reload_request_message_to_json ref_json reload_of_900) RELOAD_REQUEST = Inr t"
    "serialize_reload_response ref_json \<lparr>rr_granted = True, rr_new_stack = word_of_int 900\<rparr> = Inr reply"
    using reload_of_900(2,3) by blast
  have "room (snd joined)" using joined_state(4) by (simp add: room_def)
  moreover have "rq_session_id reload_of_900 = se_session_id (snd joined)"
    "900 = min (sint (se_current_stack (snd joined)) + sint (rq_requested_amount reload_of_900)) (10 ^ 15)"
    using joined_state(3,6) by (simp_all add: reload_of_900_def)
  ultimately show ?thesis
    using honest_client_is_served [OF ref.json_text_axioms joined_anywhere joined_state(1) _ joined_unhurried(2,1)]
      joined_state(2) t reload_of_900(1) unfolding is_open_def by blast
qed

end
