(* ===== verification/Server_Correct.thy ===== *)
theory Server_Correct
  imports System_Correct
begin

text \<open>
  The server object: the accept loop with its backoff, and the shutdown.
\<close>

subsection \<open>Stopping\<close>

lemma close_one_elsewhere: "t \<noteq> r \<Longrightarrow> sy_sessions (close_one t sy) r = sy_sessions sy r"
  by (simp add: close_one_def Let_def split: option.split)

lemma close_one_here:
  "sy_sessions sy r = Some s \<Longrightarrow> sy_sessions (close_one r sy) r = Some (snd (close_from_outside (w, s)))"
  by (simp add: close_one_def close_from_outside_def Let_def)

lemma fold_close_sessions:
  "distinct refs \<Longrightarrow> sy_sessions sy r = Some s \<Longrightarrow>
     sy_sessions (fold close_one refs sy) r =
       Some (if r \<in> set refs then snd (close_from_outside (w, s)) else s)"
proof (induction refs arbitrary: sy s)
  case (Cons t refs)
  show ?case
  proof (cases "t = r")
    case True
    then show ?thesis
      using Cons.IH [OF _ close_one_here [OF Cons.prems(2), of w]] Cons.prems(1) by simp
  next
    case False
    then show ?thesis
      using Cons.IH [of "close_one t sy" s] Cons.prems close_one_elsewhere [of t r sy] by simp
  qed
qed simp

lemma fold_close_none: "sy_sessions sy r = None \<Longrightarrow> sy_sessions (fold close_one refs sy) r = None"
proof (induction refs arbitrary: sy)
  case (Cons t refs)
  have "sy_sessions (close_one t sy) r = None"
    using Cons.prems close_one_elsewhere [of t r sy] by (cases "t = r") (simp_all add: close_one_def)
  then show ?case using Cons.IH by simp
qed simp

text \<open>The table names every session once.\<close>

lemma table_refs_distinct:
  assumes "system_ok J sy" "w_manager (sy_world sy) = Some m"
  shows "distinct (map snd (cm_sessions m))"
proof -
  have s: "om_sorted (cm_sessions m)" using assms by (simp add: system_ok_def world_ok_def manager_ok_def)
  have e: "table_of sy x = Some r" if "(x, r) \<in> set (cm_sessions m)" for x r
    using that om_entry [OF s] by (simp add: table_of_def assms(2))
  have "inj_on snd (set (cm_sessions m))"
  proof (rule inj_onI)
    fix p q assume p: "p \<in> set (cm_sessions m)" "q \<in> set (cm_sessions m)" "snd p = snd q"
    then have "table_of sy (fst p) = Some (snd p)" "table_of sy (fst q) = Some (snd p)"
      using e by (metis prod.collapse)+
    then have "fst p = fst q" using assms(1) unfolding system_ok_def entries_ok_def by (metis option.inject)
    then show "p = q" using p(3) by (rule prod_eqI)
  qed
  moreover have "distinct (cm_sessions m)"
    using s by (metis distinct_map om_keys_def om_sorted_def strict_sorted_iff)
  ultimately show ?thesis by (simp add: distinct_map)
qed

text \<open>C20: Stopping empties the session table, closes the acceptor and asks exactly the sessions in the
  table to close, by posting to their strands; it does nothing the second time. A connection that
  has not finished its handshake is not in the table and is left exactly as it was: it stays open
  after the server has stopped, and can still join.\<close>

theorem stop_server_effect:
  assumes "system_reach J sy" and "\<not> sv_stopped (sy_server sy)"
  shows "sv_stopped (sy_server (stop_server sy)) \<and> \<not> sv_alive (sy_server (stop_server sy)) \<and>
     \<not> sv_acceptor_open (sy_server (stop_server sy)) \<and>
     (\<exists>m. w_manager (sy_world (stop_server sy)) = Some m \<and> session_count m = 0) \<and>
     (\<forall>r. sy_sessions (stop_server sy) r = map_option (\<lambda>s.
        if se_session_id s \<noteq> [] \<and> se_state s \<noteq> Closed
        then s\<lparr>se_close_requested := True, se_tasks := se_tasks s @ [Close_task]\<rparr> else s)
        (sy_sessions sy r)) \<and>
     stop_server (stop_server sy) = stop_server sy"
proof -
  have k: "system_ok J sy" by (rule system_reach_ok [OF assms(1)])
  obtain m where m: "w_manager (sy_world sy) = Some m" "manager_ok m"
    using k by (auto simp: system_ok_def world_ok_def)
  define refs where "refs = map snd (cm_sessions m)"
  define m' where "m' = m\<lparr>cm_sessions := om_empty\<rparr>"
  obtain lines where l: "stop_all m = (lines, refs, m')" by (simp add: stop_all_def refs_def m'_def)
  obtain sy0 where f: "sy_sessions sy0 = sy_sessions sy"
    "sv_stopped (sy_server (stop_server sy))" "\<not> sv_alive (sy_server (stop_server sy))"
    "\<not> sv_acceptor_open (sy_server (stop_server sy))" "w_manager (sy_world (stop_server sy)) = Some m'"
    "sy_sessions (stop_server sy) = sy_sessions (fold close_one refs sy0)"
    by (rule stop_server_steps [OF assms(2) m(1) l]) simp
  have refs: "r \<in> set refs \<longleftrightarrow> se_session_id s \<noteq> [] \<and> se_state s \<noteq> Closed" if "sy_sessions sy r = Some s" for r s
  proof -
    have "r \<in> set refs \<longleftrightarrow> (\<exists>x. table_of sy x = Some r)"
      using in_table_iff [of sy r] k m(1) by (simp add: system_ok_def in_table_def refs_def)
    also have "\<dots> \<longleftrightarrow> se_session_id s \<noteq> [] \<and> se_state s \<noteq> Closed"
      using k assms(2) that manager_no_empty [OF m(2)] m(1)
      by (fastforce simp: system_ok_def entries_ok_def entries_complete_def table_of_def)
    finally show ?thesis .
  qed
  have "sy_sessions (stop_server sy) r = map_option (\<lambda>s.
        if se_session_id s \<noteq> [] \<and> se_state s \<noteq> Closed
        then s\<lparr>se_close_requested := True, se_tasks := se_tasks s @ [Close_task]\<rparr> else s) (sy_sessions sy r)" for r
  proof (cases "sy_sessions sy r")
    case None
    then show ?thesis using fold_close_none [of sy0 r refs] by (simp add: f)
  next
    case (Some s)
    have "distinct refs" using table_refs_distinct [OF k m(1)] by (simp add: refs_def)
    then show ?thesis
      using fold_close_sessions [of refs sy0 r s "sy_world sy"] refs [OF Some] Some
      by (simp add: f close_from_outside_def Let_def)
  qed
  then show ?thesis
    using f by (simp add: session_count_def m'_def om_empty_def stop_server_def [of "stop_server sy"])
qed

theorem stop_server_effect_witness:
  "\<exists>s. sy_sessions (stop_server sample_waiting) 0 = Some s \<and> sy_sessions sample_waiting 0 = Some s \<and>
     se_state s = Unauthenticated \<and> \<not> se_close_requested s"
  using stop_server_effect [OF sample_waiting_facts(1,2)] sample_waiting_facts(3) by auto

subsection \<open>The accept loop\<close>

text \<open>How many continuations of the accept loop exist: pending accepts, and completions of the current
  backoff timer that will start one.\<close>

definition live_timer :: "nat \<Rightarrow> server \<Rightarrow> nat" where
  "live_timer t v = length (filter (\<lambda>p. fst p = t) (sv_timer_waits v)) +
     length (filter (\<lambda>p. p = (t, True)) (sv_timer_done v))"

definition accept_loops :: "server \<Rightarrow> nat" where
  "accept_loops v = sv_accepting v + (case sv_backoff_timer v of None \<Rightarrow> 0 | Some t \<Rightarrow> live_timer t v)"

definition timers_known :: "server \<Rightarrow> bool" where
  "timers_known v \<longleftrightarrow> (\<forall>p \<in> set (sv_timer_waits v). fst p < sv_timers v) \<and>
     (\<forall>p \<in> set (sv_timer_done v). fst p < sv_timers v) \<and>
     (\<forall>t. sv_backoff_timer v = Some t \<longrightarrow> t < sv_timers v)"

definition accept_ok :: "server \<Rightarrow> bool" where
  "accept_ok v \<longleftrightarrow> sv_shared v \<and> timers_known v \<and> accept_loops v \<le> 1 \<and>
     1 \<le> sv_backoff_seconds v \<and> sv_backoff_seconds v \<le> 30"

lemmas accept_defs = accept_ok_def timers_known_def accept_loops_def live_timer_def

lemma live_timer_fresh: "timers_known v \<Longrightarrow> live_timer (sv_timers v) v = 0"
  by (auto simp: timers_known_def live_timer_def filter_empty_conv)

lemma cancel_timer_known: "timers_known v \<Longrightarrow> timers_known (cancel_timer t v)"
  by (auto simp: timers_known_def cancel_timer_def)

lemma cancel_backoff_known: "timers_known v \<Longrightarrow> timers_known (cancel_backoff v)"
  by (auto simp: cancel_backoff_def cancel_timer_known split: option.split)

lemma cancel_backoff_frame:
  "sv_timers (cancel_backoff v) = sv_timers v" "sv_accepting (cancel_backoff v) = sv_accepting v"
  "sv_backoff_seconds (cancel_backoff v) = sv_backoff_seconds v" "sv_backoff_timer (cancel_backoff v) = sv_backoff_timer v"
  "sv_shared (cancel_backoff v) = sv_shared v" "sv_alive (cancel_backoff v) = sv_alive v" "sv_acceptor_open (cancel_backoff v) = sv_acceptor_open v"
  by (simp_all add: cancel_backoff_def cancel_timer_def split: option.split)

lemma start_backoff_ok:
  assumes "sv_shared v" "timers_known v" "sv_accepting v = 0" "1 \<le> sv_backoff_seconds v" "sv_backoff_seconds v \<le> 30"
  shows "accept_ok (snd (start_backoff (w, v)))"
proof -
  have k: "timers_known (cancel_backoff v)" by (rule cancel_backoff_known [OF assms(2)])
  then show ?thesis
    using assms live_timer_fresh [OF k]
    by (auto simp: start_backoff_def Let_def accept_defs cancel_backoff_frame next_backoff_def MAX_BACKOFF_def)
qed

lemma accept_ok_consumed:
  assumes "accept_ok v" "0 < sv_accepting v"
  shows "timers_known v" "sv_accepting v - 1 = 0" "accept_loops (v\<lparr>sv_accepting := sv_accepting v - 1\<rparr>) = 0"
proof -
  have l: "accept_loops v \<le> 1" using assms by (simp add: accept_ok_def)
  show "timers_known v" using assms by (simp add: accept_ok_def)
  have one: "sv_accepting v = 1" using l assms(2) by (simp add: accept_loops_def)
  then show "sv_accepting v - 1 = 0" by simp
  show "accept_loops (v\<lparr>sv_accepting := sv_accepting v - 1\<rparr>) = 0"
    using l by (simp add: accept_loops_def one live_timer_def split: option.splits)
qed

lemma accept_failed_ok:
  assumes "accept_ok v" "0 < sv_accepting v"
  shows "accept_ok (snd (accept_failed k msg (w, v\<lparr>sv_accepting := sv_accepting v - 1\<rparr>)))"
proof -
  let ?v = "v\<lparr>sv_accepting := sv_accepting v - 1\<rparr>"
  note c = accept_ok_consumed [OF assms]
  have "accept_ok ?v" using assms by (auto simp: accept_defs split: option.splits)
  moreover have "accept_ok (snd (start_backoff (w', ?v)))" for w'
    using assms c by (intro start_backoff_ok) (simp_all add: timers_known_def accept_ok_def)
  ultimately show ?thesis by (simp add: accept_failed_def Let_def say_server_def)
qed

text \<open>Starting an accept when no continuation of the loop exists.\<close>

lemma start_accept_ok:
  assumes "accept_ok v" "accept_loops v = 0"
  shows "accept_ok (snd (start_accept (w, v)))"
  using assms by (simp add: start_accept_def Let_def say_server_def accept_defs split: option.splits)

lemma accept_arrived_ok:
  assumes "accept_ok v" "sv_accepting v = 0"
  shows "accept_ok (snd (snd (accept_arrived (w, v))))"
    and "accept_loops (snd (snd (accept_arrived (w, v)))) = 0"
  using assms by (simp_all add: accept_arrived_def Let_def say_server_def accept_defs)

lemma open_connection_server [simp]: "sy_server (open_connection made sy) = sy_server sy"
  by (simp add: open_connection_def Let_def split: sum.split prod.split)

lemma on_server_server: "sy_server (on_server f sy) = snd (f (sy_world sy, sy_server sy))"
  by (simp add: on_server_def Let_def)

lemma accept_completes_loop:
  assumes "accept_ok (sy_server sy)" "0 < sv_accepting (sy_server sy)"
  shows "accept_ok (sy_server (accept_completes ec made sy))"
proof (cases ec)
  case (Err k msg)
  then show ?thesis
    using accept_failed_ok [OF assms]
    by (simp add: accept_completes_def on_server_accept_def on_server_server)
next
  case No_error
  define v0 where "v0 = (sy_server sy)\<lparr>sv_accepting := sv_accepting (sy_server sy) - 1\<rparr>"
  have "accept_ok v0" "sv_accepting v0 = 0"
    using accept_ok_consumed [OF assms] assms(1) by (simp_all add: v0_def accept_ok_def timers_known_def)
  note a = accept_arrived_ok [OF this, of "sy_world sy"]
  obtain b w v where e: "accept_arrived (sy_world sy, v0) = (b, w, v)" by (metis prod.exhaust)
  show ?thesis
    unfolding accept_completes_def v0_def [symmetric]
    using a start_accept_ok [of v] No_error
    by (cases b) (simp_all add: on_server_accept_def on_server_server e)
qed

text \<open>The backoff timer: when its time comes, and when its completion runs.\<close>

lemma timer_elapses_ok:
  assumes "accept_ok v" "(t, due) \<in> set (sv_timer_waits v)"
  shows "accept_ok (timer_elapses t due v)"
proof -
  have "live_timer u (timer_elapses t due v) = live_timer u v" for u
  proof -
    obtain xs ys where x: "sv_timer_waits v = xs @ (t, due) # ys" "(t, due) \<notin> set xs"
      using assms(2) by (meson split_list_first)
    then show ?thesis by (simp add: live_timer_def timer_elapses_def remove1_append)
  qed
  moreover have "timers_known (timer_elapses t due v)"
    using assms set_remove1_subset [of "(t, due)" "sv_timer_waits v"]
    by (fastforce simp: accept_ok_def timers_known_def timer_elapses_def)
  moreover have "sv_accepting (timer_elapses t due v) = sv_accepting v"
    "sv_backoff_timer (timer_elapses t due v) = sv_backoff_timer v"
    "sv_backoff_seconds (timer_elapses t due v) = sv_backoff_seconds v"
    "sv_shared (timer_elapses t due v) = sv_shared v"
    by (simp_all add: timer_elapses_def)
  ultimately show ?thesis using assms(1) by (simp add: accept_ok_def accept_loops_def split: option.splits)
qed

lemma on_backoff_timer_ok:
  assumes "accept_ok v" "sv_timer_done v = (t, elapsed) # rest"
  shows "accept_ok (snd (on_backoff_timer t elapsed (w, v\<lparr>sv_timer_done := rest\<rparr>)))"
proof -
  let ?v = "v\<lparr>sv_timer_done := rest\<rparr>"
  have "live_timer u ?v \<le> live_timer u v" for u by (simp add: live_timer_def assms(2))
  then have le: "accept_loops ?v \<le> accept_loops v" by (simp add: accept_loops_def split: option.split)
  have k: "accept_ok ?v"
    using assms le by (simp add: accept_ok_def timers_known_def)
  show ?thesis
  proof (cases "elapsed \<and> sv_alive v \<and> sv_acceptor_open v \<and> sv_backoff_timer v = Some t")
    case True
    then have "accept_loops ?v = 0"
      using assms by (simp add: accept_defs)
    then show ?thesis using start_accept_ok [OF k] True by (simp add: on_backoff_timer_def)
  next
    case False
    then show ?thesis using k by (auto simp: on_backoff_timer_def Let_def)
  qed
qed

lemma stop_server_server:
  "sy_server (stop_server sy) = (if sv_stopped (sy_server sy) then sy_server sy
     else (cancel_backoff (sy_server sy))\<lparr>sv_stopped := True, sv_alive := False, sv_backoff_timer := None,
            sv_acceptor_open := False\<rparr>)"
  by (simp add: stop_server_def stop_sessions_def Let_def fold_close_one split: option.split prod.split)

lemma stop_server_accept_ok:
  assumes "accept_ok (sy_server sy)"
  shows "accept_ok (sy_server (stop_server sy))"
  using assms cancel_backoff_known [of "sy_server sy"]
  by (simp add: stop_server_server accept_ok_def timers_known_def accept_loops_def cancel_backoff_frame)

lemma accept_ok_step:
  assumes "accept_ok (sy_server sy)" "system_step J sy sy'"
  shows "accept_ok (sy_server sy')"
  using assms(2)
proof (cases rule: system_step.cases)
  case (session r s ev)
  then show ?thesis using assms(1) by (simp add: session_event_def Let_def)
next
  case (release r s)
  then show ?thesis using assms(1) by (simp add: release_session_def)
next
  case (accept ec made)
  then show ?thesis using accept_completes_loop [OF assms(1)] by simp
next
  case (elapse t due)
  then show ?thesis using timer_elapses_ok [OF assms(1)] by simp
next
  case (backoff t elapsed rest)
  then show ?thesis using on_backoff_timer_ok [OF assms(1)] by (simp add: on_server_server)
next
  case stop
  then show ?thesis using stop_server_accept_ok [OF assms(1)] by simp
qed

lemma new_server_fields:
  assumes "new_server aa port handshake_timeout w = (w1, Inr v)"
  shows "sv_accepting v = 0" "sv_timer_waits v = []" "sv_timer_done v = []" "sv_backoff_timer v = None"
    "sv_backoff_seconds v = 1" "sv_shared v"
  using assms by (auto simp: new_server_def Let_def split: option.splits)

lemma accept_ok_reach: "system_reach J sy \<Longrightarrow> accept_ok (sy_server sy)"
proof (induction rule: system_reach.induct)
  case (start aa port handshake_timeout w w1 v)
  note f = new_server_fields [OF start]
  have "accept_ok v" "accept_loops v = 0" using f by (simp_all add: accept_defs)
  then show ?case
    using start_accept_ok [of v w1]
    by (simp add: start_system_def run_server_def Let_def say_server_def)
next
  case (step sy sy')
  then show ?case by (metis accept_ok_step)
qed

text \<open>C13: The accept loop never runs twice. In every reachable state at most one of these exists: a
  pending accept, or a wait or an elapsed completion of the current backoff timer. The completions
  of earlier timers may still be queued, but they start nothing. The delay before the next retry is
  always between 1 and 30 seconds.\<close>

theorem one_accept_loop:
  assumes "system_reach J sy"
  shows "sv_accepting (sy_server sy) + (case sv_backoff_timer (sy_server sy) of None \<Rightarrow> 0 | Some t \<Rightarrow>
       length (filter (\<lambda>p. fst p = t) (sv_timer_waits (sy_server sy))) +
       length (filter (\<lambda>p. p = (t, True)) (sv_timer_done (sy_server sy)))) \<le> 1 \<and>
     1 \<le> sv_backoff_seconds (sy_server sy) \<and> sv_backoff_seconds (sy_server sy) \<le> 30"
  using accept_ok_reach [OF assms] by (simp add: accept_defs split: option.splits)

theorem one_accept_loop_witness:
  "sv_accepting (sy_server sample_start) = 1 \<and>
   sv_accepting (sy_server sample_start) + (case sv_backoff_timer (sy_server sample_start) of None \<Rightarrow> 0 | Some t \<Rightarrow>
       length (filter (\<lambda>p. fst p = t) (sv_timer_waits (sy_server sample_start))) +
       length (filter (\<lambda>p. p = (t, True)) (sv_timer_done (sy_server sample_start)))) \<le> 1"
  using one_accept_loop [OF sample_start_reach] sample_start_fields(1) by simp

subsection \<open>Failed accepts\<close>

lemma failed_fields:
  assumes "sv_acceptor_open (snd st)" "k \<noteq> Operation_aborted" "\<not> is_fatal k"
  shows "sv_acceptor_open (snd (accept_failed k msg st))"
    and "sv_backoff_timer (snd (accept_failed k msg st)) = Some (sv_timers (snd st))"
    and "(sv_timers (snd st), steady_now (fst st) + sv_backoff_seconds (snd st) * 1000000000)
       \<in> set (sv_timer_waits (snd (accept_failed k msg st)))"
    and "sv_backoff_seconds (snd (accept_failed k msg st)) = min (sv_backoff_seconds (snd st) * 2) 30"
  using assms
  by (simp_all add: accept_failed_def start_backoff_def Let_def say_server_def cancel_backoff_frame
      next_backoff_def MAX_BACKOFF_def steady_now_def emit_def)

lemma failures_in_a_row:
  assumes "sv_acceptor_open v" "k \<noteq> Operation_aborted" "\<not> is_fatal k" "sv_backoff_seconds v = 1"
  shows "sv_acceptor_open (snd ((accept_failed k msg ^^ n) (w, v))) \<and>
     sv_backoff_seconds (snd ((accept_failed k msg ^^ n) (w, v))) = min (2 ^ n) 30"
proof (induction n)
  case (Suc n)
  have "min (min (2 ^ n) 30 * 2) 30 = min (2 ^ Suc n) (30::int)" by (simp add: min_def)
  then show ?case using Suc failed_fields [OF _ assms(2,3)] by simp
qed (simp add: assms)

text \<open>C21: While accepting keeps failing with errors that can pass, the delay doubles from one second up
  to 30: the \<open>n\<close>-th retry (from 0) is set for \<open>min (2\<^sup>n) 30\<close> seconds after the failure. A successful
  accept sets the delay back to one second and drops the timer.\<close>

theorem backoff_doubles:
  assumes "sv_acceptor_open v" and "k \<noteq> Operation_aborted" and "\<not> is_fatal k" and "sv_backoff_seconds v = 1"
  shows "\<exists>t. sv_backoff_timer (snd ((accept_failed k msg ^^ Suc n) (w, v))) = Some t \<and>
     (t, steady_now (fst ((accept_failed k msg ^^ n) (w, v))) + min (2 ^ n) 30 * 1000000000)
       \<in> set (sv_timer_waits (snd ((accept_failed k msg ^^ Suc n) (w, v)))) \<and>
     sv_backoff_seconds (snd ((accept_failed k msg ^^ Suc n) (w, v))) = min (2 ^ Suc n) 30 \<and>
     sv_backoff_seconds (snd (snd (accept_arrived ((accept_failed k msg ^^ n) (w, v))))) = 1 \<and>
     sv_backoff_timer (snd (snd (accept_arrived ((accept_failed k msg ^^ n) (w, v))))) = None"
proof -
  define st where "st = (accept_failed k msg ^^ n) (w, v)"
  have f: "sv_acceptor_open (snd st)" "sv_backoff_seconds (snd st) = min (2 ^ n) 30"
    using failures_in_a_row [OF assms, where n = n and w = w and msg = msg] by (simp_all add: st_def)
  have "sv_backoff_seconds (snd (snd (accept_arrived st))) = 1" "sv_backoff_timer (snd (snd (accept_arrived st))) = None"
    by (simp_all add: accept_arrived_def Let_def say_server_def)
  then show ?thesis
    using failures_in_a_row [OF assms, where n = "Suc n" and w = w and msg = msg]
      failed_fields [OF f(1) assms(2,3), where msg = msg]
    by (simp add: st_def [symmetric] f(2))
qed

theorem backoff_doubles_witness:
  "\<exists>t. sv_backoff_timer (snd ((accept_failed Other_error ''x'' ^^ Suc 5)
        (sy_world sample_start, sy_server sample_start))) = Some t \<and>
     sv_backoff_seconds (snd ((accept_failed Other_error ''x'' ^^ Suc 5)
        (sy_world sample_start, sy_server sample_start))) = 30"
  using backoff_doubles [of "sy_server sample_start" Other_error, where n = 5 and w = "sy_world sample_start"
      and msg = "''x''"] sample_start_fields by (fastforce simp: is_fatal_def)

text \<open>Running the completions that are queued, in order.\<close>

definition run_timers :: "sst \<Rightarrow> sst" where
  "run_timers st = fold (\<lambda>(t, elapsed). on_backoff_timer t elapsed) (sv_timer_done (snd st))
     (fst st, (snd st)\<lparr>sv_timer_done := []\<rparr>)"

lemma other_timers_do_nothing:
  "\<forall>p \<in> set ps. \<not> snd p \<or> sv_backoff_timer (snd st) \<noteq> Some (fst p) \<or> \<not> sv_alive (snd st) \<Longrightarrow>
     fold (\<lambda>(t, elapsed). on_backoff_timer t elapsed) ps st = st"
  by (induction ps) (auto simp: on_backoff_timer_def Let_def)

lemma elapsed_timer_accepts:
  assumes "accept_ok v" "sv_backoff_timer v = Some t" "(t, due) \<in> set (sv_timer_waits v)" "sv_acceptor_open v"
  shows "sv_accepting (snd (run_timers (w, timer_elapses t due v))) = (if sv_alive v then 1 else 0)"
proof -
  have l: "sv_accepting v + live_timer t v \<le> 1" using assms(1,2) by (simp add: accept_ok_def accept_loops_def)
  have "filter (\<lambda>p. fst p = t) (sv_timer_waits v) \<noteq> []" using assms(3) by (force simp: filter_empty_conv)
  then have "1 \<le> length (filter (\<lambda>p. fst p = t) (sv_timer_waits v))" by (cases "filter (\<lambda>p. fst p = t) (sv_timer_waits v)") auto
  then have n: "sv_accepting v = 0" "length (filter (\<lambda>p. p = (t, True)) (sv_timer_done v)) = 0"
    using l unfolding live_timer_def by linarith+
  define v1 where "v1 = (timer_elapses t due v)\<lparr>sv_timer_done := []\<rparr>"
  have f: "sv_accepting v1 = 0" "sv_backoff_timer v1 = Some t" "sv_alive v1 = sv_alive v" "sv_acceptor_open v1"
    "sv_shared v1"
    using n(1) assms(1,2,4) unfolding v1_def timer_elapses_def accept_ok_def by simp_all
  have "\<not> snd p \<or> Some t \<noteq> Some (fst p) \<or> \<not> sv_alive v" if "p \<in> set (sv_timer_done v)" for p
    using n(2) that by (cases p) (auto simp: filter_empty_conv)
  then have "fold (\<lambda>(t, elapsed). on_backoff_timer t elapsed) (sv_timer_done v) (w, v1) = (w, v1)"
    unfolding f(2,3) [symmetric] by (intro other_timers_do_nothing) (simp add: f)
  then have "run_timers (w, timer_elapses t due v) = on_backoff_timer t True (w, v1)"
    by (simp add: run_timers_def v1_def) (simp add: timer_elapses_def)
  then show ?thesis using f by (simp add: on_backoff_timer_def start_accept_def Let_def)
qed

text \<open>C14: A failed accept is not the end of the server. When an accept fails with an error that can
  pass, in any reachable state with the acceptor open, no accept is pending any more but a timer is
  waited for; when its time comes and the queued completions have run, whatever they are, exactly
  one accept is pending again. If the server is shut down meanwhile, none is. And when an accept
  succeeds but there is no memory for the session, the connection is lost, not the loop: one accept
  is pending at once.\<close>

theorem failed_accept_is_retried:
  assumes "system_reach J sy" and "0 < sv_accepting (sy_server sy)" and "sv_acceptor_open (sy_server sy)"
    and "sv_alive (sy_server sy)" and "\<not> sv_stopped (sy_server sy)" and "k \<noteq> Operation_aborted" and "\<not> is_fatal k"
    and "v = sy_server (accept_completes (Err k msg) made sy)"
  shows "sv_accepting v = 0 \<and>
     (\<exists>t due. sv_backoff_timer v = Some t \<and> (t, due) \<in> set (sv_timer_waits v) \<and>
        sv_accepting (snd (run_timers (w, timer_elapses t due v))) = 1 \<and>
        sv_accepting (snd (run_timers (w, timer_elapses t due (v\<lparr>sv_alive := False\<rparr>)))) = 0) \<and>
     sv_accepting (sy_server (accept_completes No_error (Inl why) sy)) = 1"
proof -
  note ok = accept_ok_reach [OF assms(1)]
  define v0 where "v0 = (sy_server sy)\<lparr>sv_accepting := sv_accepting (sy_server sy) - 1\<rparr>"
  have lost: "sv_accepting (sy_server (accept_completes No_error (Inl why) sy)) = 1"
    using accept_ok_consumed(2) [OF ok assms(2)] ok assms(4,5)
    by (simp add: accept_completes_def on_server_accept_def accept_arrived_def Let_def on_server_server
        start_accept_def accept_ok_def)
  have v: "v = snd (accept_failed k msg (sy_world sy, v0))"
    by (simp add: assms(8) accept_completes_def on_server_accept_def on_server_server v0_def)
  have v0: "sv_accepting v0 = 0" "sv_acceptor_open v0" "sv_alive v0"
    using accept_ok_consumed [OF ok assms(2)] assms(3,4) by (simp_all add: v0_def)
  have a: "accept_ok v" using accept_completes_loop [OF ok assms(2)] by (simp add: assms(8))
  have b: "accept_ok (v\<lparr>sv_alive := False\<rparr>)" using a by (simp add: accept_defs split: option.splits)
  have f: "sv_accepting v = 0" "sv_alive v"
    using assms(6,7) v0 by (simp_all add: v accept_failed_def start_backoff_def Let_def say_server_def cancel_backoff_frame)
  note g = failed_fields [of "(sy_world sy, v0)" k, OF _ assms(6,7), where msg = msg, folded v]
  show ?thesis
    using g(1-3) v0(2) elapsed_timer_accepts [OF a g(2)] elapsed_timer_accepts [OF b] f lost by fastforce
qed

theorem failed_accept_is_retried_witness:
  "\<exists>t due. sv_accepting (snd (run_timers (quiet_world,
     timer_elapses t due (sy_server (accept_completes (Err Other_error ''x'') (Inr (None, None)) sample_start))))) = 1"
  using failed_accept_is_retried [OF sample_start_reach, where k = Other_error and msg = "''x''" and made = "Inr (None, None)"
      and w = quiet_world and why = "''bad_alloc''", OF _ _ _ _ _ _ refl] sample_start_fields by (auto simp: is_fatal_def)


end
