(* ===== verification/Shared_Data.thy ===== *)
theory Shared_Data
  imports Server_Correct
begin

text \<open>
  The data all objects share: a valid configuration and bounded metrics stay so, whatever session
  or part of the server moves.
\<close>

definition world_sound :: "world \<Rightarrow> bool" where
  "world_sound w \<longleftrightarrow> config_valid (w_config w) \<and> metrics_bounded (w_metrics w)"

lemma sound_notes: "world_sound w \<Longrightarrow> only_notes w w' \<Longrightarrow> world_sound w'"
  by (simp add: world_sound_def only_notes_def)

lemma sound_unchanged [simp]:
  "world_sound (tick w) = world_sound w" "world_sound (emit l w) = world_sound w"
  "world_sound (w\<lparr>w_manager := m\<rparr>) = world_sound w" "world_sound (unregister sid w) = world_sound w"
  by (simp_all add: world_sound_def frame_simps)

lemma sound_noted [simp]:
  "world_sound w \<Longrightarrow> world_sound (note_event n w)" "world_sound w \<Longrightarrow> world_sound (note_gauge n v w)"
  "world_sound w \<Longrightarrow> world_sound (note_count n w)" "world_sound w \<Longrightarrow> world_sound (note_error ty d w)"
  by (simp_all add: world_sound_def note_event_def note_gauge_def note_count_def note_error_def frame_simps
      bounded_event bounded_gauge bounded_increment bounded_error)

subsection \<open>Sessions\<close>

lemma do_close_sound: "world_sound (fst st) \<Longrightarrow> world_sound (fst (do_close st))"
  by (simp add: do_close_def Let_def split: option.split)

lemma close_sound: "world_sound (fst st) \<Longrightarrow> world_sound (fst (close st))"
  by (simp add: close_def close_body_def Let_def do_close_sound)

lemma on_write_sound: "world_sound (fst st) \<Longrightarrow> world_sound (fst (on_write ec b st))"
  by (cases ec) (simp_all add: on_write_def Let_def do_close_sound say_def)

lemma do_write_world: "fst (do_write st) = fst st"
  by (simp add: do_write_def Let_def split: list.split)

interpretation sound: session_invariant "\<lambda>w s. world_sound w" "\<lambda>w s. world_sound w" "\<lambda>w s. world_sound w"
  by unfold_locales
    (auto simp: do_write_world close_body_def close_from_outside_def Let_def
      intro: sound_notes close_sound do_close_sound on_write_sound)

lemma session_event_sound:
  assumes "system_ok J sy" "sy_sessions sy r = Some s" "enabled ev (sy_world sy, s)" "world_sound (sy_world sy)"
  shows "world_sound (sy_world (session_event J r ev s sy))"
  using sound.perform_stable [of "(sy_world sy, s)" ev J] reach_quiet [OF system_session(3) [OF assms(1,2)]] assms(3,4)
  by (simp add: sound.stable_def session_event_def Let_def)

subsection \<open>The server\<close>

lemma server_handlers_sound:
  assumes "world_sound (fst st)"
  shows "world_sound (fst (start_accept st))" "world_sound (fst (accept_failed k msg st))"
    and "world_sound (fst (snd (accept_arrived st)))" "world_sound (fst (on_backoff_timer t b st))"
    and "world_sound (fst (run_server st))"
  using assms
  by (simp_all add: start_accept_def accept_failed_def accept_arrived_def on_backoff_timer_def start_backoff_def
      run_server_def say_server_def Let_def)

lemma on_server_sound:
  "world_sound (fst (f (sy_world sy, sy_server sy))) \<Longrightarrow> world_sound (sy_world (on_server f sy))"
  by (simp add: on_server_def Let_def)

lemma new_session_sound: "world_sound w \<Longrightarrow> world_sound (fst (run fault (new_session r ht e w)))"
  by (rule sound_notes [OF _ begun(7)])

lemma open_connection_sound: "world_sound (sy_world sy) \<Longrightarrow> world_sound (sy_world (open_connection made sy))"
  by (simp add: open_connection_def Let_def new_session_sound split: sum.split prod.split)

lemma accept_completes_sound:
  assumes "world_sound (sy_world sy)"
  shows "world_sound (sy_world (accept_completes ec made sy))"
proof -
  define v where "v = (sy_server sy)\<lparr>sv_accepting := sv_accepting (sy_server sy) - 1\<rparr>"
  obtain b st where a: "accept_arrived (sy_world sy, v) = (b, st)" by (cases "accept_arrived (sy_world sy, v)")
  have "world_sound (fst st)" using server_handlers_sound(3) [of "(sy_world sy, v)"] assms a by simp
  then show ?thesis
    unfolding accept_completes_def v_def [symmetric] on_server_accept_def
    using assms a
    by (cases b; cases ec) (auto intro!: on_server_sound server_handlers_sound open_connection_sound)
qed

lemma stop_server_sound:
  assumes "world_sound (sy_world sy)"
  shows "world_sound (sy_world (stop_server sy))"
  using assms
  by (simp add: stop_server_def stop_sessions_def Let_def fold_close_one split: option.split prod.split)

lemma system_step_sound:
  assumes "system_step J sy sy'" "system_ok J sy" "world_sound (sy_world sy)"
  shows "world_sound (sy_world sy')"
  using assms(1)
proof cases
  case (session r s ev)
  then show ?thesis using session_event_sound assms(2,3) by blast
next
  case (release r s)
  then show ?thesis using assms(3) by (simp add: release_session_def destroy_def Let_def)
next
  case (accept ec made)
  then show ?thesis using accept_completes_sound assms(3) by blast
next
  case (elapse t due)
  then show ?thesis using assms(3) by simp
next
  case (backoff t elapsed rest)
  then show ?thesis using assms(3) by (auto intro!: on_server_sound server_handlers_sound)
next
  case stop
  then show ?thesis using stop_server_sound assms(3) by blast
qed

end
