(* ===== verification/Main_Program.thy ===== *)
theory Main_Program
  imports System_Correct Runtime_Config
begin

text \<open>
  \<^verbatim>\<open>src/server/main.cpp\<close>: the start of the process, the event loop with the signal
  handler, the thread that exports the metrics, and the end. The main thread and the metrics thread
  interleave step by step; what they share is the flag \<open>running\<close>, the world and its log.
\<close>

subsection \<open>Starting\<close>

text \<open>What the calls outside the repository answer while the process starts: an exception is what
  the call throws.\<close>

record environment =
  env_exists :: "exn + bool"
  env_files :: "string \<Rightarrow> string option"
  env_acceptor :: acceptor_answers
  env_signal_set :: "exn option"
  env_thread :: "exn option"

definition config_path :: string where
  "config_path = ''config/default_config.json''"

definition load_config :: "'j ext \<Rightarrow> environment \<Rightarrow> world \<Rightarrow> world \<times> (exn + unit)" where
  "load_config J env w =
     (case env_exists env of
        Inl e \<Rightarrow> (w, Inl e)
      | Inr False \<Rightarrow> (emit [log_message ''[Main] Config file not found, using defaults''] w, Inr ())
      | Inr True \<Rightarrow>
          (case load_from_file J (env_files env) (steady_now w) config_path (w_config w) of
             (lines, ok, c) \<Rightarrow>
               (emit (lines @ [log_message (if ok then ''[Main] Configuration loaded successfully''
                                            else ''[Main] Failed to load config, using defaults'')])
                  ((if ok then tick w else w) \<lparr>w_config := c\<rparr>), Inr ())))"

definition bool_name :: "bool \<Rightarrow> string" where
  "bool_name b = (if b then ''true'' else ''false'')"

definition config_summary :: "runtime_config \<Rightarrow> log_line list" where
  "config_summary c =
     [log_message ''[Main] Server configuration:'',
      log_message (''  - Max connections: '' @ int_to_string (sint (get_max_connections c))),
      log_message (''  - Handshake timeout: '' @ int_to_string (sint (get_handshake_timeout c)) @ ''s''),
      log_message (''  - Max message size: '' @ nat_to_string (get_max_message_size c)),
      log_message (''  - Security enabled: '' @ bool_name (is_security_enabled c)),
      log_message (''  - Metrics enabled: '' @ bool_name (is_metrics_enabled c))]"

text \<open>A server whose last pointer goes stops itself, and its session table goes with it.\<close>

definition idle_system :: "sst \<Rightarrow> system" where
  "idle_system st = \<lparr>sy_world = fst st, sy_server = snd st, sy_sessions = (\<lambda>_. None), sy_next = 0\<rparr>"

definition drop_server :: "sst \<Rightarrow> world" where
  "drop_server st = (sy_world (stop_server (idle_system st))) \<lparr>w_manager := None\<rparr>"

text \<open>Everything before \<open>server->run()\<close>. The error logger is installed first.\<close>

definition prepare :: "'j ext \<Rightarrow> environment \<Rightarrow> world \<Rightarrow> world \<times> (exn + server)" where
  "prepare J env w =
     (let w1 = note_event ''server_start'' (w \<lparr>w_sink := set_error_logger Server_sink (w_sink w)\<rparr>)
      in case load_config J env w1 of
           (w2, Inl e) \<Rightarrow> (w2, Inl e)
         | (w2, Inr _) \<Rightarrow>
      (case new_server (env_acceptor env) DEFAULT_PORT HANDSHAKE_TIMEOUT (emit (config_summary (w_config w2)) w2) of
           (w3, Inl e) \<Rightarrow> (w3, Inl e)
         | (w3, Inr v) \<Rightarrow>
      (case env_signal_set env of
           Some e \<Rightarrow> (drop_server (w3, v), Inl e)
         | None \<Rightarrow>
             let w4 = emit [log_message ''[Main] Server running. Press Ctrl+C to stop.''] w3
             in case (is_metrics_enabled (w_config w4), env_thread env) of
                  (True, Some e) \<Rightarrow> (drop_server (w4, v), Inl e)
                | _ \<Rightarrow> (w4, Inr v))))"

definition EXIT_SUCCESS :: nat where "EXIT_SUCCESS = 0"
definition EXIT_FAILURE :: nat where "EXIT_FAILURE = 1"

definition catch_in_main :: "exn \<Rightarrow> world \<Rightarrow> world" where
  "catch_in_main e w = note_error ''startup_error'' (what e) (emit [log_error (''[Main] Exception: '' @ what e)] w)"

subsection \<open>The process\<close>

text \<open>Where the metrics thread is: at the test of the outer or of the inner loop, in a sleep of one
  second, at the test after the inner loop, before the export, or at its end.\<close>

datatype thread = Outer_test | Inner_test nat | Sleeping nat | After_sleeps | Exporting | Thread_done

definition thread_next :: "bool \<Rightarrow> thread \<Rightarrow> thread" where
  "thread_next running t = (case t of
      Outer_test \<Rightarrow> if running then Inner_test 0 else Thread_done
    | Inner_test i \<Rightarrow> if i < 30 \<and> running then Sleeping i else After_sleeps
    | Sleeping i \<Rightarrow> Inner_test (i + 1)
    | After_sleeps \<Rightarrow> if running then Exporting else Thread_done
    | Exporting \<Rightarrow> Outer_test
    | Thread_done \<Rightarrow> Thread_done)"

definition export_pass :: "'j ext \<Rightarrow> export_clock \<Rightarrow> world \<Rightarrow> world" where
  "export_pass J ck w =
     emit [log_message (''[Metrics] Exported '' @ nat_to_string (length (export_metrics J ck (w_metrics w))) @
       '' bytes of metrics'')] w"

text \<open>\<open>Terminated\<close> is \<open>std::terminate\<close>.\<close>

datatype outcome = Exited nat | Terminated
datatype phase = Serving | Joining | Ended outcome

record process =
  pr_system :: system
  pr_running :: bool
  pr_signals :: bool               \<comment> \<open>the wait for a signal is pending\<close>
  pr_stopped :: bool               \<comment> \<open>\<open>ioc.stop()\<close> was called\<close>
  pr_thread :: "thread option"
  pr_phase :: phase

definition main_start :: "'j ext \<Rightarrow> environment \<Rightarrow> world \<Rightarrow> world \<times> nat + process" where
  "main_start J env w =
     (case prepare J env w of
        (w1, Inl e) \<Rightarrow> Inl (catch_in_main e w1, EXIT_FAILURE)
      | (w1, Inr v) \<Rightarrow>
          Inr \<lparr>pr_system = start_system (w1, v), pr_running = True, pr_signals = True, pr_stopped = False,
               pr_thread = (if is_metrics_enabled (w_config w1) then Some Outer_test else None),
               pr_phase = Serving\<rparr>)"

definition in_world :: "(world \<Rightarrow> world) \<Rightarrow> process \<Rightarrow> process" where
  "in_world f p = p \<lparr>pr_system := (pr_system p) \<lparr>sy_world := f (sy_world (pr_system p))\<rparr>\<rparr>"

text \<open>The signal handler.\<close>

definition shutdown_metrics :: "world \<Rightarrow> world" where
  "shutdown_metrics w =
     (let uptime = duration_cast 1000000000 (steady_now w - get_start_time (w_metrics w))
      in note_gauge ''server_uptime_seconds'' uptime (note_event ''server_shutdown'' (tick w)))"

definition on_signal :: "process \<Rightarrow> process" where
  "on_signal p =
     (in_world (\<lambda>w. shutdown_metrics (emit [log_message ''[Main] Shutting down server...''] w)) p)
       \<lparr>pr_running := False, pr_stopped := True, pr_signals := False\<rparr>"

definition thread_pass :: "'j ext \<Rightarrow> export_clock \<Rightarrow> thread \<Rightarrow> process \<Rightarrow> process" where
  "thread_pass J ck t p =
     (if t = Exporting then in_world (export_pass J ck) p else p) \<lparr>pr_thread := Some (thread_next (pr_running p) t)\<rparr>"

text \<open>An exception out of the event loop. Leaving the block destroys the thread object first; if the
  thread was not joined the process is terminated there.\<close>

definition loop_throws :: "exn \<Rightarrow> process \<Rightarrow> process" where
  "loop_throws e p =
     (if pr_thread p \<noteq> None then p \<lparr>pr_phase := Ended Terminated\<rparr>
      else (in_world (catch_in_main e) p) \<lparr>pr_phase := Ended (Exited EXIT_FAILURE)\<rparr>)"

definition leave_main :: "process \<Rightarrow> process" where
  "leave_main p =
     (in_world (emit [log_message ''[Main] Server stopped.'']) p) \<lparr>pr_phase := Ended (Exited EXIT_SUCCESS)\<rparr>"

inductive process_step :: "'j ext \<Rightarrow> process \<Rightarrow> process \<Rightarrow> bool" for J where
  work: "pr_phase p = Serving \<Longrightarrow> \<not> pr_stopped p \<Longrightarrow> system_step J (pr_system p) sy \<Longrightarrow>
    process_step J p (p \<lparr>pr_system := sy\<rparr>)"
| signal: "pr_phase p = Serving \<Longrightarrow> \<not> pr_stopped p \<Longrightarrow> pr_signals p \<Longrightarrow> process_step J p (on_signal p)"
| throws: "pr_phase p = Serving \<Longrightarrow> \<not> pr_stopped p \<Longrightarrow> process_step J p (loop_throws e p)"
| thread: "(\<forall>r. pr_phase p \<noteq> Ended r) \<Longrightarrow> pr_thread p = Some t \<Longrightarrow> t \<noteq> Thread_done \<Longrightarrow>
    process_step J p (thread_pass J ck t p)"
| returns: "pr_phase p = Serving \<Longrightarrow> pr_stopped p \<Longrightarrow> process_step J p (p \<lparr>pr_phase := Joining\<rparr>)"
| join: "pr_phase p = Joining \<Longrightarrow> pr_thread p = None \<or> pr_thread p = Some Thread_done \<Longrightarrow>
    process_step J p (leave_main p)"

inductive process_reach :: "'j ext \<Rightarrow> process \<Rightarrow> bool" for J where
  start: "main_start J env w = Inr p \<Longrightarrow> process_reach J p"
| step: "process_reach J p \<Longrightarrow> process_step J p p' \<Longrightarrow> process_reach J p'"

end
