(* ===== verification/Main_Correct.thy ===== *)
theory Main_Correct
  imports Main_Program Shared_Data
begin

text \<open>
  What the process does: when it starts and how it fails to, what holds while it runs, and that
  after a signal it ends.
\<close>

subsection \<open>Starting\<close>

text \<open>The first thing that goes wrong, in the order the code tries.\<close>

fun first_some :: "'a option list \<Rightarrow> 'a option" where
  "first_some [] = None"
| "first_some (x # xs) = (case x of None \<Rightarrow> first_some xs | Some y \<Rightarrow> Some y)"

definition acceptor_failure :: "acceptor_answers \<Rightarrow> nat \<Rightarrow> exn option" where
  "acceptor_failure aa port =
     (let refused = (\<lambda>what. map_option (\<lambda>msg. Runtime_error (''[WebSocketServer] Failed to '' @ what @ '': '' @ msg)))
      in first_some [refused ''open acceptor'' (aa_open aa), refused ''set reuse_address'' (aa_set_option aa),
        refused (''bind to port '' @ nat_to_string port) (aa_bind aa), refused ''listen'' (aa_listen aa)])"

definition start_failure :: "environment \<Rightarrow> bool \<Rightarrow> exn option" where
  "start_failure env metrics_on =
     first_some
        [case env_exists env of Inl e \<Rightarrow> Some e | Inr _ \<Rightarrow> None,
         acceptor_failure (env_acceptor env) DEFAULT_PORT,
         env_signal_set env,
         if metrics_on then env_thread env else None]"

definition loaded_config :: "'j ext \<Rightarrow> environment \<Rightarrow> world \<Rightarrow> runtime_config" where
  "loaded_config J env w =
     (if env_exists env = Inr True
      then snd (snd (load_from_file J (env_files env) (w_clock w (w_ticks w + 1)) config_path (w_config w)))
      else w_config w)"

definition booted :: "world \<Rightarrow> world" where
  "booted w = note_event ''server_start'' (w\<lparr>w_sink := set_error_logger Server_sink (w_sink w)\<rparr>)"

lemma load_config_frame:
  "w_manager (fst (load_config J env w)) = w_manager w"
  "snd (load_config J env w) = (case env_exists env of Inl e \<Rightarrow> Inl e | Inr _ \<Rightarrow> Inr ())"
  by (auto simp: load_config_def frame_simps split: sum.split bool.split prod.split)

lemma booted_fields: "w_manager (booted w) = w_manager w" "w_config (booted w) = w_config w"
  "steady_now (booted w) = w_clock w (w_ticks w + 1)"
  by (simp_all add: booted_def note_event_def frame_simps steady_now_def) (simp add: tick_def with_metrics_def)

lemma load_config_config:
  "w_config (fst (load_config J env (booted w))) = loaded_config J env w"
  by (auto simp: load_config_def loaded_config_def frame_simps booted_fields
      split: sum.split bool.split prod.split)

lemma drop_server_frame: "w_manager (drop_server st) = None"
  by (simp add: drop_server_def)

text \<open>Constructing the server: which of the calls it depends on.\<close>

lemma new_server_failure:
  "case acceptor_failure aa port of
      Some e \<Rightarrow> snd (new_server aa port ht w) = Inl e \<and> w_manager (fst (new_server aa port ht w)) = None
    | None \<Rightarrow> (\<exists>v. snd (new_server aa port ht w) = Inr v) \<and> w_config (fst (new_server aa port ht w)) = w_config w"
  by (simp add: acceptor_failure_def new_server_def Let_def frame_simps note_event_def note_gauge_def split: option.split)

lemma prepare_outcome:
  assumes "w_manager w = None" "metrics_on = is_metrics_enabled (loaded_config J env w)"
  shows "case start_failure env metrics_on of
      Some e \<Rightarrow> snd (prepare J env w) = Inl e \<and> w_manager (fst (prepare J env w)) = None
    | None \<Rightarrow> (\<exists>v w3. is_metrics_enabled (w_config w3) = metrics_on \<and>
        new_server (env_acceptor env) DEFAULT_PORT HANDSHAKE_TIMEOUT
          (emit (config_summary (loaded_config J env w)) (fst (load_config J env (booted w)))) = (w3, Inr v) \<and>
        prepare J env w = (emit [log_message ''[Main] Server running. Press Ctrl+C to stop.''] w3, Inr v))"
proof (cases "env_exists env")
  case (Inl e)
  then show ?thesis
    using assms(1) by (simp add: prepare_def start_failure_def load_config_def Let_def frame_simps note_event_def)
next
  case (Inr b)
  define w2 where "w2 = fst (load_config J env (booted w))"
  have l: "load_config J env (booted w) = (w2, Inr ())"
    using load_config_frame(2) [of J env "booted w"] Inr by (simp add: w2_def prod_eq_iff)
  have c: "w_config w2 = loaded_config J env w" by (simp add: w2_def load_config_config)
  define r where "r = new_server (env_acceptor env) DEFAULT_PORT HANDSHAKE_TIMEOUT (emit (config_summary (w_config w2)) w2)"
  note n = new_server_failure [of "env_acceptor env" DEFAULT_PORT HANDSHAKE_TIMEOUT
      "emit (config_summary (w_config w2)) w2", folded r_def]
  have p: "prepare J env w = (case r of (w3, Inl e) \<Rightarrow> (w3, Inl e)
         | (w3, Inr v) \<Rightarrow>
      (case env_signal_set env of
           Some e \<Rightarrow> (drop_server (w3, v), Inl e)
         | None \<Rightarrow>
             let w4 = emit [log_message ''[Main] Server running. Press Ctrl+C to stop.''] w3
             in case (is_metrics_enabled (w_config w4), env_thread env) of
                  (True, Some e) \<Rightarrow> (drop_server (w4, v), Inl e)
                | _ \<Rightarrow> (w4, Inr v)))"
    unfolding prepare_def booted_def [symmetric] Let_def l r_def by simp
  show ?thesis
  proof (cases "snd r")
    case (Inl e)
    then obtain w3 where w3: "r = (w3, Inl e)" by (metis prod.collapse)
    show ?thesis
      using n Inr unfolding p w3 start_failure_def Let_def
      by (auto split: option.splits)
  next
    case (Inr v)
    then obtain w3 where w3: "r = (w3, Inr v)" by (metis prod.collapse)
    have new: "new_server (env_acceptor env) DEFAULT_PORT HANDSHAKE_TIMEOUT
        (emit (config_summary (loaded_config J env w)) (fst (load_config J env (booted w)))) = (w3, Inr v)"
      using w3 by (simp add: r_def l c)
    have m: "is_metrics_enabled (w_config w3) = metrics_on"
      using n by (auto simp: w3 assms(2) frame_simps c split: option.splits)
    show ?thesis
      using n \<open>env_exists env = Inr b\<close> m unfolding p w3 start_failure_def Let_def
      by (auto simp: frame_simps drop_server_frame new split: option.splits bool.splits)
  qed
qed


lemma last_error:
  "last (mc_errors (w_metrics (note_error ty details w))) =
     \<lparr>ed_timestamp = steady_now w, ed_type = ty, ed_details = details\<rparr>"
  "w_log (note_error ty details w) = w_log w" "w_manager (note_error ty details w) = w_manager w"
proof -
  have "last (tl (xs @ [x])) = x" if "500 < length (xs @ [x])" for xs :: "error_data list" and x
    using that by (cases xs) auto
  then show "last (mc_errors (w_metrics (note_error ty details w))) =
     \<lparr>ed_timestamp = steady_now w, ed_type = ty, ed_details = details\<rparr>"
    by (simp add: note_error_def tick_def with_metrics_def record_error_def increment_counter_def push_error_def Let_def)
  show "w_log (note_error ty details w) = w_log w" "w_manager (note_error ty details w) = w_manager w"
    by (simp_all add: note_error_def tick_def with_metrics_def)
qed

lemma started_server:
  assumes "new_server aa port ht w = (w1, Inr v)"
  shows "sv_accepting (sy_server (start_system (emit l w1, v))) = 1"
  using new_server_fields [OF assms] assms
  by (auto simp: start_system_def run_server_def start_accept_def Let_def new_server_def split: option.splits)

text \<open>C27: The process starts exactly when none of the calls it depends on fails, in which case it is
  accepting connections, and its metrics thread runs exactly when the loaded configuration asks for
  it. Otherwise it exits with status 1, its last log line and its newest recorded error carry the
  message of the first failure, and no session table is left behind.\<close>

theorem startup_outcome:
  assumes "w_manager w = None"
  shows "case start_failure env (is_metrics_enabled (loaded_config J env w)) of
      None \<Rightarrow> (\<exists>p. main_start J env w = Inr p \<and> pr_phase p = Serving \<and> pr_running p \<and> pr_signals p \<and>
        sv_accepting (sy_server (pr_system p)) = 1 \<and>
        pr_thread p = (if is_metrics_enabled (loaded_config J env w) then Some Outer_test else None))
    | Some e \<Rightarrow> (\<exists>w1. main_start J env w = Inl (w1, 1) \<and> w_manager w1 = None \<and>
        last (w_log w1) = log_error (''[Main] Exception: '' @ what e) \<and>
        ed_type (last (mc_errors (w_metrics w1))) = ''startup_error'' \<and>
        ed_details (last (mc_errors (w_metrics w1))) = what e)"
proof -
  define on where "on = is_metrics_enabled (loaded_config J env w)"
  note p = prepare_outcome [OF assms on_def]
  show ?thesis
  proof (cases "start_failure env on")
    case (Some e)
    define line where "line = log_error (''[Main] Exception: '' @ what e)"
    obtain w2 where w2: "prepare J env w = (w2, Inl e)" "w_manager w2 = None"
      using p Some by (cases "prepare J env w") auto
    have "main_start J env w = Inl (note_error ''startup_error'' (what e) (emit [line] w2), 1)"
      by (simp add: main_start_def w2(1) catch_in_main_def EXIT_FAILURE_def line_def)
    moreover have "last (w_log (emit [line] w2)) = line" by (simp add: emit_def)
    ultimately show ?thesis
      unfolding on_def [symmetric] Some option.case line_def [symmetric]
      by (intro exI [of _ "note_error ''startup_error'' (what e) (emit [line] w2)"])
        (simp add: last_error frame_simps w2(2))
  next
    case None
    then obtain v w3 where v: "is_metrics_enabled (w_config w3) = on"
      "new_server (env_acceptor env) DEFAULT_PORT HANDSHAKE_TIMEOUT
          (emit (config_summary (loaded_config J env w)) (fst (load_config J env (booted w)))) = (w3, Inr v)"
      "prepare J env w = (emit [log_message ''[Main] Server running. Press Ctrl+C to stop.''] w3, Inr v)"
      using p by auto
    show ?thesis
      unfolding on_def [symmetric] None option.case
      using v(1) started_server [OF v(2)] by (simp add: main_start_def v(3) frame_simps)
  qed
qed

definition blank_world :: world where
  "blank_world = quiet_world\<lparr>w_manager := None, w_sink := Default_sink\<rparr>"

text \<open>The configuration file does not exist and port 8080 is taken.\<close>

definition port_taken :: environment where
  "port_taken = \<lparr>env_exists = Inr False, env_files = (\<lambda>_. None),
     env_acceptor = no_errors\<lparr>aa_bind := Some ''Address already in use''\<rparr>,
     env_signal_set = None, env_thread = None\<rparr>"

theorem startup_outcome_witness:
  "\<exists>w1. main_start ref_json port_taken blank_world = Inl (w1, 1) \<and>
     last (w_log w1) = log_error (''[Main] Exception: [WebSocketServer] Failed to bind to port '' @
       nat_to_string DEFAULT_PORT @ '': Address already in use'')"
proof -
  have "start_failure port_taken on =
      Some (Runtime_error (''[WebSocketServer] Failed to bind to port '' @ nat_to_string DEFAULT_PORT @ '': Address already in use''))" for on
    by (simp add: start_failure_def acceptor_failure_def port_taken_def no_errors_def Let_def)
  then show ?thesis
    using startup_outcome [of blank_world ref_json port_taken] by (auto simp: blank_world_def)
qed


subsection \<open>Running\<close>

lemma in_world_fields [simp]:
  "pr_running (in_world f p) = pr_running p" "pr_signals (in_world f p) = pr_signals p"
  "pr_stopped (in_world f p) = pr_stopped p" "pr_thread (in_world f p) = pr_thread p"
  "pr_phase (in_world f p) = pr_phase p" "sy_sessions (pr_system (in_world f p)) = sy_sessions (pr_system p)"
  "sy_server (pr_system (in_world f p)) = sy_server (pr_system p)"
  "sy_world (pr_system (in_world f p)) = f (sy_world (pr_system p))"
  by (simp_all add: in_world_def)

lemma main_world_frame:
  "w_manager (shutdown_metrics w) = w_manager w" "w_manager (export_pass J ck w) = w_manager w"
  "w_manager (catch_in_main e w) = w_manager w"
  by (simp_all add: shutdown_metrics_def export_pass_def catch_in_main_def Let_def note_gauge_def note_event_def
      note_error_def frame_simps)

lemma in_world_ok:
  assumes "system_ok J (pr_system p)" "\<And>w. w_manager (f w) = w_manager w"
  shows "system_ok J (pr_system (in_world f p))"
  by (rule system_ok_cong [OF assms(1)]) (simp_all add: in_world_def assms(2))

definition process_ok :: "'j ext \<Rightarrow> process \<Rightarrow> bool" where
  "process_ok J p \<longleftrightarrow> system_ok J (pr_system p) \<and> accept_ok (sy_server (pr_system p)) \<and>
     pr_stopped p = (\<not> pr_running p) \<and> pr_signals p = pr_running p \<and>
     (pr_phase p = Joining \<longrightarrow> pr_stopped p) \<and>
     (\<forall>status. pr_phase p = Ended (Exited status) \<longrightarrow> pr_thread p = None \<or> pr_thread p = Some Thread_done) \<and>
     (\<forall>r. pr_phase p = Ended r \<longrightarrow> pr_stopped p = (r = Exited EXIT_SUCCESS)) \<and>
     (pr_phase p = Ended Terminated \<longrightarrow> pr_thread p \<noteq> None)"

lemma thread_pass_fields:
  "pr_phase (thread_pass J ck t p) = pr_phase p" "pr_running (thread_pass J ck t p) = pr_running p"
  "pr_stopped (thread_pass J ck t p) = pr_stopped p" "pr_signals (thread_pass J ck t p) = pr_signals p"
  "pr_thread (thread_pass J ck t p) = Some (thread_next (pr_running p) t)"
  "sy_server (pr_system (thread_pass J ck t p)) = sy_server (pr_system p)"
  "sy_sessions (pr_system (thread_pass J ck t p)) = sy_sessions (pr_system p)"
  by (simp_all add: thread_pass_def)

lemma thread_pass_ok: "system_ok J (pr_system p) \<Longrightarrow> system_ok J (pr_system (thread_pass J ck t p))"
  by (simp add: thread_pass_def in_world_ok main_world_frame)

lemma process_step_ok:
  assumes "process_step J p p'" "process_ok J p"
  shows "process_ok J p'"
  using assms(1)
proof cases
  case (work sy)
  then show ?thesis
    using assms(2) system_step_ok accept_ok_step by (auto simp: process_ok_def)
next
  case signal
  have "system_ok J (pr_system (in_world (\<lambda>w. shutdown_metrics (emit l w)) p))" for l
    using assms(2) by (intro in_world_ok) (simp_all add: process_ok_def main_world_frame frame_simps)
  then show ?thesis using assms(2) signal by (simp add: process_ok_def on_signal_def)
next
  case (throws e)
  have "system_ok J (pr_system (in_world (catch_in_main e) p))"
    using assms(2) by (intro in_world_ok) (simp_all add: process_ok_def main_world_frame)
  then show ?thesis
    using assms(2) throws by (simp add: process_ok_def loop_throws_def EXIT_FAILURE_def EXIT_SUCCESS_def)
next
  case (thread t ck)
  then show ?thesis
    using assms(2) thread_pass_ok [of J p] by (auto simp: process_ok_def thread_pass_fields)
next
  case returns
  then show ?thesis using assms(2) by (simp add: process_ok_def)
next
  case join
  have "system_ok J (pr_system (in_world (emit l) p))" for l
    using assms(2) by (intro in_world_ok) (simp_all add: process_ok_def frame_simps)
  then show ?thesis using assms(2) join by (auto simp: process_ok_def leave_main_def)
qed


lemma prepared_server:
  assumes "prepare J env w = (w', Inr v)"
  shows "\<exists>w0 w3. new_server (env_acceptor env) DEFAULT_PORT HANDSHAKE_TIMEOUT w0 = (w3, Inr v) \<and>
     w_manager w' = w_manager w3"
  using assms by (auto simp: prepare_def Let_def frame_simps split: prod.splits sum.splits option.splits bool.splits) blast+

lemma process_reach_ok: "process_reach J p \<Longrightarrow> process_ok J p"
proof (induction rule: process_reach.induct)
  case (start env w p)
  obtain w' v where v: "prepare J env w = (w', Inr v)"
    using start by (auto simp: main_start_def split: prod.splits sum.splits)
  obtain w0 w3 where n: "new_server (env_acceptor env) DEFAULT_PORT HANDSHAKE_TIMEOUT w0 = (w3, Inr v)"
    and m: "w_manager w' = w_manager w3"
    using prepared_server [OF v] by blast
  have r: "system_reach J (start_system (w3, v))" by (rule system_reach.start [OF n])
  have f: "sy_server (start_system (w', v)) = sy_server (start_system (w3, v))"
    "w_manager (sy_world (start_system (w', v))) = w_manager (sy_world (start_system (w3, v)))"
    "sy_sessions (start_system (w', v)) = sy_sessions (start_system (w3, v))"
    "sy_next (start_system (w', v)) = sy_next (start_system (w3, v))"
    using m by (simp_all add: start_system_def run_server_def start_accept_def say_server_def note_count_def
        Let_def frame_simps)
  have "system_ok J (start_system (w', v))"
    by (rule system_ok_cong [OF system_reach_ok [OF r]]) (simp_all add: f)
  then show ?case
    using start accept_ok_reach [OF r] f(1) by (auto simp: main_start_def v process_ok_def)
next
  case (step p p')
  then show ?case by (blast intro: process_step_ok)
qed

text \<open>C18: While the process runs, with the metrics thread interleaved at any point, the session table
  names exactly live sessions and has at most 1000 entries, and at most one accept is pending. The
  main thread only ever waits for the metrics thread when that thread has been told to end. Exit
  status 0 means that a signal came and the thread has ended; the process is terminated by
  \<open>std::terminate\<close> only when the event loop throws while the metrics thread exists.\<close>

theorem process_safety:
  assumes "process_reach J p"
  shows "(\<exists>m. w_manager (sy_world (pr_system p)) = Some m \<and> session_count m \<le> 1000 \<and>
       (\<forall>x r. get_session x m = Some r \<longrightarrow>
          (\<exists>s. sy_sessions (pr_system p) r = Some s \<and> se_session_id s = x \<and> se_state s \<noteq> Closed))) \<and>
     sv_accepting (sy_server (pr_system p)) \<le> 1 \<and>
     (pr_phase p = Joining \<longrightarrow> \<not> pr_running p) \<and>
     (pr_phase p = Ended (Exited 0) \<longrightarrow> \<not> pr_running p \<and> (pr_thread p = None \<or> pr_thread p = Some Thread_done)) \<and>
     (pr_phase p = Ended Terminated \<longrightarrow> pr_running p \<and> pr_thread p \<noteq> None)"
proof -
  note k = process_reach_ok [OF assms, unfolded process_ok_def]
  then obtain m where m: "w_manager (sy_world (pr_system p)) = Some m" "manager_ok m"
    by (auto simp: system_ok_def world_ok_def)
  have "table_of (pr_system p) x = get_session x m" for x by (simp add: table_of_def m get_session_def)
  then have "\<forall>x r. get_session x m = Some r \<longrightarrow>
      (\<exists>s. sy_sessions (pr_system p) r = Some s \<and> se_session_id s = x \<and> se_state s \<noteq> Closed)"
    using k by (simp add: system_ok_def entries_ok_def)
  moreover have "session_count m \<le> 1000"
    using m(2) by (simp add: manager_ok_def session_count_def MAX_CONNECTIONS_def)
  moreover have "sv_accepting (sy_server (pr_system p)) \<le> 1" using k by (simp add: accept_ok_def accept_loops_def)
  ultimately show ?thesis using k m(1) by (auto simp: EXIT_SUCCESS_def)
qed

text \<open>A start without a configuration file, and the same process after a signal.\<close>

definition no_trouble :: environment where
  "no_trouble = port_taken\<lparr>env_acceptor := no_errors\<rparr>"

definition sample_process :: process where
  "sample_process = (case main_start ref_json no_trouble blank_world of Inr p \<Rightarrow> p)"

lemma sample_process_facts:
  "main_start ref_json no_trouble blank_world = Inr sample_process" "process_reach ref_json sample_process"
  "pr_phase sample_process = Serving" "pr_running sample_process" "pr_signals sample_process"
  "\<not> pr_stopped sample_process" "pr_thread sample_process = Some Outer_test"
proof -
  have "is_metrics_enabled (loaded_config ref_json no_trouble blank_world)"
    by (simp add: loaded_config_def no_trouble_def port_taken_def blank_world_def quiet_world_def initial_config_def
        is_metrics_enabled_def)
  then obtain w v where v: "prepare ref_json no_trouble blank_world = (w, Inr v)" "is_metrics_enabled (w_config w)"
    using prepare_outcome [of blank_world _ ref_json no_trouble, OF _ refl]
    by (auto simp: start_failure_def acceptor_failure_def no_trouble_def port_taken_def no_errors_def blank_world_def Let_def frame_simps)
  show m: "main_start ref_json no_trouble blank_world = Inr sample_process"
    by (simp add: sample_process_def main_start_def v)
  then show "process_reach ref_json sample_process" by (rule process_reach.start)
  show "pr_phase sample_process = Serving" "pr_running sample_process" "pr_signals sample_process"
    "\<not> pr_stopped sample_process" "pr_thread sample_process = Some Outer_test"
    by (simp_all add: sample_process_def main_start_def v)
qed

theorem process_safety_witness:
  "pr_phase sample_process = Serving \<and> sv_accepting (sy_server (pr_system sample_process)) \<le> 1"
  using process_safety [OF sample_process_facts(2)] sample_process_facts(3) by simp


text \<open>Configuration and metrics: the start and every step of the process keep them sound.\<close>

lemma main_world_sound:
  assumes "world_sound w"
  shows "world_sound (shutdown_metrics w)" "world_sound (export_pass J ck w)" "world_sound (catch_in_main e w)"
  using assms by (simp_all add: shutdown_metrics_def export_pass_def catch_in_main_def Let_def)

lemma new_server_sound: "world_sound w \<Longrightarrow> world_sound (fst (new_server aa port ht w))"
  by (simp add: new_server_def Let_def close_acceptor_def split: option.split)

lemma load_config_sound: "world_sound w \<Longrightarrow> world_sound (fst (load_config J env w))"
  using load_from_file_valid [of "w_config w" J "env_files env" "steady_now w" config_path]
  by (auto simp: load_config_def split: sum.split bool.split prod.split) (simp_all add: world_sound_def frame_simps)

lemma main_start_sound:
  assumes "main_start J env w = Inr p" "world_sound w"
  shows "world_sound (sy_world (pr_system p))"
proof -
  obtain w1 v where v: "prepare J env w = (w1, Inr v)" "pr_system p = start_system (w1, v)"
    using assms(1) by (auto simp: main_start_def split: prod.splits sum.splits)
  have "world_sound (booted w)" using assms(2) by (simp add: booted_def world_sound_def note_event_def frame_simps bounded_event)
  note l = load_config_sound [OF this, of J env]
  have "world_sound w1"
    using v(1) l new_server_sound unfolding prepare_def booted_def [symmetric] Let_def
    by (auto split: prod.splits sum.splits option.splits bool.splits) (metis fst_conv sound_unchanged(2))+
  then show ?thesis using server_handlers_sound(5) [of "(w1, v)"] by (simp add: v(2) start_system_def Let_def)
qed

lemma process_step_sound:
  assumes "process_step J p p'" "process_ok J p" "world_sound (sy_world (pr_system p))"
  shows "world_sound (sy_world (pr_system p'))"
  using assms(1)
proof cases
  case (work sy)
  then show ?thesis using system_step_sound assms(2,3) by (auto simp: process_ok_def)
qed (use assms(3) in \<open>simp_all add: on_signal_def loop_throws_def thread_pass_def leave_main_def main_world_sound\<close>)

text \<open>C19: Whatever the clients, the timers, the server and the metrics thread do, from a start with a
  valid configuration and bounded metrics on: every setting stays in its range, the metrics keep at
  most 1000 events, 500 errors and 1001 samples per timing, and the data of every session is within
  the bounds its state allows. So the theorems on single commands apply in every state the process
  reaches.\<close>

theorem shared_data_stays_sound:
  assumes "main_start J env w = Inr p" and "config_valid (w_config w)" and "metrics_bounded (w_metrics w)"
    and "(process_step J)\<^sup>*\<^sup>* p p'"
  shows "config_valid (w_config (sy_world (pr_system p'))) \<and>
     metrics_bounded (w_metrics (sy_world (pr_system p'))) \<and>
     (\<forall>r s. sy_sessions (pr_system p') r = Some s \<longrightarrow> data_ok s)"
proof -
  have "process_reach J p' \<and> world_sound (sy_world (pr_system p'))"
    using assms(4)
  proof (induction rule: rtranclp_induct)
    case base
    then show ?case
      using main_start_sound [OF assms(1)] assms(1-3) by (simp add: world_sound_def process_reach.start)
  next
    case (step q q')
    then show ?case using process_step_sound process_reach_ok by (blast intro: process_reach.step)
  qed
  then have k: "process_ok J p'" "world_sound (sy_world (pr_system p'))" by (simp_all add: process_reach_ok)
  then have "data_ok s" if "sy_sessions (pr_system p') r = Some s" for r s
    using reach_data system_session(3) [OF _ that] by (fastforce simp: process_ok_def)
  then show ?thesis using k(2) by (simp add: world_sound_def)
qed

theorem shared_data_stays_sound_witness:
  "metrics_bounded (w_metrics (sy_world (pr_system (on_signal sample_process)))) \<and>
   config_valid (w_config (sy_world (pr_system (on_signal sample_process))))"
proof -
  note f = sample_process_facts
  have "(process_step ref_json)\<^sup>*\<^sup>* sample_process (on_signal sample_process)"
    using process_step.signal [OF f(3,6,5)] by blast
  from shared_data_stays_sound [OF f(1) _ _ this] show ?thesis
    by (simp add: blank_world_def quiet_world_def initial_config_valid bounded_new)
qed

subsection \<open>Shutting down\<close>

text \<open>How many steps are left once the flag is down.\<close>

definition thread_left :: "thread \<Rightarrow> nat" where
  "thread_left t = (case t of
      Outer_test \<Rightarrow> 1 | Inner_test _ \<Rightarrow> 2 | Sleeping _ \<Rightarrow> 3 | After_sleeps \<Rightarrow> 1 | Exporting \<Rightarrow> 2 | Thread_done \<Rightarrow> 0)"

definition steps_left :: "process \<Rightarrow> nat" where
  "steps_left p = (case pr_phase p of Serving \<Rightarrow> 2 | Joining \<Rightarrow> 1 | Ended _ \<Rightarrow> 0) +
     (case pr_thread p of None \<Rightarrow> 0 | Some t \<Rightarrow> thread_left t)"

lemma thread_next_left: "t \<noteq> Thread_done \<Longrightarrow> thread_left (thread_next False t) < thread_left t"
  by (cases t) (simp_all add: thread_next_def thread_left_def)

lemma steps_left_bound: "steps_left p \<le> 5"
  by (simp add: steps_left_def thread_left_def split: phase.split option.split thread.split)

lemma shutdown_step:
  assumes "process_step J p p'" "process_ok J p" "pr_stopped p"
  shows "steps_left p' < steps_left p \<and> pr_stopped p' \<and>
     sy_sessions (pr_system p') = sy_sessions (pr_system p)"
  using assms(1)
proof cases
  case (thread t ck)
  have "\<not> pr_running p" using assms(2,3) by (simp add: process_ok_def)
  then show ?thesis
    using thread thread_next_left [of t] assms(3) by (simp add: thread_pass_fields steps_left_def)
next
  case returns
  then show ?thesis using assms(3) by (simp add: steps_left_def)
next
  case join
  then show ?thesis using assms(3) by (auto simp: leave_main_def steps_left_def thread_left_def)
qed (use assms(3) in simp_all)

lemma shutdown_run:
  assumes "(process_step J ^^ n) p p'" "process_ok J p" "pr_stopped p"
  shows "n + steps_left p' \<le> steps_left p \<and> process_ok J p' \<and> pr_stopped p' \<and>
     sy_sessions (pr_system p') = sy_sessions (pr_system p)"
  using assms(1)
proof (induction n arbitrary: p')
  case (Suc n)
  then obtain q where q: "(process_step J ^^ n) p q" "process_step J q p'" by auto
  then show ?case
    using Suc.IH [OF q(1)] shutdown_step [OF q(2)] process_step_ok [OF q(2)] by fastforce
qed (simp add: assms(2,3))

text \<open>As long as the process has not ended some thread can move.\<close>

lemma not_stuck:
  assumes "\<And>p'. \<not> process_step J p p'" "process_ok J p" "pr_stopped p"
  shows "pr_phase p = Ended (Exited EXIT_SUCCESS)"
proof (cases "pr_phase p")
  case Joining
  have "pr_thread p = None \<or> pr_thread p = Some Thread_done"
  proof (rule ccontr)
    assume "\<not> (pr_thread p = None \<or> pr_thread p = Some Thread_done)"
    then obtain t where "pr_thread p = Some t" "t \<noteq> Thread_done" by (cases "pr_thread p") auto
    then show False using assms(1) [of "thread_pass J ck t p" for ck] process_step.thread [of p t J] Joining by auto
  qed
  then show ?thesis using assms(1) process_step.join [OF Joining] by blast
qed (use assms process_step.returns [of p] in \<open>auto simp: process_ok_def\<close>)

text \<open>C15: After a signal the process ends. From any reachable state in which the handler has run, every
  continuation has at most five more steps, and it cannot get stuck before the main thread has
  joined the metrics thread and left with status 0. None of these steps touches a session: the event
  loop is stopped, so no session is closed and no close frame is sent.\<close>

theorem shutdown_terminates:
  assumes "process_reach J p" and "pr_stopped p" and "(process_step J ^^ n) p p'"
  shows "n \<le> 5 \<and> sy_sessions (pr_system p') = sy_sessions (pr_system p) \<and>
     ((\<forall>p''. \<not> process_step J p' p'') \<longleftrightarrow> pr_phase p' = Ended (Exited 0))"
proof -
  have k: "n + steps_left p' \<le> steps_left p" "process_ok J p'" "pr_stopped p'"
    "sy_sessions (pr_system p') = sy_sessions (pr_system p)"
    using shutdown_run [OF assms(3) process_reach_ok [OF assms(1)] assms(2)] by simp_all
  have "\<not> process_step J p' p''" if "pr_phase p' = Ended (Exited 0)" for p''
    using that by (auto elim!: process_step.cases)
  then show ?thesis
    using k not_stuck [of J p'] steps_left_bound [of p] by (auto simp: EXIT_SUCCESS_def)
qed

theorem shutdown_terminates_witness:
  "\<exists>p'. (process_step ref_json ^^ 1) (on_signal sample_process) p' \<and> pr_phase p' = Joining \<and>
     sy_sessions (pr_system p') = sy_sessions (pr_system (on_signal sample_process)) \<and>
     (\<exists>p''. process_step ref_json p' p'')"
proof -
  let ?p = "on_signal sample_process"
  note f = sample_process_facts
  have r: "process_reach ref_json ?p"
    by (rule process_reach.step [OF f(2) process_step.signal [OF f(3,6,5)]])
  have s: "pr_stopped ?p" "pr_phase ?p = Serving" using f(3) by (simp_all add: on_signal_def)
  have "(process_step ref_json ^^ 1) ?p (?p\<lparr>pr_phase := Joining\<rparr>)"
    using process_step.returns [OF s(2,1)] by auto
  from this shutdown_terminates [OF r s(1) this] show ?thesis by fastforce
qed

end
