(* ===== verification/Logger_Correct.thy ===== *)
theory Logger_Correct
  imports Logger "HOL-Library.Product_Lexorder"
begin

text \<open>
  Time stamps: for every time the clock can show they have the same length, and they sort as the
  times do.
\<close>

subsection \<open>Lists of equal length in lexicographic order\<close>

lemma append_less_iff:
  fixes a b c d :: "'a::linorder list"
  assumes "length a = length b"
  shows "a @ c < b @ d \<longleftrightarrow> a < b \<or> (a = b \<and> c < d)"
  using assms by (induction a b rule: list_induct2) auto

text \<open>Exactly \<open>w\<close> decimal digits.\<close>

primrec decimal :: "nat \<Rightarrow> nat \<Rightarrow> string" where
  "decimal 0 n = []"
| "decimal (Suc w) n = decimal w (n div 10) @ [digit (n mod 10)]"

lemma length_decimal [simp]: "length (decimal w n) = w"
  by (induction w arbitrary: n) simp_all

lemma digit_less: "a < 10 \<Longrightarrow> b < 10 \<Longrightarrow> digit a < digit b \<longleftrightarrow> a < b"
  by (simp add: digit_def less_char_def)

lemma digit_eq: "a < 10 \<Longrightarrow> b < 10 \<Longrightarrow> digit a = digit b \<longleftrightarrow> a = b"
  by (metis digit_less linorder_neq_iff)

lemma decimal_eq: "n < 10 ^ w \<Longrightarrow> m < 10 ^ w \<Longrightarrow> decimal w n = decimal w m \<longleftrightarrow> n = m"
proof (induction w arbitrary: n m)
  case (Suc w)
  have "n div 10 < 10 ^ w" "m div 10 < 10 ^ w" using Suc.prems by (simp_all add: less_mult_imp_div_less mult.commute)
  then show ?case
    using Suc.IH [of "n div 10" "m div 10"] by (auto simp: digit_eq) (metis div_mult_mod_eq)
qed simp

lemma radix_less: "a div k < b div k \<or> a div k = b div k \<and> a mod k < b mod k \<longleftrightarrow> a < b" for a b k :: nat
proof (cases "a div k = b div k")
  case True
  then show ?thesis
    using mult_div_mod_eq [of k a] mult_div_mod_eq [of k b] by (metis nat_add_left_cancel_less less_irrefl)
next
  case False
  then show ?thesis
    by (metis div_le_mono leD le_neq_implies_less linorder_le_less_linear nat_less_le)
qed

lemma decimal_less: "n < 10 ^ w \<Longrightarrow> m < 10 ^ w \<Longrightarrow> decimal w n < decimal w m \<longleftrightarrow> n < m"
proof (induction w arbitrary: n m)
  case (Suc w)
  have r: "n div 10 < 10 ^ w" "m div 10 < 10 ^ w"
    using Suc.prems by (simp_all add: less_mult_imp_div_less mult.commute)
  have "decimal (Suc w) n < decimal (Suc w) m \<longleftrightarrow> n div 10 < m div 10 \<or> n div 10 = m div 10 \<and> n mod 10 < m mod 10"
    using Suc.IH [OF r] decimal_eq [OF r] by (simp add: append_less_iff digit_less)
  also have "\<dots> \<longleftrightarrow> n < m"
    by (rule radix_less)
  finally show ?case .
qed simp

lemma digit_zero: "digit 0 = CHR ''0''"
  by code_simp

lemma decimal_zero: "decimal w 0 = replicate w (CHR ''0'')"
  by (induction w) (simp_all add: digit_zero replicate_append_same)

lemma padded_decimal:
  "n < 10 ^ w \<Longrightarrow> 0 < w \<Longrightarrow> replicate (w - length (nat_to_string n)) (CHR ''0'') @ nat_to_string n = decimal w n"
proof (induction w arbitrary: n)
  case (Suc w)
  show ?case
  proof (cases "n < 10")
    case True
    then show ?thesis by (subst (1 2) nat_to_string.simps) (simp add: decimal_zero)
  next
    case False
    then have "n div 10 < 10 ^ w" "0 < w"
      using Suc.prems by (simp_all add: less_mult_imp_div_less mult.commute) (cases w; simp)
    then show ?thesis
      using Suc.IH [of "n div 10"] False by (subst (1 2) nat_to_string.simps) simp
  qed
qed simp

lemma zero_padded_decimal: "n < 10 ^ w \<Longrightarrow> 0 < w \<Longrightarrow> zero_padded w (int n) = decimal w n"
  using padded_decimal [of n w] by (simp add: zero_padded_def Let_def)

lemma year_decimal:
  assumes "1000 \<le> y" "y < 10000"
  shows "int_to_string (int y) = decimal 4 y"
proof -
  have "10 \<le> y" "10 \<le> y div 10" "10 \<le> y div 10 div 10" "y div 10 div 10 div 10 < 10"
    using assms div_le_mono [of 1000 y 10] div_le_mono [of 100 "y div 10" 10]
      less_mult_imp_div_less [of y 1000 10] less_mult_imp_div_less [of "y div 10" 100 10]
      less_mult_imp_div_less [of "y div 10 div 10" 10 10] by simp_all
  then have "length (nat_to_string y) = 4"
    by (simp add: nat_to_string.simps [of y] nat_to_string.simps [of "y div 10"]
        nat_to_string.simps [of "y div 10 div 10"] nat_to_string.simps [of "y div 10 div 10 div 10"])
  then show ?thesis using padded_decimal [of y 4] assms by (simp add: int_to_string_def)
qed

subsection \<open>The calendar\<close>

lemma split_year_from: "y \<le> fst (split_year y d)"
proof (induction y d rule: split_year.induct)
  case (1 y d)
  then show ?case by (subst split_year.simps) auto
qed

lemma split_year_mono: "d < e \<Longrightarrow> split_year y d < split_year y e"
proof (induction y d arbitrary: e rule: split_year.induct)
  case (1 y d)
  show ?case
  proof (cases "d < year_length y")
    case True
    show ?thesis
    proof (cases "e < year_length y")
      case False
      have "y < fst (split_year y e)"
        using split_year_from [of "y + 1" "e - year_length y"] False by (subst split_year.simps) simp
      then show ?thesis using True by (subst split_year.simps) (simp add: less_prod_def')
    qed (use True "1.prems" in \<open>simp add: split_year.simps\<close>)
  next
    case False
    then have "split_year (y + 1) (d - year_length y) < split_year (y + 1) (e - year_length y)"
      using "1.prems" by (intro "1.IH") auto
    then show ?thesis using False "1.prems" by (subst (1 2) split_year.simps) simp
  qed
qed

lemma split_year_bound: "365 * fst (split_year y d) \<le> 365 * y + d"
proof (induction y d rule: split_year.induct)
  case (1 y d)
  then show ?case by (subst split_year.simps) (auto simp: year_length_def split: if_splits)
qed

lemma split_year_day: "snd (split_year y d) < year_length (fst (split_year y d))"
proof (induction y d rule: split_year.induct)
  case (1 y d)
  then show ?case by (subst (1 2) split_year.simps) auto
qed

lemma split_month_from: "m \<le> fst (split_month ls m d)"
  by (induction ls m d rule: split_month.induct) auto

lemma split_month_mono: "d < e \<Longrightarrow> split_month ls m d < split_month ls m e"
proof (induction ls m d arbitrary: e rule: split_month.induct)
  case (2 l ls m d)
  show ?case
    using "2.IH" [of "e - l"] "2.prems" split_month_from [of "m + 1" ls "e - l"]
    by (auto simp: less_prod_def')
qed simp

lemma split_month_bounds:
  "d < sum_list ls \<Longrightarrow> \<forall>l \<in> set ls. l \<le> k \<Longrightarrow>
     fst (split_month ls m d) < m + length ls \<and> snd (split_month ls m d) < k"
proof (induction ls m d rule: split_month.induct)
  case (2 l ls m d)
  then show ?case by (cases "d < l") auto
qed simp

lemma year_months: "sum_list (month_lengths y) = year_length y" "length (month_lengths y) = 12"
  "\<forall>l \<in> set (month_lengths y). l \<le> 31"
  by (simp_all add: month_lengths_def year_length_def)

subsection \<open>The text of a day and of a time of day\<close>

definition date_text :: "nat \<Rightarrow> string" where
  "date_text d = (case split_year 1970 d of (y, yday) \<Rightarrow> case split_month (month_lengths y) 1 yday of (m, mday) \<Rightarrow>
     decimal 4 y @ ''-'' @ decimal 2 m @ ''-'' @ decimal 2 (mday + 1))"

definition clock_text :: "nat \<Rightarrow> string" where
  "clock_text s = decimal 2 (s div 3600) @ '':'' @ decimal 2 (s div 60 mod 60) @ '':'' @ decimal 2 (s mod 60)"

lemma length_texts [simp]: "length (date_text d) = 10" "length (clock_text s) = 8"
  by (simp_all add: date_text_def clock_text_def split: prod.split)

lemma date_parts:
  assumes "split_year 1970 d = (y, yday)" "split_month (month_lengths y) 1 yday = (m, mday)" "d \<le> 106751"
  shows "1970 \<le> y" "y < 10000" "m < 10 ^ 2" "mday + 1 < 10 ^ 2"
proof -
  have "365 * y \<le> 365 * 1970 + d" using split_year_bound [of 1970 d] assms by simp
  then show "1970 \<le> y" "y < 10000" using split_year_from [of 1970 d] assms by auto
  have "yday < year_length y" using split_year_day [of 1970 d] assms by simp
  then show "m < 10 ^ 2" "mday + 1 < 10 ^ 2"
    using split_month_bounds [of yday "month_lengths y" 31 1] assms year_months [of y] by simp_all
qed

lemma date_text_less:
  assumes "d < e" "e \<le> 106751"
  shows "date_text d < date_text e"
proof -
  obtain y1 d1 where y1: "split_year 1970 d = (y1, d1)" by fastforce
  obtain y2 d2 where y2: "split_year 1970 e = (y2, d2)" by fastforce
  obtain m1 a1 where m1: "split_month (month_lengths y1) 1 d1 = (m1, a1)" by fastforce
  obtain m2 a2 where m2: "split_month (month_lengths y2) 1 d2 = (m2, a2)" by fastforce
  have le: "d \<le> 106751" using assms by simp
  note p1 = date_parts [OF y1 m1 le] and p2 = date_parts [OF y2 m2 assms(2)]
  have "y1 < y2 \<or> y1 = y2 \<and> d1 < d2" using split_year_mono [of d e 1970] assms y1 y2 by (auto simp: less_prod_def')
  then have "y1 < y2 \<or> y1 = y2 \<and> (m1 < m2 \<or> m1 = m2 \<and> a1 < a2)"
    using split_month_mono [of d1 d2 "month_lengths y1" 1] m1 m2 by (auto simp: less_prod_def')
  then show ?thesis
    using p1 p2 decimal_less [of y1 4 y2] decimal_less [of m1 2 m2] decimal_less [of "a1 + 1" 2 "a2 + 1"]
    unfolding date_text_def y1 y2 prod.case m1 m2 by (auto simp: append_less_iff)
qed

lemma clock_text_less: "s < t \<Longrightarrow> t < 86400 \<Longrightarrow> clock_text s < clock_text t"
proof -
  assume "s < t" "t < 86400"
  have e: "a div 3600 = a div 60 div 60" for a :: nat by (simp add: div_mult2_eq [symmetric])
  from \<open>s < t\<close> have h: "s div 3600 < t div 3600 \<or> s div 3600 = t div 3600 \<and>
      (s div 60 mod 60 < t div 60 mod 60 \<or> s div 60 mod 60 = t div 60 mod 60 \<and> s mod 60 < t mod 60)"
    using radix_less [of s 60 t] radix_less [of "s div 60" 60 "t div 60"]
    unfolding e by auto
  have d: "s div 3600 < 10 ^ 2" "t div 3600 < 10 ^ 2"
    using \<open>s < t\<close> \<open>t < 86400\<close> by (simp_all add: less_mult_imp_div_less)
  have m: "a mod 60 < 10 ^ 2" for a :: nat by (rule less_trans [of _ 60]) simp_all
  from h show ?thesis
    using decimal_less [OF d] decimal_less [OF m m, of "s div 60" "t div 60"] decimal_less [OF m m, of s t]
    by (auto simp: clock_text_def append_less_iff)
qed

subsection \<open>Time stamps\<close>

lemma duration_cast_nat: "duration_cast k t = t div k" if "0 \<le> t" "0 < k"
  using that by (cases "t = 0") (simp_all add: duration_cast_def)

lemma format_time_texts:
  assumes "s div 86400 \<le> 106751"
  shows "format_time (gmtime (int s)) = date_text (s div 86400) @ '' '' @ clock_text (s mod 86400)"
proof -
  obtain y d where y: "split_year 1970 (s div 86400) = (y, d)" by fastforce
  obtain m a where m: "split_month (month_lengths y) 1 d = (m, a)" by fastforce
  note p = date_parts [OF y m assms]
  have q: "nat (int s div 86400 mod 146097) = s div 86400" "int s div 86400 div 146097 = 0"
     "nat (int s mod 86400) = s mod 86400"
    using assms by (simp_all add: zdiv_int [symmetric] zmod_int [symmetric] nat_mod_distrib)
  have m60: "a mod 60 < 10 ^ 2" for a :: nat by (rule less_trans [of _ 60]) simp_all
  have r: "s mod 86400 div 3600 < 10 ^ 2" "s mod 86400 div 60 mod 60 < 10 ^ 2" "s mod 86400 mod 60 < 10 ^ 2"
    using m60 less_mult_imp_div_less [of "s mod 86400" 24 3600] by (auto intro: less_trans)
  have g: "gmtime (int s) = \<lparr>tm_year = int y, tm_mon = m, tm_mday = a + 1, tm_hour = s mod 86400 div 3600,
      tm_min = s mod 86400 div 60 mod 60, tm_sec = s mod 86400 mod 60\<rparr>"
    unfolding gmtime_def Let_def q y prod.case m by simp
  show ?thesis
    unfolding g date_text_def y prod.case m
    using p zero_padded_decimal [OF p(3)] zero_padded_decimal [OF p(4)] zero_padded_decimal [OF r(1)]
      zero_padded_decimal [OF r(2)] zero_padded_decimal [OF r(3)] year_decimal [of y]
    by (simp add: format_time_def clock_text_def)
qed

text \<open>The clock's range: nanoseconds in 63 bits.\<close>

lemma timestamp_texts:
  assumes "0 \<le> t" "t < 2 ^ 63"
  defines "s \<equiv> nat t div 1000000000" and "ms \<equiv> nat t div 1000000 mod 1000"
  shows "get_timestamp t = date_text (s div 86400) @ '' '' @ clock_text (s mod 86400) @ ''.'' @ decimal 3 ms"
proof -
  define now where "now = nat t"
  have now: "t = int now" "now < 2 ^ 63" using assms unfolding now_def by auto
  have small: "s < 9223372037" using now by (simp add: s_def less_mult_imp_div_less flip: now_def)
  then have days: "s div 86400 \<le> 106751" using div_le_mono [of s 9223372036 86400] by simp
  have "sint (to_time_t t) = int s"
  proof -
    have "duration_cast 1000000000 t = int s"
      using now by (simp add: duration_cast_nat zdiv_int s_def flip: now_def)
    moreover have "sint (word_of_int (int s) :: i64) = int s"
      unfolding sint_sbintrunc' by (rule signed_take_bit_int_eq_self) (use small in simp_all)
    ultimately show ?thesis by (simp only: to_time_t_def)
  qed
  then have buf: "strftime TIMESTAMP_BUFFER_SIZE (gmtime (sint (to_time_t t))) =
      date_text (s div 86400) @ '' '' @ clock_text (s mod 86400)"
    using format_time_texts [OF days] by (simp add: strftime_def TIMESTAMP_BUFFER_SIZE_def)
  have tot: "duration_cast 1000000 t = int (now div 1000000)" using now by (simp add: duration_cast_nat zdiv_int)
  have "sgn (int (now div 1000000)) * (\<bar>int (now div 1000000)\<bar> mod 1000) = int ms"
    by (cases "now div 1000000 = 0") (simp_all add: ms_def zmod_int flip: now_def)
  moreover have "ms < 10 ^ 3" by (simp add: ms_def)
  ultimately show ?thesis
    unfolding get_timestamp_def Let_def buf tot
    by (simp add: zero_padded_decimal TIMESTAMP_BUFFER_SIZE_def MS_PRECISION_def)
qed

lemma timestamp_less:
  assumes "0 \<le> t" "u < 2 ^ 63" "nat t div 1000000 < nat u div 1000000"
  shows "get_timestamp t < get_timestamp u"
proof -
  have "nat t < nat u" using assms(3) by (metis div_le_mono leD linorder_le_less_linear)
  then have r: "0 \<le> t" "t < 2 ^ 63" "0 \<le> u" "u < 2 ^ 63" using assms by auto
  define a b where "a = nat t div 1000000" and "b = nat u div 1000000"
  define s s' where "s = a div 1000" and "s' = b div 1000"
  have parts: "nat t div 1000000000 = s" "nat u div 1000000000 = s'"
    by (simp_all add: s_def s'_def a_def b_def div_mult2_eq [symmetric])
  have "nat u < 2 ^ 63" using r by (simp add: nat_less_iff)
  then have "s' < 9223372037" unfolding parts [symmetric] by (simp add: less_mult_imp_div_less)
  then have days: "s' div 86400 \<le> 106751" using div_le_mono [of s' 9223372036 86400] by simp
  have "s < s' \<or> s = s' \<and> a mod 1000 < b mod 1000"
    using assms(3) radix_less [of a 1000 b] by (simp add: s_def s'_def a_def b_def)
  then have "(s div 86400 < s' div 86400 \<or> s div 86400 = s' div 86400 \<and> s mod 86400 < s' mod 86400) \<or>
      s = s' \<and> a mod 1000 < b mod 1000"
    using radix_less [of s 86400 s'] by simp
  moreover have "decimal 3 (a mod 1000) < decimal 3 (b mod 1000) \<longleftrightarrow> a mod 1000 < b mod 1000"
    by (rule decimal_less) simp_all
  ultimately show ?thesis
    using date_text_less [of "s div 86400" "s' div 86400"] clock_text_less [of "s mod 86400" "s' mod 86400"] days
    unfolding timestamp_texts [OF r(1,2)] timestamp_texts [OF r(3,4)] parts a_def [symmetric] b_def [symmetric]
    by (auto simp: append_less_iff)
qed

text \<open>C40: the time stamps the log lines start with all have 23 characters, for every time the
  clock can show from 1970 on, and comparing two of them as strings compares the times: one is less
  than the other exactly when its millisecond comes earlier. So the lines of a log sort by time.\<close>

theorem timestamps_sort_by_time:
  assumes "0 \<le> t" "t < 2 ^ 63" "0 \<le> u" "u < 2 ^ 63"
  shows "length (get_timestamp t) = 23 \<and>
    (get_timestamp t < get_timestamp u \<longleftrightarrow> t div 1000000 < u div 1000000)"
proof
  show "length (get_timestamp t) = 23" by (simp add: timestamp_texts [OF assms(1,2)])
  have n: "x div 1000000 = int (nat x div 1000000)" if "0 \<le> x" for x :: time_point
    using that by (simp add: zdiv_int)
  have "nat t div 1000000 = nat u div 1000000 \<Longrightarrow> get_timestamp t = get_timestamp u"
  proof -
    assume e: "nat t div 1000000 = nat u div 1000000"
    have "x div 1000000000 = x div 1000000 div 1000" for x :: nat by (simp add: div_mult2_eq [symmetric])
    then show ?thesis unfolding timestamp_texts [OF assms(1,2)] timestamp_texts [OF assms(3,4)] by (simp only: e)
  qed
  then show "get_timestamp t < get_timestamp u \<longleftrightarrow> t div 1000000 < u div 1000000"
    using timestamp_less [OF assms(1,4)] timestamp_less [OF assms(3,2)]
    unfolding n [OF assms(1)] n [OF assms(3)]
    by (cases "nat t div 1000000" "nat u div 1000000" rule: linorder_cases) auto
qed

theorem timestamps_sort_by_time_witness:
  "length (get_timestamp 1700000000123456789) = 23 \<and>
    get_timestamp 1700000000123456789 < get_timestamp 1700000000124000000"
  using timestamps_sort_by_time [of 1700000000123456789 1700000000124000000] by simp

end
