(* ===== verification/Lobby.thy ===== *)
theory Lobby
  imports System_Correct
begin

text \<open>
  What the server promises, without sessions, handlers, queues or timers: a lobby, the clients that
  are in with their last sequence number and their stack. \<open>lobby\<close> reads it off the session table
  and the session objects. A handler of a session makes only lobby steps, whatever else it does.
\<close>

subsection \<open>The specification\<close>

type_synonym lobby = "string \<Rightarrow> (int \<times> int) option"

inductive lobby_step :: "int \<Rightarrow> lobby \<Rightarrow> lobby \<Rightarrow> bool" for gap where
  join: "L sid = None \<Longrightarrow> well_formed_session_id sid \<Longrightarrow> card (dom L) < 1000 \<Longrightarrow>
    lobby_step gap L (L(sid \<mapsto> (- 1, 0)))"
| act: "L sid = Some (q, k) \<Longrightarrow> q < q' \<Longrightarrow> q' \<le> q + gap \<Longrightarrow> lobby_step gap L (L(sid \<mapsto> (q', k)))"
| reload: "L sid = Some (q, k) \<Longrightarrow> 0 < a \<Longrightarrow> a \<le> 10 ^ 15 \<Longrightarrow>
    lobby_step gap L (L(sid \<mapsto> (q, min (k + a) (10 ^ 15))))"
| leave: "L sid \<noteq> None \<Longrightarrow> lobby_step gap L (L(sid := None))"
| shutdown: "lobby_step gap L (\<lambda>_. None)"

definition score :: "session \<Rightarrow> int \<times> int" where
  "score s = (sint (se_last_sequence_number s), sint (se_current_stack s))"

definition scores :: "system \<Rightarrow> session_ref \<Rightarrow> (int \<times> int) option" where
  "scores sy r = map_option score (sy_sessions sy r)"

definition lobby :: "system \<Rightarrow> lobby" where
  "lobby sy = scores sy \<circ>\<^sub>m table_of sy"

definition sequence_gap_of :: "runtime_config \<Rightarrow> int" where
  "sequence_gap_of c = uint (get_max_sequence_gap c)"

subsection \<open>Inside a handler\<close>

text \<open>The lobby as a handler of one session sees it: \<open>view\<close> holds the scores of the sessions before.\<close>

definition table_at :: "world \<Rightarrow> string \<Rightarrow> session_ref option" where
  "table_at w = (case w_manager w of None \<Rightarrow> (\<lambda>_. None) | Some m \<Rightarrow> om_find (cm_sessions m))"

definition lobby_at :: "(session_ref \<Rightarrow> (int \<times> int) option) \<Rightarrow> world \<Rightarrow> session \<Rightarrow> lobby" where
  "lobby_at view w s = view(se_self s \<mapsto> score s) \<circ>\<^sub>m table_at w"

lemma leaves: "(lobby_step gap)\<^sup>*\<^sup>* L (L(sid := None))"
proof (cases "L sid = None")
  case True
  then show ?thesis by (simp add: fun_upd_idem)
qed (blast intro: lobby_step.leave)

text \<open>What closing does to the world: at most an entry is taken out.\<close>

definition drops :: "string \<Rightarrow> world \<Rightarrow> world \<Rightarrow> bool" where
  "drops sid w w' \<longleftrightarrow> w_config w' = w_config w \<and>
     (w_manager w' = w_manager w \<or> w_manager w' = w_manager (unregister sid w))"

lemma drops_refl [simp, intro]: "drops sid w w"
  by (simp add: drops_def)

lemma drops_frame: "drops sid w w' \<Longrightarrow> w_manager w'' = w_manager w' \<Longrightarrow> w_config w'' = w_config w' \<Longrightarrow> drops sid w w''"
  by (simp add: drops_def)

lemma do_close_drops: "drops (se_session_id s) w (fst (do_close (w, s)))"
  by (auto simp: drops_def do_close_manager) (auto simp: do_close_def Let_def frame_simps timer_cancel_def split: option.split)

lemma close_body_drops: "drops (se_session_id s) w (fst (close_body (w, s)))"
  by (simp add: close_body_def do_close_drops)

lemma close_drops: "drops (se_session_id s) w (fst (close (w, s)))"
  using close_body_drops [of "s\<lparr>se_close_requested := True\<rparr>" w] by (simp add: close_def Let_def)

lemma on_write_drops: "drops (se_session_id s) w (fst (on_write ec b (w, s)))"
proof -
  have c: "drops (se_session_id s) w (fst (do_close (w', s')))"
    if "w_manager w' = w_manager w" "w_config w' = w_config w" "se_session_id s' = se_session_id s" for w' s'
    using do_close_drops [of s' w'] that by (simp add: drops_def manager_unregister)
  show ?thesis
    by (cases ec) (auto simp: on_write_def on_session_def say_def Let_def frame_simps intro!: c intro: drops_frame)
qed

lemma table_drops:
  assumes "w_manager w = Some m" "manager_ok m" "drops sid w w'"
  shows "table_at w' = table_at w \<or> table_at w' = (table_at w)(sid := None)"
  using assms unregister_table [OF assms(2), of sid] by (auto simp: drops_def table_at_def manager_unregister)

text \<open>The lobby has only moved by its own steps since it was \<open>L\<close>.\<close>

definition moving :: "runtime_config \<Rightarrow> (session_ref \<Rightarrow> (int \<times> int) option) \<Rightarrow> lobby \<Rightarrow> world \<Rightarrow> session \<Rightarrow> bool" where
  "moving conf view L w s \<longleftrightarrow>
     data_ok s \<and> w_config w = conf \<and> (lobby_step (sequence_gap_of conf))\<^sup>*\<^sup>* L (lobby_at view w s)"

lemma moving_drops:
  assumes "moving conf view L w s" "linked exact others w s" "drops sid w w'" "same_data s s'"
  shows "moving conf view L w' s'"
proof -
  obtain m where m: "w_manager w = Some m" "manager_ok m" using assms(2) by (auto simp: linked_def)
  have f: "se_self s' = se_self s" "score s' = score s" using assms(4) by (simp_all add: same_data_def score_def)
  have "lobby_at view w' s' = lobby_at view w s \<or> lobby_at view w' s' = (lobby_at view w s)(sid := None)"
    using table_drops [OF m assms(3)] unfolding lobby_at_def f by (auto simp: map_comp_def fun_eq_iff)
  then have "(lobby_step (sequence_gap_of conf))\<^sup>*\<^sup>* L (lobby_at view w' s')"
    using assms(1) leaves [of "sequence_gap_of conf" "lobby_at view w s" sid] by (auto simp: moving_def)
  then show ?thesis
    using assms(1,3) data_ok.same [OF _ assms(4)] by (simp add: moving_def drops_def)
qed

lemma moving_cong:
  assumes "moving conf view L w s" "w_manager w' = w_manager w" "w_config w' = w_config w"
    "se_self s' = se_self s" "score s' = score s" "data_ok s'"
  shows "moving conf view L w' s'"
  using assms by (simp add: moving_def lobby_at_def table_at_def)

lemma moving_enter:
  assumes "moving conf view L w s" "w_manager w = Some m" "manager_ok m" "se_state s = Unauthenticated"
    and "register_session rng (Some (se_self s)) m = (l, sid, m')" "sid \<noteq> []" "data_ok (s\<lparr>se_session_id := sid\<rparr>)"
  shows "moving conf view L (w\<lparr>w_manager := Some m'\<rparr>) (s\<lparr>se_session_id := sid\<rparr>)"
proof -
  define now where "now = lobby_at view w s"
  have r: "well_formed_session_id sid" "om_find (cm_sessions m) sid = None" "length (cm_sessions m) < 1000"
    "om_find (cm_sessions m') = (om_find (cm_sessions m))(sid \<mapsto> se_self s)"
    using register_session_registers [OF assms(5)] assms(3,6)
    by (auto simp: registered_as_def MAX_CONNECTIONS_def manager_ok_def om.find_put)
  have t: "table_at w = om_find (cm_sessions m)" using assms(2) by (simp add: table_at_def)
  have "dom now \<subseteq> dom (table_at w)" by (auto simp: now_def lobby_at_def map_comp_def split: option.splits)
  moreover have "finite (dom (table_at w))" "card (dom (table_at w)) < 1000"
    using assms(3) r(3) by (simp_all add: t manager_ok_def om.finite_dom flip: om.size_card)
  ultimately have "card (dom now) < 1000" by (meson card_mono le_less_trans)
  moreover have "now sid = None" using r(2) by (simp add: now_def lobby_at_def t)
  moreover have "lobby_at view (w\<lparr>w_manager := Some m'\<rparr>) (s\<lparr>se_session_id := sid\<rparr>) = now(sid \<mapsto> (- 1, 0))"
    using assms(1,4) r(4)
    by (auto simp: moving_def data_ok_def score_def PLACEHOLDER_STACK_def lobby_at_def now_def table_at_def assms(2)
        map_comp_def fun_eq_iff)
  ultimately have "lobby_step (sequence_gap_of conf) now (lobby_at view (w\<lparr>w_manager := Some m'\<rparr>) (s\<lparr>se_session_id := sid\<rparr>))"
    using lobby_step.join [of now sid "sequence_gap_of conf"] r(1) by simp
  then show ?thesis
    using assms(1,7) by (auto simp: moving_def now_def intro: rtranclp.rtrancl_into_rtrancl)
qed

text \<open>A change of the session's own score shows under its own id, when it is in the table.\<close>

lemma lobby_at_own:
  assumes "linked exact others w s" "se_self s' = se_self s"
  shows "lobby_at view w s' = lobby_at view w s \<or>
    lobby_at view w s (se_session_id s) = Some (score s) \<and>
    lobby_at view w s' = (lobby_at view w s)(se_session_id s \<mapsto> score s')"
proof -
  have own: "x = se_session_id s" if "table_at w x = Some (se_self s)" for x
    using assms(1) that by (simp add: linked_def entry_ok_def table_at_def split: option.splits)
  show ?thesis
proof (cases "table_at w (se_session_id s) = Some (se_self s)")
  case True
  have "lobby_at view w s' x = ((lobby_at view w s)(se_session_id s \<mapsto> score s')) x" for x
    using own [of x] True assms(2) by (cases "table_at w x") (auto simp: lobby_at_def)
  then show ?thesis using True by (simp add: lobby_at_def fun_eq_iff)
next
  case False
  then have other: "table_at w x \<noteq> Some (se_self s)" for x using own by blast
  have "lobby_at view w s' x = lobby_at view w s x" for x
    using assms(2) other [of x] by (cases "table_at w x") (auto simp: lobby_at_def)
  then show ?thesis by (simp add: fun_eq_iff)
qed
qed

lemma moving_own:
  assumes "moving conf view L w s" "linked exact others w s" "se_self s' = se_self s" "data_ok s'"
    and "\<And>now. now (se_session_id s) = Some (score s) \<Longrightarrow> lobby_step (sequence_gap_of conf) now (now(se_session_id s \<mapsto> score s'))"
  shows "moving conf view L w s'"
proof -
  have "lobby_at view w s' = lobby_at view w s \<or> lobby_step (sequence_gap_of conf) (lobby_at view w s) (lobby_at view w s')"
    using lobby_at_own [OF assms(2,3), of view] assms(5) by metis
  then show ?thesis
    using assms(1,4) unfolding moving_def by (metis rtranclp.rtrancl_into_rtrancl)
qed

lemma moving_acts:
  assumes "moving conf view L w s" "linked exact others w s" "se_state s = Authenticated"
    and "sint (se_last_sequence_number s) < sint seq"
    and "seq - se_last_sequence_number s \<le> get_max_sequence_gap (w_config w)"
  shows "moving conf view L w (s\<lparr>se_last_sequence_number := seq\<rparr>)"
proof (rule moving_own [OF assms(1,2)])
  have d: "data_ok s" "w_config w = conf"
    using assms(1) by (simp_all add: moving_def)
  show "data_ok (s\<lparr>se_last_sequence_number := seq\<rparr>)" by (rule data_ok.acted [OF d(1) assms(3,4)])
  have "uint (seq - se_last_sequence_number s) = sint seq - sint (se_last_sequence_number s)"
    using d(1) assms(4) by (intro uint_difference) (simp_all add: data_ok_def)
  then have "sint seq \<le> sint (se_last_sequence_number s) + sequence_gap_of conf"
    using assms(5) d(2) by (simp add: word_le_def sequence_gap_of_def)
  then show "lobby_step (sequence_gap_of conf) now (now(se_session_id s \<mapsto> score (s\<lparr>se_last_sequence_number := seq\<rparr>)))"
    if "now (se_session_id s) = Some (score s)" for now
    using that assms(4) lobby_step.act [of now "se_session_id s" _ _ "sint seq" "sequence_gap_of conf"] by (simp add: score_def)
qed simp

lemma moving_reloads:
  assumes "moving conf view L w s" "linked exact others w s" "se_state s = Authenticated" "amount_in_bounds a"
  shows "moving conf view L w (s\<lparr>se_current_stack := smin (se_current_stack s + a) (word_of_int MAX_AMOUNT)\<rparr>)"
proof (rule moving_own [OF assms(1,2)])
  have d: "data_ok s" using assms(1) by (simp add: moving_def)
  show "data_ok (s\<lparr>se_current_stack := smin (se_current_stack s + a) (word_of_int MAX_AMOUNT)\<rparr>)"
    by (rule data_ok.reloaded [OF d assms(3,4)])
  have "sint (smin (se_current_stack s + a) (word_of_int MAX_AMOUNT)) =
      min (sint (se_current_stack s) + sint a) (10 ^ 15)"
    using reloaded_stack [OF _ _ assms(4)] d by (simp add: data_ok_def MAX_AMOUNT_def)
  then show "lobby_step (sequence_gap_of conf) now (now(se_session_id s \<mapsto>
      score (s\<lparr>se_current_stack := smin (se_current_stack s + a) (word_of_int MAX_AMOUNT)\<rparr>)))"
    if "now (se_session_id s) = Some (score s)" for now
    using that assms(4) lobby_step.reload [of now "se_session_id s" _ _ "sint a" "sequence_gap_of conf"]
    by (simp add: score_def amount_in_bounds_def MAX_AMOUNT_def)
qed simp

text \<open>With the link between the session and its entry, this is an invariant of the handlers.\<close>

definition playing ::
  "bool \<Rightarrow> runtime_config \<Rightarrow> (session_ref \<Rightarrow> (int \<times> int) option) \<Rightarrow> (string \<Rightarrow> session_ref option) \<Rightarrow> lobby \<Rightarrow> world \<Rightarrow> session \<Rightarrow> bool" where
  "playing exact conf view others L w s \<longleftrightarrow> tied exact others w s \<and> moving conf view L w s"

definition playing_reading ::
  "bool \<Rightarrow> runtime_config \<Rightarrow> (session_ref \<Rightarrow> (int \<times> int) option) \<Rightarrow> (string \<Rightarrow> session_ref option) \<Rightarrow> lobby \<Rightarrow> world \<Rightarrow> session \<Rightarrow> bool" where
  "playing_reading exact conf view others L w s \<longleftrightarrow> tied_reading exact others w s \<and> moving conf view L w s"

definition playing_deadline ::
  "bool \<Rightarrow> runtime_config \<Rightarrow> (session_ref \<Rightarrow> (int \<times> int) option) \<Rightarrow> (string \<Rightarrow> session_ref option) \<Rightarrow> lobby \<Rightarrow> world \<Rightarrow> session \<Rightarrow> bool" where
  "playing_deadline exact conf view others L w s \<longleftrightarrow> tied_deadline exact others w s \<and> moving conf view L w s"

lemmas playing_defs = playing_def playing_reading_def playing_deadline_def

lemma only_notes_config: "only_notes w w' \<Longrightarrow> w_config w' = w_config w"
  by (simp add: only_notes_def)

lemma moving_notes: "moving conf view L w s \<Longrightarrow> only_notes w w' \<Longrightarrow> moving conf view L w' s"
  unfolding moving_def lobby_at_def table_at_def
  by (simp add: only_notes_manager only_notes_config)

lemma moving_same: "moving conf view L w s \<Longrightarrow> same_data s s' \<Longrightarrow> moving conf view L w s'"
  unfolding moving_def lobby_at_def using data_ok.same [of s s'] by (simp add: same_data_def score_def)

lemma moving_enqueue: "moving conf view L w s \<Longrightarrow> moving conf view L w (enqueue m s)"
  by (erule moving_same) (simp add: same_data_def)

interpretation playing_reading: handler_invariant "playing_reading exact conf view others L"
  for exact conf view others L
proof unfold_locales
  fix w s
  assume s: "playing_reading exact conf view others L w s"
  note a = s [unfolded playing_defs, THEN conjunct1] and l = s [unfolded playing_defs, THEN conjunct2]
  note k = a [unfolded tied_defs, THEN conjunct2] and d = l [unfolded moving_def, THEN conjunct1]
  note same = moving_same [OF l]
  show "playing_reading exact conf view others L w' s" if "only_notes w w'" for w'
    using tied_reading.frame [OF a that] moving_notes [OF l that] by (simp add: playing_defs)
  show "playing_reading exact conf view others L w (s\<lparr>se_metrics := sm\<rparr>)"
    if "messages_sent sm = messages_sent (se_metrics s)" for sm
    using tied_reading.metrics [OF a that] same by (simp add: playing_defs same_data_def)
  show "playing_reading exact conf view others L w (s\<lparr>se_message_timestamps := ts\<rparr>)" for ts
    using tied_reading.timestamps [OF a] same by (simp add: playing_defs same_data_def)
  show "playing_reading exact conf view others L w (s\<lparr>se_message_count := c, se_last_activity := t\<rparr>)" for c t
    using tied_reading.activity [OF a] same by (simp add: playing_defs same_data_def)
  show "playing_reading exact conf view others L w (enqueue m s)"
    if "is_open s" "length (se_write_queue s) < MAX_WRITE_QUEUE_SIZE" for m
    using tied_reading.enqueue [OF a that] moving_enqueue [OF l] by (simp add: playing_defs)
  show "playing_reading exact conf view others L (fst (close (w, s))) (snd (close (w, s)))"
    using tied_reading.close [OF a] moving_drops [OF l k close_drops close_same_data] by (simp add: playing_defs)
  show "playing_reading exact conf view others L (w\<lparr>w_manager := Some mgr'\<rparr>) s"
    if r: "w_manager w = Some mgr" "register_session (w_rng w) (Some (se_self s)) mgr = (ls, [], mgr')" for mgr ls mgr'
  proof -
    have "cm_sessions mgr' = cm_sessions mgr"
      using register_session_registers [OF r(2)] by (simp add: registered_as_def)
    then have "lobby_at view (w\<lparr>w_manager := Some mgr'\<rparr>) s = lobby_at view w s"
      using r(1) by (simp add: lobby_at_def table_at_def)
    then show ?thesis
      using tied_reading.refused [OF a r] l by (simp add: playing_defs moving_def)
  qed
  show "playing_reading exact conf view others L (w\<lparr>w_manager := Some mgr'\<rparr>) (s\<lparr>se_session_id := sid\<rparr>)"
    if r: "w_manager w = Some mgr" "se_state s = Unauthenticated" "se_session_id s = []"
      "register_session (w_rng w) (Some (se_self s)) mgr = (ls, sid, mgr')" "sid \<noteq> []" for mgr ls sid mgr'
  proof -
    have "manager_ok mgr" using k r(1) by (simp add: linked_def)
    then show ?thesis
      using tied_reading.registered [OF a r] moving_enter [OF l r(1) _ r(2,4,5) data_ok.named [OF d r(2,3,5)]]
      by (simp add: playing_defs)
  qed
  show "playing_reading exact conf view others L w (s\<lparr>se_state := Authenticated\<rparr>)"
    if "is_open s" "se_state s = Unauthenticated" "se_session_id s \<noteq> []"
    using tied_reading.authenticate [OF a that] data_ok.authenticated [OF d that(2,3)]
    by (auto simp: playing_defs score_def intro!: moving_cong [OF l])
  show "playing_reading exact conf view others L w (s\<lparr>se_last_sequence_number := seq\<rparr>)"
    if "se_state s = Authenticated" "sint (se_last_sequence_number s) < sint seq"
      "seq - se_last_sequence_number s \<le> get_max_sequence_gap (w_config w)" for seq
    using tied_reading.sequence [OF a that] moving_acts [OF l k that] by (simp add: playing_defs)
  show "playing_reading exact conf view others L w (s\<lparr>se_current_stack := smin (se_current_stack s + x) (word_of_int MAX_AMOUNT)\<rparr>)"
    if "is_open s" "se_state s = Authenticated" "amount_in_bounds x" for x
    using tied_reading.stack [OF a that] moving_reloads [OF l k that(2,3)] by (simp add: playing_defs)
qed

interpretation playing_deadline: refusal_invariant "playing_deadline exact conf view others L"
  for exact conf view others L
proof unfold_locales
  fix w s
  assume s: "playing_deadline exact conf view others L w s"
  note a = s [unfolded playing_defs, THEN conjunct1] and l = s [unfolded playing_defs, THEN conjunct2]
  note k = a [unfolded tied_defs, THEN conjunct2]
  note same = moving_same [OF l]
  show "playing_deadline exact conf view others L w' s" if "only_notes w w'" for w'
    using tied_deadline.frame [OF a that] moving_notes [OF l that] by (simp add: playing_defs)
  show "playing_deadline exact conf view others L w (s\<lparr>se_metrics := sm\<rparr>)"
    if "messages_sent sm = messages_sent (se_metrics s)" for sm
    using tied_deadline.metrics [OF a that] same by (simp add: playing_defs same_data_def)
  show "playing_deadline exact conf view others L w (s\<lparr>se_message_timestamps := ts\<rparr>)" for ts
    using tied_deadline.timestamps [OF a] same by (simp add: playing_defs same_data_def)
  show "playing_deadline exact conf view others L w (s\<lparr>se_message_count := c, se_last_activity := t\<rparr>)" for c t
    using tied_deadline.activity [OF a] same by (simp add: playing_defs same_data_def)
  show "playing_deadline exact conf view others L w (enqueue m s)"
    if "is_open s" "length (se_write_queue s) < MAX_WRITE_QUEUE_SIZE" for m
    using tied_deadline.enqueue [OF a that] moving_enqueue [OF l] by (simp add: playing_defs)
  show "playing_deadline exact conf view others L (fst (close (w, s))) (snd (close (w, s)))"
    using tied_deadline.close [OF a] moving_drops [OF l k close_drops close_same_data] by (simp add: playing_defs)
qed

interpretation playing: session_invariant "playing exact conf view others L" "playing_reading exact conf view others L"
    "playing_deadline exact conf view others L"
  for exact conf view others L
proof unfold_locales
  fix w s
  assume s: "playing exact conf view others L w s"
  note a = s [unfolded playing_defs, THEN conjunct1] and l = s [unfolded playing_defs, THEN conjunct2]
  note k = a [unfolded tied_defs, THEN conjunct2]
  note same = moving_same [OF l]
  note parts = playing_defs handler_fields same_data_def
  show "playing exact conf view others L w' s" if "only_notes w w'" for w'
    using tied.stable_frame [OF a that] moving_notes [OF l that] by (simp add: playing_defs)
  show "playing_reading exact conf view others L w (s\<lparr>se_reading := se_reading s - 1\<rparr>)" if "0 < se_reading s"
    using tied.read_begins [OF a that] same by (simp add: parts)
  show "playing exact conf view others L w (s\<lparr>se_reading := se_reading s - 1\<rparr>)"
    if "0 < se_reading s" "se_state s = Closed"
    using tied.read_ignored [OF a that] same by (simp add: parts)
  show "playing_deadline exact conf view others L w (s\<lparr>se_timer_done := d\<rparr>)" if "se_timer_done s = ec # d" for ec d
    using tied.deadline_begins [OF a that] same by (simp add: parts)
  show "playing exact conf view others L w (start_wait (s\<lparr>se_timer_done := d\<rparr>))"
    if "se_timer_done s = ec # d" "is_open s" for ec d
    using tied.deadline_again [OF a that] same by (simp add: parts)
  show "playing exact conf view others L w (timer_completes tec s)" if "0 < se_waits s" for tec
    using tied.timer_done [OF a that] same by (simp add: parts)
  show "playing exact conf view others L w ((timer_cancel (s\<lparr>se_accepting := se_accepting s - 1\<rparr>))\<lparr>se_state := Closed\<rparr>)"
    if "0 < se_accepting s" "se_state s \<noteq> Closed"
    using tied.accept_failed [OF a that] same by (simp add: parts)
  show "playing exact conf view others L w (s\<lparr>se_accepting := se_accepting s - 1\<rparr>)" if "0 < se_accepting s" "\<not> is_open s"
    using tied.accept_ignored [OF a that] same by (simp add: parts)
  show "playing exact conf view others L w (s\<lparr>se_accepting := se_accepting s - 1, se_reading := se_reading s + 1\<rparr>)"
    if "0 < se_accepting s" "is_open s"
    using tied.accepted [OF a that] same by (simp add: parts)
  show "playing exact conf view others L (fst (do_write (w, s\<lparr>se_tasks := ts\<rparr>))) (snd (do_write (w, s\<lparr>se_tasks := ts\<rparr>)))"
    if "se_tasks s = Do_write_task # ts" for ts
  proof -
    have "fst (do_write (w, s\<lparr>se_tasks := ts\<rparr>)) = w" by (simp add: do_write_def Let_def split: list.split)
    then show ?thesis using tied.write_task [OF a that] same [OF do_write_same_data] by (simp add: playing_defs)
  qed
  show "playing exact conf view others L (fst (close (w, s'))) (snd (close (w, s')))"
    if t: "se_tasks s = Do_write_task # ts" "se_state s \<noteq> Closed" "se_write_queue s = m # rest"
      "s' = s\<lparr>se_tasks := ts, se_write_queue := rest, se_writing := False\<rparr>" for ts m rest s'
    using tied.write_lost [OF a t] moving_drops [OF l k close_drops, of _ s'] same_data_trans [OF _ close_same_data, of s s' w]
    by (simp add: playing_defs same_data_def t(4))
  show "playing exact conf view others L (fst (close_body (w, s\<lparr>se_tasks := ts\<rparr>))) (snd (close_body (w, s\<lparr>se_tasks := ts\<rparr>)))"
    if "se_tasks s = Close_task # ts" for ts
  proof -
    have "same_data s (snd (close_body (w, s\<lparr>se_tasks := ts\<rparr>)))"
      using do_close_keeps [of s "s\<lparr>se_tasks := ts\<rparr>" w] by (simp add: close_body_def same_data_def)
    then show ?thesis
      using tied.close_task [OF a that] moving_drops [OF l k close_body_drops] by (simp add: playing_defs)
  qed
  show "playing exact conf view others L (fst (on_write ec b (w, s'))) (snd (on_write ec b (w, s')))"
    if t: "se_in_flight s = m # ms"
      "s' = s\<lparr>se_in_flight := ms, se_sent := se_sent s @ (if ec = No_error then [m] else [])\<rparr>" for m ms ec b s'
    using tied.write_done [OF a t] moving_drops [OF l k on_write_drops on_write_same_data] by (simp add: playing_defs t(2))
  show "playing exact conf view others L w (s\<lparr>se_ws_closing := se_ws_closing s - 1, se_socket_open := op\<rparr>)"
    if "0 < se_ws_closing s" for op
    using tied.ws_closed [OF a that] same by (simp add: parts)
  show "playing exact conf view others L w (enqueue m s)"
    if "is_open s" "length (se_write_queue s) < MAX_WRITE_QUEUE_SIZE" for m
    using tied.sent_outside [OF a that] moving_enqueue [OF l] by (simp add: playing_defs)
  show "playing exact conf view others L (fst (close_from_outside (w, s))) (snd (close_from_outside (w, s)))"
    using tied.closed_outside [OF a] same by (simp add: playing_defs close_from_outside_def Let_def same_data_def)
next
  fix w s
  assume s: "playing_reading exact conf view others L w s"
  note a = s [unfolded playing_defs, THEN conjunct1] and l = s [unfolded playing_defs, THEN conjunct2]
  note k = a [unfolded tied_defs, THEN conjunct2]
  show "playing exact conf view others L w s" if "\<not> is_open s" using tied.read_ends [OF a that] l by (simp add: playing_defs)
  show "playing exact conf view others L w ((timer_cancel s)\<lparr>se_expiry := e, se_reading := se_reading s + 1\<rparr>)"
    if "is_open s" "se_state s = Authenticated" for e
    using tied.read_again [OF a that] moving_same [OF l] by (simp add: playing_defs timer_cancel_def same_data_def)
  show "playing exact conf view others L (if se_session_id s = [] then w else unregister (se_session_id s) w)
      (timer_cancel (s\<lparr>se_state := Closed\<rparr>))" if "se_state s \<noteq> Closed"
  proof -
    have "drops (se_session_id s) w (if se_session_id s = [] then w else unregister (se_session_id s) w)"
      by (simp add: drops_def config_unregister)
    then show ?thesis
      using tied.read_failed [OF a that] moving_drops [OF l k] by (simp add: playing_defs timer_cancel_def same_data_def)
  qed
next
  fix w s
  assume s: "playing_deadline exact conf view others L w s" "\<not> is_open s"
  then show "playing exact conf view others L w s" using tied.deadline_ends [of _ _ w s] by (simp add: playing_defs)
qed

end
