(* ===== verification/Lobby_Refinement.thy ===== *)
theory Lobby_Refinement
  imports Lobby
begin

text \<open>
  Every step of the server is a sequence of lobby steps.
\<close>

subsection \<open>Every step of the server\<close>

lemma table_of_at: "table_of sy = table_at (sy_world sy)"
  by (simp add: table_of_def table_at_def)

lemma lobby_of_session:
  assumes "sy_sessions sy (se_self s) = Some s"
  shows "lobby sy = lobby_at (scores sy) (sy_world sy) s"
proof -
  have "(scores sy)(se_self s \<mapsto> score s) = scores sy" using assms by (simp add: scores_def fun_upd_idem)
  then show ?thesis by (simp add: lobby_def lobby_at_def table_of_at)
qed

definition lobby_moves :: "system \<Rightarrow> system \<Rightarrow> bool" where
  "lobby_moves sy sy' \<longleftrightarrow> w_config (sy_world sy') = w_config (sy_world sy) \<and>
     (lobby_step (sequence_gap_of (w_config (sy_world sy))))\<^sup>*\<^sup>* (lobby sy) (lobby sy')"

lemma lobby_moves_idle: "w_config (sy_world sy') = w_config (sy_world sy) \<Longrightarrow> lobby sy' = lobby sy \<Longrightarrow> lobby_moves sy sy'"
  by (simp add: lobby_moves_def)

lemma lobby_moves_trans: "lobby_moves sy sy' \<Longrightarrow> lobby_moves sy' sy'' \<Longrightarrow> lobby_moves sy sy''"
  by (auto simp: lobby_moves_def sequence_gap_of_def)

lemma lobby_event:
  assumes "system_ok J sy" "sy_sessions sy r = Some s" "enabled ev (sy_world sy, s)"
  shows "lobby_moves sy (session_event J r ev s sy)"
proof -
  define sy' where "sy' = session_event J r ev s sy"
  define conf where "conf = w_config (sy_world sy)"
  note s = system_session(1,2) [OF assms(1,2)] system_session(3) [OF assms(1,2), of "sy_world sy"]
  have l: "lobby sy = lobby_at (scores sy) (sy_world sy) s" using assms(2) s(1) by (intro lobby_of_session) simp
  have "data_ok s" using reach_data [OF s(3)] by simp
  then have p: "playing (\<not> sv_stopped (sy_server sy)) conf (scores sy) (table_of sy) (lobby sy) (sy_world sy) s"
    using session_tied [OF assms(1,2)] by (simp add: playing_def moving_def conf_def flip: l)
  define st where "st = perform J ev (sy_world sy, s)"
  have st: "se_self (snd st) = r" "sy' = sy\<lparr>sy_world := fst st, sy_sessions := (sy_sessions sy)(r \<mapsto> snd st)\<rparr>"
    using perform_ahead [OF s(3) assms(3)] s(1) by (simp_all add: ahead_def st_def sy'_def session_event_def Let_def)
  have m: "moving conf (scores sy) (lobby sy) (fst st) (snd st)"
    using playing.perform_stable [of "\<not> sv_stopped (sy_server sy)" conf "scores sy" "table_of sy" "lobby sy"
        "(sy_world sy, s)" ev J] p assms(3) reach_quiet [OF s(3)]
    by (simp add: playing.stable_def st_def) (simp add: playing_def)
  have "(scores sy)(r \<mapsto> score (snd st)) = scores sy'" by (auto simp: scores_def st(2))
  then have "lobby sy' = lobby_at (scores sy) (fst st) (snd st)"
    by (simp add: lobby_def lobby_at_def table_of_at st)
  then show ?thesis
    using m by (simp add: moving_def lobby_moves_def conf_def st(2) flip: sy'_def)
qed

lemma server_handlers_config:
  "w_config (fst (start_accept st)) = w_config (fst st)"
  "w_config (fst (accept_failed k msg st)) = w_config (fst st)"
  "w_config (fst (snd (accept_arrived st))) = w_config (fst st)"
  "w_config (fst (on_backoff_timer t b st)) = w_config (fst st)"
  by (simp_all add: start_accept_def accept_failed_def accept_arrived_def on_backoff_timer_def start_backoff_def
      say_server_def Let_def frame_simps)

text \<open>The lobby depends only on the table and the sessions in it.\<close>

lemma lobby_cong:
  assumes "table_of sy' = table_of sy" "\<And>x r. table_of sy x = Some r \<Longrightarrow> sy_sessions sy' r = sy_sessions sy r"
  shows "lobby sy' = lobby sy"
proof
  fix x
  show "lobby sy' x = lobby sy x"
    using assms(2) [of x] by (cases "table_of sy x") (simp_all add: lobby_def scores_def assms(1))
qed

lemma lobby_on_server:
  assumes "w_manager (fst (f (sy_world sy, sy_server sy))) = w_manager (sy_world sy)"
    and "w_config (fst (f (sy_world sy, sy_server sy))) = w_config (sy_world sy)"
  shows "lobby_moves sy (on_server f sy)"
  using assms
  by (intro lobby_moves_idle lobby_cong) (simp_all add: on_server_def Let_def table_of_def)

lemma lobby_open_connection:
  assumes "system_ok J sy"
  shows "lobby_moves sy (open_connection made sy)"
proof (rule lobby_moves_idle)
  have fresh_ref: "r \<noteq> sy_next sy" if "table_of sy x = Some r" for x r
    using assms that system_session(2) [OF assms] by (fastforce simp: system_ok_def entries_ok_def)
  have c: "w_config (fst (run fault (new_session r ht tcp w))) = w_config w" for fault r ht tcp w
    by (rule only_notes_config [OF begun(7)])
  show "w_config (sy_world (open_connection made sy)) = w_config (sy_world sy)"
    by (simp add: open_connection_def Let_def c frame_simps split: sum.split prod.split)
  have "w_manager (sy_world (open_connection made sy)) = w_manager (sy_world sy)"
    by (simp add: open_connection_def Let_def frame_simps split: sum.split prod.split)
  then show "lobby (open_connection made sy) = lobby sy"
    using fresh_ref
    by (intro lobby_cong) (auto simp: table_of_def open_connection_def Let_def split: sum.split prod.split)
qed

lemma lobby_accept_completes:
  assumes "system_ok J sy"
  shows "lobby_moves sy (accept_completes ec made sy)"
proof -
  define sy0 where "sy0 = sy\<lparr>sy_server := (sy_server sy)\<lparr>sv_accepting := sv_accepting (sy_server sy) - 1\<rparr>\<rparr>"
  have e: "accept_completes ec made sy = on_server_accept ec made sy0" by (simp add: accept_completes_def sy0_def)
  have m0: "lobby_moves sy sy0" by (intro lobby_moves_idle lobby_cong) (simp_all add: sy0_def table_of_def)
  show ?thesis
  proof (cases ec)
    case No_error
    obtain b st where a: "accept_arrived (sy_world sy0, sy_server sy0) = (b, st)"
      by (cases "accept_arrived (sy_world sy0, sy_server sy0)")
    define sy1 where "sy1 = sy0\<lparr>sy_world := fst st, sy_server := snd st\<rparr>"
    have f: "w_manager (fst st) = w_manager (sy_world sy0)" "w_config (fst st) = w_config (sy_world sy0)"
      "sv_stopped (snd st) = sv_stopped (sy_server sy0)"
      using server_handlers_frame(5,6) [of "(sy_world sy0, sy_server sy0)"]
        server_handlers_config(3) [of "(sy_world sy0, sy_server sy0)"] by (simp_all add: a)
    have "lobby_moves sy0 sy1" using f by (intro lobby_moves_idle lobby_cong) (simp_all add: sy1_def table_of_def)
    then have m1: "lobby_moves sy sy1" by (rule lobby_moves_trans [OF m0])
    have "system_ok J sy1" using f by (intro system_ok_cong [OF assms]) (simp_all add: sy1_def sy0_def)
    then have "lobby_moves sy (open_connection made sy1)"
      by (rule lobby_moves_trans [OF m1 lobby_open_connection])
    then have "lobby_moves sy (on_server start_accept (open_connection made sy1))"
      by (rule lobby_moves_trans [OF _ lobby_on_server]) (simp_all add: server_handlers_frame server_handlers_config)
    then show ?thesis
      using m1 unfolding e on_server_accept_def by (cases b) (simp_all add: No_error a flip: sy1_def)
  next
    case (Err k msg)
    have "lobby_moves sy (on_server (accept_failed k msg) sy0)"
      by (rule lobby_moves_trans [OF m0 lobby_on_server]) (simp_all add: server_handlers_frame server_handlers_config)
    then show ?thesis unfolding e on_server_accept_def by (simp add: Err)
  qed
qed

lemma lobby_release:
  assumes "system_ok J sy" "sy_sessions sy r = Some s" "\<not> in_table r (sy_world sy)"
  shows "lobby_moves sy (release_session r s sy)"
proof -
  define sy' where "sy' = release_session r s sy"
  obtain m where m: "w_manager (sy_world sy) = Some m" "manager_ok m"
    using assms(1) by (auto simp: system_ok_def world_ok_def)
  have gone: "table_of sy x \<noteq> Some r" for x
    using assms(1,3) in_table_iff [of sy r] by (auto simp: system_ok_def)
  have d: "drops (se_session_id s) (sy_world sy) (sy_world sy')"
    by (auto simp: drops_def sy'_def release_session_def destroy_def Let_def timer_cancel_def frame_simps)
  have t: "table_of sy' = table_of sy \<or> table_of sy' = (table_of sy)(se_session_id s := None)"
    using table_drops [OF m d] by (simp add: table_of_at)
  have "lobby sy' = lobby sy \<or> lobby sy' = (lobby sy)(se_session_id s := None)"
  proof -
    have "scores sy' u = scores sy u" if "table_of sy x = Some u" for x u
      using gone [of x] that by (auto simp: scores_def sy'_def release_session_def)
    then have "lobby sy' x = (scores sy \<circ>\<^sub>m table_of sy') x" for x
      using t by (cases "table_of sy' x") (auto simp: lobby_def split: if_splits)
    then show ?thesis using t by (auto simp: lobby_def fun_eq_iff map_comp_def)
  qed
  then show ?thesis
    using d leaves [of _ "lobby sy" "se_session_id s"] by (auto simp: lobby_moves_def drops_def simp flip: sy'_def)
qed

lemma lobby_stop:
  assumes "system_ok J sy"
  shows "lobby_moves sy (stop_server sy)"
proof (cases "sv_stopped (sy_server sy)")
  case True
  then show ?thesis by (simp add: stop_server_def lobby_moves_idle)
next
  case False
  obtain m where m: "w_manager (sy_world sy) = Some m" using assms by (auto simp: system_ok_def world_ok_def)
  obtain lines refs m' where st: "stop_all m = (lines, refs, m')" by (cases "stop_all m")
  have "w_manager (sy_world (stop_server sy)) = Some m'" "w_config (sy_world (stop_server sy)) = w_config (sy_world sy)"
    by (rule stop_server_steps [OF False m st], simp)+
  moreover have "om_find (cm_sessions m') = (\<lambda>_. None)"
    using st by (auto simp: stop_all_def om.find_empty)
  ultimately have "lobby (stop_server sy) = (\<lambda>_. None)" "w_config (sy_world (stop_server sy)) = w_config (sy_world sy)"
    by (simp_all add: lobby_def table_of_def fun_eq_iff map_comp_def)
  then show ?thesis by (auto simp: lobby_moves_def intro: lobby_step.shutdown)
qed

lemma lobby_system_step:
  assumes "system_step J sy sy'" "system_ok J sy"
  shows "lobby_moves sy sy'"
  using assms(1)
proof cases
  case (session r s ev)
  then show ?thesis using lobby_event assms(2) by blast
next
  case (release r s)
  then show ?thesis using lobby_release assms(2) by blast
next
  case (accept ec made)
  then show ?thesis using lobby_accept_completes assms(2) by blast
next
  case (elapse t due)
  then show ?thesis by (intro lobby_moves_idle lobby_cong) (simp_all add: table_of_def)
next
  case (backoff t elapsed rest)
  then show ?thesis by (simp add: lobby_on_server server_handlers_frame server_handlers_config)
next
  case stop
  then show ?thesis using lobby_stop assms(2) by blast
qed

lemma lobby_run:
  assumes "(system_step J)\<^sup>*\<^sup>* sy sy'" "system_ok J sy"
  shows "lobby_moves sy sy' \<and> system_ok J sy'"
  using assms
proof (induction rule: rtranclp_induct)
  case base
  then show ?case by (simp add: lobby_moves_idle)
next
  case (step sy1 sy2)
  then show ?case using lobby_system_step [of J sy1 sy2] system_step_ok [of J sy1 sy2] lobby_moves_trans by blast
qed

lemma lobby_at_start:
  assumes "system_reach J sy"
  shows "(lobby_step (sequence_gap_of (w_config (sy_world sy))))\<^sup>*\<^sup>* (\<lambda>_. None) (lobby sy)"
  using assms
proof (induction rule: system_reach.induct)
  case (start aa port ht w w1 v)
  have "sy_sessions (start_system (w1, v)) = (\<lambda>_. None)" by (simp add: start_system_def Let_def)
  then have "lobby (start_system (w1, v)) = (\<lambda>_. None)"
    by (auto simp: lobby_def scores_def fun_eq_iff map_comp_def split: option.split)
  then show ?case by simp
next
  case (step sy sy')
  then show ?case
    using lobby_system_step [OF step.hyps(2) system_reach_ok [OF step.hyps(1)]]
    by (auto simp: lobby_moves_def)
qed



end
