(* ===== verification/Session_Silence.thy ===== *)
theory Session_Silence
  imports Session_Commands
begin

text \<open>
  A client that falls silent does not keep its session: once its time has run out, the timer alone
  brings the session to its end, whatever it was doing.
\<close>

subsection \<open>The session left to itself\<close>

text \<open>The session's own steps when nothing arrives and its time is over: the wait ends, its handler
  runs; once the session is asked to close its tasks and writes are completed.\<close>

fun run_out :: "'j ext \<Rightarrow> nat \<Rightarrow> st \<Rightarrow> st" where
  "run_out J 0 st = st"
| "run_out J (Suc n) st =
     (if \<not> is_open (snd st) then drain J (Suc n) st
      else run_out J n (perform J (if se_timer_done (snd st) = [] then Timer_expires else Timer_handler) st))"

subsection \<open>A refusal, step by step\<close>

lemma error_sent:
  "is_open (snd (send_protocol_error J c m st)) = is_open (snd st)"
  "drain_measure (snd (send_protocol_error J c m st)) \<le> drain_measure (snd st) + 4"
proof -
  have e: "drain_measure (enqueue x s) \<le> drain_measure s + 4" for x s
    by (simp add: enqueue_def drain_measure_def)
  have "is_open (snd (send_protocol_error J c m st)) = is_open (snd st) \<and>
      drain_measure (snd (send_protocol_error J c m st)) \<le> drain_measure (snd st) + 4"
  proof (cases "serialize_error J \<lparr>em_error_code = c, em_message = m,
      em_session_id = (if se_session_id (snd st) \<noteq> [] then Some (se_session_id (snd st)) else None)\<rparr>")
    case (Inl x)
    then show ?thesis by (simp add: send_protocol_error_def Let_def)
  next
    case (Inr x)
    then show ?thesis
      using e send_accepted [of x st] send_rejected [of x st]
      by (cases "send x st"; cases "fst (send x st)")
        (simp_all add: send_protocol_error_def Let_def del: append_Cons, simp_all add: is_open_def drain_measure_def)
  qed
  then show "is_open (snd (send_protocol_error J c m st)) = is_open (snd st)"
    "drain_measure (snd (send_protocol_error J c m st)) \<le> drain_measure (snd st) + 4" by blast+
qed

lemma closing_now:
  assumes "write_pipeline (snd st)" "is_open (snd st)"
  shows "if se_state (snd (close st)) = Closed then se_sent (snd (close st)) = se_queued (snd (close st))
      else drain_measure (snd (close st)) = drain_measure (snd st)"
proof (cases "se_writing (snd st)")
  case True
  then show ?thesis using assms(2) by (simp add: close_def close_body_def Let_def is_open_def drain_measure_def)
next
  case False
  then have "se_in_flight (snd st) = []" "se_write_queue (snd st) = []" "\<not> se_close_initiated (snd st)"
    "se_queued (snd st) = se_sent (snd st) @ se_in_flight (snd st) @ se_write_queue (snd st)"
    using assms by (auto simp: write_pipeline_def pipeline_shape_def is_open_def)
  then show ?thesis
    using False assms(2) by (simp add: close_def close_body_def Let_def is_open_def do_close_state do_close_fields)
qed

lemma refused_closing:
  assumes "write_pipeline (snd st)" "is_open (snd st)"
  shows "if se_state (snd (refuse J l c m st)) = Closed
      then se_sent (snd (refuse J l c m st)) = se_queued (snd (refuse J l c m st))
      else drain_measure (snd (refuse J l c m st)) \<le> drain_measure (snd st) + 4"
proof -
  define st1 where "st1 = send_protocol_error J c m (say (log_error l) st)"
  have "write_pipeline (snd st1)"
    using pipeline_refusal.holds_send_protocol_error [of "say (log_error l) st" J c m] assms(1)
    by (simp add: pipeline_refusal.holds_def st1_def)
  moreover have "is_open (snd st1)" "drain_measure (snd st1) \<le> drain_measure (snd st) + 4"
    using error_sent [of J c m "say (log_error l) st"] assms(2) by (simp_all add: st1_def)
  ultimately show ?thesis
    using closing_now [of st1] by (auto simp: refuse_def simp flip: st1_def split: if_splits)
qed

subsection \<open>The timer\<close>

lemma run_out_closing:
  assumes "session_reach J st" "\<not> is_open (snd st)" "se_state (snd st) \<noteq> Closed \<Longrightarrow> drain_measure (snd st) \<le> n"
    and "se_state (snd st) = Closed \<Longrightarrow> se_sent (snd st) = se_queued (snd st)"
  shows "se_state (snd (run_out J n st)) = Closed \<and> se_sent (snd (run_out J n st)) = se_queued (snd (run_out J n st))"
proof (cases "se_state (snd st) = Closed")
  case True
  then have "run_out J n st = st" using assms(2) by (cases n) simp_all
  then show ?thesis using True assms(4) by simp
next
  case False
  then have "se_close_requested (snd st)" using assms(2) by (simp add: is_open_def)
  moreover have "run_out J n st = drain J n st" using assms(2) by (cases n) simp_all
  ultimately show ?thesis using drain_closes [OF assms(1) _ False assms(3) [OF False]] by simp
qed

lemma elapsed:
  assumes "session_reach J st" "is_open (snd st)" "se_timer_done (snd st) = [No_error]"
    and "drain_measure (snd st) + 5 \<le> n"
  shows "se_state (snd (run_out J n st)) = Closed \<and> se_sent (snd (run_out J n st)) = se_queued (snd (run_out J n st))"
proof -
  define st' where "st' = perform J Timer_handler st"
  define st1 where "st1 = (fst st, (snd st)\<lparr>se_timer_done := []\<rparr>)"
  have r: "session_reach J st'"
    unfolding st'_def using assms(3) by (intro session_reach.step [OF assms(1)]) (simp add: enabled_def Let_def)
  have 1: "write_pipeline (snd st1)" "is_open (snd st1)" "drain_measure (snd st1) = drain_measure (snd st)"
    using reach_pipeline [OF assms(1)] assms(2)
    by (simp_all add: st1_def write_pipeline_def pipeline_shape_def is_open_def drain_measure_def)
  have "\<exists>l c m. st' = refuse J l c m st1"
    using 1(2) unfolding st'_def perform_def Let_def on_deadline_def assms(3)
    by (auto simp: st1_def is_open_def simp del: append_Cons split_paired_Ex)
  then obtain l c m where s: "st' = refuse J l c m st1" by blast
  obtain k where n: "n = Suc k" "drain_measure (snd st) + 4 \<le> k" using assms(4) by (cases n) simp_all
  have "run_out J n st = run_out J k st'" using assms(2,3) by (simp add: n(1) st'_def)
  moreover have "\<not> is_open (snd st')" by (simp add: s refuse_not_open)
  ultimately show ?thesis
    using run_out_closing [OF r, of k] refused_closing [OF 1(1,2), of J l c m] n(2) 1(3) s
    by (auto split: if_splits)
qed

lemma expired:
  assumes "session_reach J st" "is_open (snd st)" "se_timer_done (snd st) = []"
    and "se_expiry (snd st) \<le> steady_now (fst st)" "drain_measure (snd st) + 6 \<le> n"
  shows "se_state (snd (run_out J n st)) = Closed \<and> se_sent (snd (run_out J n st)) = se_queued (snd (run_out J n st))"
proof -
  define st' where "st' = perform J Timer_expires st"
  have w: "se_waits (snd st) = 1"
    using reach_armed [OF assms(1)] assms(2,3) by (simp add: armed_def deadlines_def)
  then have "session_reach J st'"
    unfolding st'_def using assms(4) by (intro session_reach.step [OF assms(1)]) (simp add: enabled_def Let_def)
  moreover have "is_open (snd st')" "se_timer_done (snd st') = [No_error]" "drain_measure (snd st') = drain_measure (snd st)"
    using assms(2,3) w by (simp_all add: st'_def perform_def timer_completes_def Let_def is_open_def drain_measure_def)
  moreover obtain k where "n = Suc k" "drain_measure (snd st) + 5 \<le> k" using assms(5) by (cases n) simp_all
  moreover from this(1) have "run_out J n st = run_out J k st'" using assms(2,3) by (simp add: st'_def)
  ultimately show ?thesis using elapsed [of J st' k] by simp
qed

lemma run_out_closes:
  assumes "session_reach J st" and "se_state (snd st) \<noteq> Closed"
    and "se_expiry (snd st) \<le> steady_now (fst st)"
    and "3 * length (se_write_queue (snd st)) + length (se_tasks (snd st)) + 9 \<le> n"
  shows "se_state (snd (run_out J n st)) = Closed \<and>
     se_sent (snd (run_out J n st)) = se_queued (snd (run_out J n st))"
proof -
  have "length (se_in_flight (snd st)) \<le> 1"
    using reach_pipeline [OF assms(1)] by (cases "se_writing (snd st)") (auto simp: write_pipeline_def pipeline_shape_def)
  then have n: "drain_measure (snd st) + 7 \<le> n" using assms(4) by (simp add: drain_measure_def)
  show ?thesis
  proof (cases "is_open (snd st)")
    case False
    then show ?thesis using run_out_closing [OF assms(1)] assms(2) n by simp
  next
    case o: True
    have d: "se_waits (snd st) + length (se_timer_done (snd st)) = 1"
      using reach_armed [OF assms(1)] o by (simp add: armed_def deadlines_def)
    consider "se_timer_done (snd st) = []" | "se_timer_done (snd st) = [No_error]"
      | k msg where "se_timer_done (snd st) = [Err k msg]"
      using d by (cases "se_timer_done (snd st)"; cases "hd (se_timer_done (snd st))") auto
    then show ?thesis
    proof cases
      case 1
      then show ?thesis using expired [OF assms(1) o 1 assms(3)] n by simp
    next
      case 2
      then show ?thesis using elapsed [OF assms(1) o 2] n by simp
    next
      case (3 k msg)
      define st' where "st' = perform J Timer_handler st"
      have "session_reach J st'"
        unfolding st'_def using 3 by (intro session_reach.step [OF assms(1)]) (simp add: enabled_def Let_def)
      moreover have "is_open (snd st')" "se_timer_done (snd st') = []" "se_expiry (snd st') \<le> steady_now (fst st')"
        "drain_measure (snd st') = drain_measure (snd st)"
        using o 3 assms(3) by (cases k; simp add: st'_def perform_def on_deadline_def check_deadline_def start_wait_def
            on_session_def say_def emit_def steady_now_def Let_def is_open_def drain_measure_def)+
      moreover obtain k where "n = Suc k" "drain_measure (snd st) + 6 \<le> k" using n by (cases n) simp_all
      moreover from this(1) have "run_out J n st = run_out J k st'" using o 3 by (simp add: st'_def)
      ultimately show ?thesis using expired [of J st' k] by simp
    qed
  qed
qed



end
