(* ===== verification/System_Liveness.thy ===== *)
theory System_Liveness
  imports System_Correct Session_Silence
begin

text \<open>
  What becomes of a client that falls silent, in the whole server: its session is closed, its seat in
  the table is given up, what the session still has pending comes to its end and the session object
  is destroyed, while all other sessions stay as they are.
\<close>

subsection \<open>Steps of one session\<close>

inductive session_step :: "'j ext \<Rightarrow> st \<Rightarrow> st \<Rightarrow> bool" for J where
  "enabled ev st \<Longrightarrow> session_step J st (perform J ev st)"

lemma session_steps_reach: "(session_step J)\<^sup>*\<^sup>* st st' \<Longrightarrow> session_reach J st \<Longrightarrow> session_reach J st'"
  by (induction rule: rtranclp_induct) (auto elim!: session_step.cases intro: session_reach.step)

lemma drain_steps: "(session_step J)\<^sup>*\<^sup>* st (drain J n st)"
proof (induction n arbitrary: st)
  case (Suc n)
  have t: "session_step J st (perform J Run_task st)" if "se_tasks (snd st) \<noteq> []"
    by (rule session_step.intros) (simp add: enabled_def Let_def that)
  have w: "session_step J st (perform J (Write_done No_error 0) st)" if "se_in_flight (snd st) \<noteq> []"
    by (rule session_step.intros) (simp add: enabled_def Let_def that)
  show ?case
    using converse_rtranclp_into_rtranclp [OF t Suc.IH] converse_rtranclp_into_rtranclp [OF w Suc.IH] by simp
qed simp

text \<open>A session that was left to itself got where it is by steps of its own.\<close>

definition overdue :: "st \<Rightarrow> bool" where
  "overdue st \<longleftrightarrow> (is_open (snd st) \<longrightarrow> se_expiry (snd st) \<le> steady_now (fst st))"

lemma overdue_timer:
  assumes "overdue st" "is_open (snd st)"
  shows "overdue (perform J Timer_expires st)" "overdue (perform J Timer_handler st)"
proof -
  have d: "se_expiry (snd st) \<le> w_clock (fst st) (w_ticks (fst st))"
    using assms by (simp add: overdue_def steady_now_def)
  show "overdue (perform J Timer_expires st)"
    using d by (simp add: overdue_def perform_def timer_completes_def Let_def steady_now_def)
  define st1 where "st1 = (fst st, (snd st)\<lparr>se_timer_done := tl (se_timer_done (snd st))\<rparr>)"
  have "overdue (on_deadline J ec st1)" for ec
  proof (cases ec)
    case No_error
    have "overdue (refuse J l c m st1)" for l c m by (simp add: overdue_def refuse_not_open)
    then show ?thesis
      using assms(2) by (simp add: on_deadline_def No_error Let_def st1_def is_open_def)
  next
    case (Err k msg)
    then show ?thesis
      using d by (cases k) (simp_all add: on_deadline_def check_deadline_def start_wait_def on_session_def Let_def
          say_def emit_def overdue_def steady_now_def st1_def)
  qed
  then show "overdue (perform J Timer_handler st)" by (simp add: perform_def Let_def st1_def)
qed

lemma run_out_steps: "session_reach J st \<Longrightarrow> overdue st \<Longrightarrow> (session_step J)\<^sup>*\<^sup>* st (run_out J n st)"
proof (induction n arbitrary: st)
  case (Suc n)
  show ?case
  proof (cases "is_open (snd st)")
    case False
    then show ?thesis using drain_steps [of J st "Suc n"] by simp
  next
    case True
    define ev where "ev = (if se_timer_done (snd st) = [] then Timer_expires else Timer_handler)"
    have "se_waits (snd st) + length (se_timer_done (snd st)) = 1"
      using reach_armed [OF Suc.prems(1)] True by (simp add: armed_def deadlines_def)
    then have e: "enabled ev st"
      using Suc.prems(2) True by (auto simp: ev_def enabled_def Let_def overdue_def)
    have "(session_step J)\<^sup>*\<^sup>* (perform J ev st) (run_out J n (perform J ev st))"
      by (rule Suc.IH [OF session_reach.step [OF Suc.prems(1) e]])
        (use overdue_timer [OF Suc.prems(2) True, of J] in \<open>simp add: ev_def\<close>)
    moreover have "run_out J (Suc n) st = run_out J n (perform J ev st)" using True by (simp add: ev_def)
    ultimately show ?thesis using session_step.intros [OF e, of J] by (metis converse_rtranclp_into_rtranclp)
  qed
qed simp

subsection \<open>Winding down\<close>

text \<open>What a closed session still has pending, and one way each of it can end.\<close>

definition pending :: "session \<Rightarrow> nat" where
  "pending s = length (se_tasks s) + length (se_in_flight s) + se_accepting s + se_reading s + se_ws_closing s +
     2 * se_waits s + length (se_timer_done s)"

definition next_end :: "session \<Rightarrow> event" where
  "next_end s =
     (let aborted = Err Operation_aborted ''Operation canceled'' in
      if se_tasks s \<noteq> [] then Run_task
      else if se_in_flight s \<noteq> [] then Write_done aborted 0
      else if 0 < se_accepting s then Accept_done aborted
      else if 0 < se_reading s then Read_done aborted 0 []
      else if 0 < se_ws_closing s then Ws_close_done No_error
      else if 0 < se_waits s then Timer_fails []
      else Timer_handler)"

lemma next_end_enabled: "\<not> unreferenced s \<Longrightarrow> enabled (next_end s) (w, s)"
  by (auto simp: next_end_def enabled_def unreferenced_def Let_def)

lemma closed_task:
  assumes "se_state s = Closed"
  shows "se_state (snd (run_task k (w, s))) = Closed \<and> pending (snd (run_task k (w, s))) = pending s"
  using assms
  by (cases k) (simp_all add: run_task_def do_write_def close_body_def do_close_def Let_def pending_def)

lemma next_end_progress:
  assumes "se_state s = Closed" "\<not> unreferenced s" "se_waits s \<le> 1"
  shows "se_state (snd (perform J (next_end s) (w, s))) = Closed \<and>
     pending (snd (perform J (next_end s) (w, s))) < pending s"
proof -
  consider (task) "se_tasks s \<noteq> []" | (sending) "se_tasks s = []" "se_in_flight s \<noteq> []"
    | (accept) "se_tasks s = []" "se_in_flight s = []" "0 < se_accepting s"
    | (read) "se_tasks s = []" "se_in_flight s = []" "se_accepting s = 0" "0 < se_reading s"
    | (ws) "se_tasks s = []" "se_in_flight s = []" "se_accepting s = 0" "se_reading s = 0" "0 < se_ws_closing s"
    | (wait) "se_tasks s = []" "se_in_flight s = []" "se_accepting s = 0" "se_reading s = 0" "se_ws_closing s = 0"
        "se_waits s = 1"
    | (timer) "se_tasks s = []" "se_in_flight s = []" "se_accepting s = 0" "se_reading s = 0" "se_ws_closing s = 0"
        "se_waits s = 0" "se_timer_done s \<noteq> []"
    using assms(2,3) by (fastforce simp: unreferenced_def)
  then show ?thesis
  proof cases
    case task
    then obtain k ks where k: "se_tasks s = k # ks" by (cases "se_tasks s") simp_all
    have "pending (s\<lparr>se_tasks := ks\<rparr>) < pending s" by (simp add: pending_def k)
    then show ?thesis
      using closed_task [of "s\<lparr>se_tasks := ks\<rparr>" k w] assms(1) by (simp add: next_end_def perform_def Let_def k)
  next
    case sending
    then show ?thesis using assms(1) by (cases "se_in_flight s")
      (simp_all add: next_end_def perform_def Let_def on_write_def do_close_def on_session_def say_def pending_def)
  next
    case timer
    then obtain ec d where d: "se_timer_done s = ec # d" by (cases "se_timer_done s") simp_all
    have "on_deadline J ec (w, s\<lparr>se_timer_done := d\<rparr>) = (w, s\<lparr>se_timer_done := d\<rparr>)"
      using assms(1) by (simp add: on_deadline_def Let_def split: error_code.split error_kind.split)
    then show ?thesis using timer assms(1) by (simp add: next_end_def perform_def Let_def pending_def d)
  qed (use assms(1) in \<open>simp_all add: next_end_def perform_def Let_def on_accept_def on_read_def on_ws_close_def
      timer_completes_def pending_def\<close>)
qed

lemma closed_winds_down:
  "session_reach J st \<Longrightarrow> se_state (snd st) = Closed \<Longrightarrow>
     \<exists>st'. (session_step J)\<^sup>*\<^sup>* st st' \<and> se_state (snd st') = Closed \<and> unreferenced (snd st')"
proof (induction "pending (snd st)" arbitrary: st rule: less_induct)
  case less
  show ?case
  proof (cases "unreferenced (snd st)")
    case False
    define st1 where "st1 = perform J (next_end (snd st)) st"
    have e: "enabled (next_end (snd st)) st" using next_end_enabled [OF False, of "fst st"] by simp
    have "se_waits (snd st) \<le> 1" using reach_armed [OF less.prems(1)] by (simp add: armed_def deadlines_def)
    then have "se_state (snd st1) = Closed" "pending (snd st1) < pending (snd st)"
      using next_end_progress [OF less.prems(2) False, of J "fst st"] by (simp_all add: st1_def)
    moreover have "session_reach J st1" unfolding st1_def by (rule session_reach.step [OF less.prems(1) e])
    ultimately obtain st' where "(session_step J)\<^sup>*\<^sup>* st1 st'" "se_state (snd st') = Closed" "unreferenced (snd st')"
      using less.hyps by blast
    then show ?thesis
      using session_step.intros [OF e, of J] unfolding st1_def by (metis converse_rtranclp_into_rtranclp)
  qed (use less.prems(2) in blast)
qed

subsection \<open>In the server\<close>

lemma session_steps_in_system:
  assumes "(session_step J)\<^sup>*\<^sup>* st st'" "sy_sessions sy r = Some (snd st)" "sy_world sy = fst st"
  shows "(system_step J)\<^sup>*\<^sup>* sy (sy\<lparr>sy_world := fst st', sy_sessions := (sy_sessions sy)(r \<mapsto> snd st')\<rparr>)"
  using assms
proof (induction rule: rtranclp_induct)
  case base
  have "(sy_sessions sy)(r \<mapsto> snd st) = sy_sessions sy" using base(1) by (rule fun_upd_idem)
  then have "sy\<lparr>sy_world := fst st, sy_sessions := (sy_sessions sy)(r \<mapsto> snd st)\<rparr> = sy"
    using base(2) by (cases sy) simp
  then show ?case by (simp only: rtranclp.rtrancl_refl)
next
  case (step st1 st2)
  let ?at = "\<lambda>st. sy\<lparr>sy_world := fst st, sy_sessions := (sy_sessions sy)(r \<mapsto> snd st)\<rparr>"
  obtain ev where ev: "enabled ev st1" "st2 = perform J ev st1" using step(2) by (auto elim: session_step.cases)
  have "system_step J (?at st1) (session_event J r ev (snd st1) (?at st1))"
    using ev(1) by (intro system_step.session) simp_all
  moreover have "session_event J r ev (snd st1) (?at st1) = ?at st2"
    using ev(2) by (simp add: session_event_def Let_def)
  ultimately have "system_step J (?at st1) (?at st2)" by simp
  with step.IH [OF step.prems] show ?case by (rule rtranclp.rtrancl_into_rtrancl)
qed

lemma system_steps_reach: "(system_step J)\<^sup>*\<^sup>* sy sy' \<Longrightarrow> system_reach J sy \<Longrightarrow> system_reach J sy'"
  by (induction rule: rtranclp_induct) (auto intro: system_reach.step)

text \<open>A closed session of the server can go without anything else moving.\<close>

lemma closed_session_goes:
  assumes "system_reach J sy" "sy_sessions sy r = Some s" "se_state s = Closed"
  shows "\<exists>sy'. (system_step J)\<^sup>*\<^sup>* sy sy' \<and> sy_sessions sy' = (sy_sessions sy)(r := None) \<and>
     \<not> in_table r (sy_world sy')"
proof -
  have "session_reach J (sy_world sy, s)" by (rule system_session(3) [OF system_reach_ok [OF assms(1)] assms(2)])
  then obtain w' s' where p: "(session_step J)\<^sup>*\<^sup>* (sy_world sy, s) (w', s')" "se_state s' = Closed" "unreferenced s'"
    using closed_winds_down [of J "(sy_world sy, s)"] assms(3) by auto
  define sy1 where "sy1 = sy\<lparr>sy_world := w', sy_sessions := (sy_sessions sy)(r \<mapsto> s')\<rparr>"
  have steps: "(system_step J)\<^sup>*\<^sup>* sy sy1"
    using session_steps_in_system [OF p(1), of sy r] assms(2) by (simp add: sy1_def)
  have ok: "system_ok J sy1" by (rule system_reach_ok [OF system_steps_reach [OF steps assms(1)]])
  have at: "sy_sessions sy1 r = Some s'" by (simp add: sy1_def)
  have out: "\<not> in_table r (sy_world sy1)"
    using ok at p(2) in_table_iff [of sy1 r] unfolding system_ok_def entries_ok_def by (metis option.inject)
  have "system_step J sy1 (release_session r s' sy1)" by (rule system_step.release [OF at p(3) out])
  moreover have "sy_sessions (release_session r s' sy1) = (sy_sessions sy)(r := None)"
    by (simp add: release_session_def sy1_def)
  moreover have "sy_world (release_session r s' sy1) = sy_world sy1"
    using p(2) by (simp add: release_session_def destroy_def timer_cancel_def Let_def)
  ultimately show ?thesis using steps out by (metis rtranclp.rtrancl_into_rtrancl)
qed


text \<open>A server that gives its clients no time at all.\<close>

definition hasty_start :: system where
  "hasty_start = (case new_server no_errors 8080 0 (quiet_world\<lparr>w_clock := \<lambda>_. 0\<rparr>) of (w, Inr v) \<Rightarrow> start_system (w, v))"

definition hasty :: system where
  "hasty = accept_completes No_error (Inr (None, None)) hasty_start"

lemma hasty_start_fields:
  "system_reach ref_json hasty_start" "sv_accepting (sy_server hasty_start) = 1" "\<not> sv_stopped (sy_server hasty_start)"
  "sv_alive (sy_server hasty_start)" "sv_handshake_timeout (sy_server hasty_start) = 0"
  "sy_next hasty_start = 0" "sv_shared (sy_server hasty_start)" "w_clock (sy_world hasty_start) = (\<lambda>_. 0)"
proof -
  obtain w v where "new_server no_errors 8080 0 (quiet_world\<lparr>w_clock := \<lambda>_. 0\<rparr>) = (w, Inr v)"
    by (simp add: new_server_def no_errors_def Let_def)
  then show "system_reach ref_json hasty_start" unfolding hasty_start_def by (simp add: system_reach.start)
qed (simp_all add: hasty_start_def new_server_def no_errors_def Let_def start_system_def run_server_def
    start_accept_def note_count_def note_gauge_def note_event_def with_metrics_def tick_def emit_def quiet_world_def)

lemma hasty_fields:
  "system_reach ref_json hasty"
  "\<exists>s. sy_sessions hasty 0 = Some s \<and> se_expiry s = 0" "steady_now (sy_world hasty) = 0"
proof -
  show "system_reach ref_json hasty"
    unfolding hasty_def by (rule system_reach.step [OF hasty_start_fields(1)])
      (simp add: system_step.accept hasty_start_fields)
  show "\<exists>s. sy_sessions hasty 0 = Some s \<and> se_expiry s = 0" "steady_now (sy_world hasty) = 0"
    by (simp_all add: hasty_def accept_completes_def on_server_accept_def accept_arrived_def Let_def open_connection_def
        on_server_def start_accept_def hasty_start_fields run_def new_session_def expires_after_def timer_cancel_def
        check_deadline_def start_wait_def do_accept_def seconds_def steady_now_def note_count_def with_metrics_def
        tick_def emit_def)
qed


end
