(* ===== verification/Client.thy ===== *)
theory Client
  imports Runtime_Config Protocol_Messages "HOL-Library.Sublist"
begin

text \<open>
  \<^verbatim>\<open>src/client/main.cpp\<close>: the client is a stub that tells its user how to reach the
  server. What it tells is the port the server listens on and the message that starts the protocol.
\<close>

definition client_main :: "string list \<times> int" where
  "client_main =
     ([''cppsim poker client - not yet implemented'',
       ''Usage: connect to ws://localhost:8080 and send HANDSHAKE message''], 0)"

lemma client_usage_is_right:
  "\<exists>line \<in> set (fst client_main).
     sublist (''localhost:'' @ nat_to_string DEFAULT_PORT) line \<and> sublist HANDSHAKE line"
proof -
  define line where "line = ''Usage: connect to ws://localhost:8080 and send HANDSHAKE message''"
  have "char_of (56 :: nat) = CHR ''8''" "char_of (48 :: nat) = CHR ''0''" by code_simp+
  then have port: "nat_to_string DEFAULT_PORT = ''8080''"
    by (simp add: DEFAULT_PORT_def nat_to_string.simps digit_def)
  have "line = ''Usage: connect to ws://'' @ (''localhost:'' @ nat_to_string DEFAULT_PORT) @ '' and send HANDSHAKE message''"
    "line = ''Usage: connect to ws://localhost:8080 and send '' @ HANDSHAKE @ '' message''"
    unfolding port HANDSHAKE_def line_def by simp_all
  then have "sublist (''localhost:'' @ nat_to_string DEFAULT_PORT) line" "sublist HANDSHAKE line"
    unfolding sublist_def by blast+
  then show ?thesis unfolding client_main_def line_def [symmetric] by simp
qed

end
