(* ===== verification/Spec2Isabelle.thy ===== *)
theory Spec2Isabelle
  imports
    Protocol_Correct
    Json_Reference
    Validation
    Session_Metrics
    Metrics
    Connection_Manager
    Session_Failures
    Session_Protocol
    Server_Correct
    Shared_Data
    Main_Correct
    Logger_Correct
    Lobby_Refinement
    System_Liveness
    Client
begin

text \<open>
  A verification library for the poker server in \<^verbatim>\<open>src/\<close>: a WebSocket server that
  accepts connections, performs a versioned JSON handshake, registers clients under random session
  ids, and serves their ACTION, RELOAD_REQUEST and DISCONNECT messages until they leave, misbehave,
  fall silent or the process is told to stop.

  \<^bold>\<open>The program and its model.\<close> \<^verbatim>\<open>main.cpp\<close> loads the configuration, constructs a
  \<^verbatim>\<open>websocket_server\<close> and runs one event loop on one thread; a second thread exports
  metrics. The server accepts connections and makes a \<^verbatim>\<open>websocket_session\<close> for each; a
  session reads texts, checks them with \<^verbatim>\<open>protocol.cpp\<close>, registers itself with the
  \<^verbatim>\<open>connection_manager\<close> and answers through its write queue. Every handler is a function
  from the state to the state; the state is an object record and the world the objects share (clock,
  random source, session table, configuration, metrics, log). What happens next is open: the
  completions of the asynchronous operations, the timers, the calls from outside and the threads are
  the steps of relations (\<open>session_reach\<close>, \<open>system_step\<close>, \<open>process_step\<close>), and the
  theorems hold for every order of them.

  \<^bold>\<open>Theories, from the bottom.\<close>
  \<^item> \<^verbatim>\<open>Prelude\<close>: machine integers as words, exceptions as values, decimal printing,
    \<^verbatim>\<open>string_utils.hpp\<close>, \<^verbatim>\<open>sanitize.hpp\<close>. \<^verbatim>\<open>Double\<close>: the values of IEEE
    doubles and the operations the code uses. \<^verbatim>\<open>Ordered_Map\<close>: \<^verbatim>\<open>std::map\<close> as a sorted
    association list, behind the locale \<open>finite_map\<close>.
  \<^item> \<^verbatim>\<open>Json_Api\<close>: the JSON library as a record of functions, a parameter of every
    definition that uses it, with the laws some theorems need as locales; \<^verbatim>\<open>Json_Reference\<close>
    is a concrete instance that satisfies them.
  \<^item> \<^verbatim>\<open>Protocol_Messages\<close> (\<^verbatim>\<open>protocol.hpp\<close>), \<^verbatim>\<open>Protocol\<close> (\<^verbatim>\<open>protocol.cpp\<close>),
    \<^verbatim>\<open>Protocol_Correct\<close>: which texts are accepted, round trips of every message, exact
    conversion of decimal amounts. \<^verbatim>\<open>Validation\<close> (\<^verbatim>\<open>protocol_validation.cpp\<close>).
  \<^item> \<^verbatim>\<open>Logger\<close> (\<^verbatim>\<open>logger.cpp\<close>, with the calendar and the formatting it uses of the C
    library), \<^verbatim>\<open>Logger_Correct\<close>: time stamps sort as the times do.
    \<^verbatim>\<open>Runtime_Config\<close> (\<^verbatim>\<open>config.hpp\<close>,
    \<^verbatim>\<open>runtime_config_manager\<close>), \<^verbatim>\<open>Session_Metrics\<close>, \<^verbatim>\<open>Metrics\<close>
    (\<^verbatim>\<open>metrics_collector\<close>): settings stay in range, failed loads change nothing, logs and
    samples stay bounded.
  \<^item> \<^verbatim>\<open>Connection_Manager\<close>: the session table and the generation of ids, behind the locale
    \<open>session_registry\<close>.
  \<^item> \<^verbatim>\<open>World\<close>, \<^verbatim>\<open>Session\<close>: \<^verbatim>\<open>websocket_session\<close>, one definition per member
    function, with the pending operations of Boost.Asio as counters. \<^verbatim>\<open>Session_Laws\<close> states
    once what makes a predicate an invariant of all handlers (locales \<open>refusal_invariant\<close>,
    \<open>handler_invariant\<close>, \<open>session_invariant\<close>); \<^verbatim>\<open>Session_Invariants\<close> and
    \<^verbatim>\<open>Session_Table\<close> interpret them for the write pipeline, the pending reads and timers, the
    session data and the session table. \<^verbatim>\<open>Session_Properties\<close>, \<^verbatim>\<open>Session_Messages\<close>
    and \<^verbatim>\<open>Session_Commands\<close> hold the theorems on one session, \<^verbatim>\<open>Session_Failures\<close> an
    allocation failure it does not recover from. \<^verbatim>\<open>Session_Protocol\<close> defines what the server
    promises a client as a function of the text it sends and shows that the handlers do exactly that;
    \<^verbatim>\<open>Session_Silence\<close> shows that the timer ends the session of a silent client.
  \<^item> \<^verbatim>\<open>Server\<close>: \<^verbatim>\<open>websocket_server\<close>; \<^verbatim>\<open>System\<close>: the server with all its
    sessions and what can happen next. \<^verbatim>\<open>System_Correct\<close>: table and sessions agree;
    \<^verbatim>\<open>Server_Correct\<close>: stopping, the accept loop and its backoff;
    \<^verbatim>\<open>Shared_Data\<close>: configuration and metrics stay sound whatever moves. \<^verbatim>\<open>Lobby\<close>
    states what the server promises as a small machine on the clients that are in, and
    \<^verbatim>\<open>Lobby_Refinement\<close> that every run of the server is a run of it.
    \<^verbatim>\<open>System_Liveness\<close>: the session of a silent client can always go, and its seat with it.
  \<^item> \<^verbatim>\<open>Main_Program\<close>, \<^verbatim>\<open>Main_Correct\<close>: \<^verbatim>\<open>main.cpp\<close> with both threads: how the
    process starts or fails to, what holds while it runs, and that it ends after a signal.
    \<^verbatim>\<open>Client\<close>: the client, a stub.

  \<^bold>\<open>What the theorems show.\<close> Of a session: writes never overlap and refine a FIFO channel,
  a close request drains the queue in a bounded number of steps, only a valid handshake
  authenticates, every text has exactly the effect the reference definition of the protocol gives it (so
  commands act only under the session's own id, sequence numbers and the stack move as specified, and an honest
  client is served), the rate limit holds for every window, an open session always has a read and a
  deadline pending, and a silent one is closed with everything written. Of the server: the table names exactly the live authenticated sessions, at most
  1000, the accept loop never runs twice and recovers from failures with exponential backoff,
  stopping closes what is in the table, a silent client loses its seat; and as a whole it refines the lobby, where clients join,
  act within the gap, reload up to the cap and leave, and nothing else happens. Of the process: startup outcome, safety with two threads,
  termination after a signal. Of the data: acceptance, round trips, ranges and bounds.

  \<^bold>\<open>Bounds and termination.\<close> All definitions are total functions; no fuel is used, with two
  exceptions: \<open>drain J n\<close> performs at most \<open>n\<close> steps of a closing session, \<open>run_out J n\<close> of
  one whose time is over, and the theorems about them say how many are enough. The counters of pending operations are natural numbers, and that they
  are at most one is proved. The clock is an arbitrary function of the number of readings; where a
  property needs it to be monotone it says so.

  \<^bold>\<open>Assumptions and what is not modelled.\<close>
  \<^item> Handlers of one session run one at a time (its strand); the event loop runs on one thread,
    as \<^verbatim>\<open>main.cpp\<close> does, so a handler is one step. The metrics thread interleaves between
    the steps. The mutexes of the code are therefore not modelled.
  \<^item> Allocation failure (\<^verbatim>\<open>std::bad_alloc\<close>), except where the code recovers from it by more
    than skipping a log line: in \<^verbatim>\<open>do_write\<close> (\<open>do_write_lost\<close>), when a session cannot be made
    or started (\<open>open_connection\<close>, \<open>run\<close>) and when the metrics thread cannot be started (\<open>prepare\<close>).
    Elsewhere the steps assume that log lines can be allocated and asynchronous operations be started;
    \<open>Session_Failures\<close> shows what one failure outside these limits does.
  \<^item> The inside of Boost.Beast and Boost.Asio: framing, TCP, Beast's own idle timeouts
    (\<^verbatim>\<open>ws_.set_option\<close>). An asynchronous operation is its start, an effect, and its
    completion, a step with an arbitrary error code.
  \<^item> What destroying the event loop and its pending handlers does when the process exits.
  \<^item> \<^verbatim>\<open>boost_wrapper.hpp\<close> (includes only), the tests.
\<close>

end
